(* ===== verification/Prelude.thy ===== *)
theory Prelude
  imports Main "HOL-Library.Word" "HOL-Library.Sublist"
begin

text \<open>
  Shared material of the development: the widths of the machine integers the sources use, the
  string functions of the C++ library they call (\<^verbatim>\<open>std::string::find\<close>, \<^verbatim>\<open>std::to_string\<close>,
  \<^verbatim>\<open>std::stoul\<close>), counters kept in \<^verbatim>\<open>std::unordered_map\<close>, the outcome of a callback that may
  throw, and the generic lemmas the component theories use.
\<close>

section \<open>Lemma collections\<close>

named_theorems wf_intros \<open>preservation of the invariants of the components\<close>
named_theorems frame_simps \<open>the fields an operation leaves as they were\<close>

section \<open>Machine integers\<close>

type_synonym u8 = "8 word"
type_synonym u16 = "16 word"
type_synonym u32 = "32 word"
type_synonym u64 = "64 word"

text \<open>A callback held in a \<^verbatim>\<open>std::function\<close> returns or leaves by an exception.\<close>

datatype call_outcome = Returned | Threw

section \<open>Strings\<close>

text \<open>\<^verbatim>\<open>s.find(c, pos)\<close>: the first position of \<open>c\<close> from \<open>pos\<close> on, \<open>None\<close> for \<^verbatim>\<open>npos\<close>.\<close>

fun find_char :: "char \<Rightarrow> string \<Rightarrow> nat \<Rightarrow> nat option" where
  "find_char c [] i = None"
| "find_char c (x # xs) i = (if x = c then Some i else find_char c xs (Suc i))"

definition find_from :: "char \<Rightarrow> string \<Rightarrow> nat \<Rightarrow> nat option" where
  "find_from c s pos = find_char c (drop pos s) pos"

text \<open>\<^verbatim>\<open>s.substr(pos, n)\<close> and \<^verbatim>\<open>s.substr(pos)\<close> for a position inside the string.\<close>

definition substr :: "string \<Rightarrow> nat \<Rightarrow> nat \<Rightarrow> string" where
  "substr s pos n = take n (drop pos s)"

definition is_digit :: "char \<Rightarrow> bool" where
  "is_digit c \<longleftrightarrow> c \<in> set ''0123456789''"

text \<open>\<^verbatim>\<open>isspace\<close> in the C locale: space, tab, newline, vertical tab, form feed, return.\<close>

definition is_space :: "char \<Rightarrow> bool" where
  "is_space c \<longleftrightarrow> c \<in> set [CHR '' '', CHR 0x09, CHR 0x0A, CHR 0x0B, CHR 0x0C, CHR 0x0D]"

definition digit_char :: "nat \<Rightarrow> char" where
  "digit_char d = ''0123456789'' ! d"

definition digit_val :: "char \<Rightarrow> nat" where
  "digit_val c = of_char c - 48"

text \<open>\<^verbatim>\<open>std::to_string\<close> and \<^verbatim>\<open>operator<<\<close> on an unsigned integer.\<close>

fun show_nat :: "nat \<Rightarrow> string" where
  "show_nat n = (if n < 10 then [digit_char n] else show_nat (n div 10) @ [digit_char (n mod 10)])"

declare show_nat.simps [simp del]

definition show_int :: "int \<Rightarrow> string" where
  "show_int i = (if i < 0 then ''-'' @ show_nat (nat (- i)) else show_nat (nat i))"

definition digits_val :: "string \<Rightarrow> nat" where
  "digits_val s = foldl (\<lambda>n c. 10 * n + digit_val c) 0 s"

text \<open>
  \<^verbatim>\<open>std::stoul\<close> and \<^verbatim>\<open>std::stoull\<close> in base 10 where \<^verbatim>\<open>unsigned long\<close> has 64 bits: leading white
  space and a sign are skipped, the longest run of digits is read and what follows it is ignored;
  no digit (\<^verbatim>\<open>invalid_argument\<close>) and a magnitude beyond 64 bits (\<^verbatim>\<open>out_of_range\<close>) throw; a minus
  sign negates in the unsigned type.
\<close>

definition stoull :: "string \<Rightarrow> u64 option" where
  "stoull s =
     (let s1 = dropWhile is_space s;
          neg = (case s1 of c # _ \<Rightarrow> c = CHR ''-'' | [] \<Rightarrow> False);
          s2 = (case s1 of c # r \<Rightarrow> if c = CHR ''-'' \<or> c = CHR ''+'' then r else s1 | [] \<Rightarrow> []);
          ds = takeWhile is_digit s2
      in if ds = [] then None
         else if 2 ^ 64 \<le> digits_val ds then None
         else Some (if neg then - of_nat (digits_val ds) else of_nat (digits_val ds)))"

section \<open>Counters in unordered maps\<close>

text \<open>\<^verbatim>\<open>m[k] += 1U\<close>: a missing key starts at zero.\<close>

definition bump :: "('k \<rightharpoonup> u64) \<Rightarrow> 'k \<Rightarrow> ('k \<rightharpoonup> u64)" where
  "bump m k = m(k \<mapsto> (case m k of None \<Rightarrow> 1 | Some c \<Rightarrow> c + 1))"

section \<open>Lemmas on strings\<close>

lemma find_char_None: "find_char c s i = None \<longleftrightarrow> c \<notin> set s"
  by (induction s arbitrary: i) auto

lemma find_char_append: "c \<notin> set s \<Longrightarrow> find_char c (s @ c # t) i = Some (i + length s)"
  by (induction s arbitrary: i) auto

lemma find_char_SomeD:
  "find_char c s i = Some j \<Longrightarrow> \<exists>a b. s = a @ c # b \<and> c \<notin> set a \<and> j = i + length a"
proof (induction s arbitrary: i)
  case (Cons x s)
  show ?case
  proof (cases "x = c")
    case True
    with Cons.prems show ?thesis by (intro exI [of _ "[]"] exI [of _ s]) auto
  next
    case False
    with Cons.prems obtain a b where "s = a @ c # b" "c \<notin> set a" "j = Suc i + length a"
      using Cons.IH [of "Suc i"] by auto
    with False show ?thesis by (intro exI [of _ "x # a"] exI [of _ b]) auto
  qed
qed simp

lemma find_from_append:
  "c \<notin> set s \<Longrightarrow> find_from c (p @ s @ c # t) (length p) = Some (length p + length s)"
  by (simp add: find_from_def find_char_append)

lemma is_digit_digit_char [simp]: "d < 10 \<Longrightarrow> is_digit (digit_char d)"
  by (simp only: is_digit_def digit_char_def) (rule nth_mem, simp)

lemma digit_val_digit_char [simp]:
  assumes "d < 10"
  shows "digit_val (digit_char d) = d"
proof -
  from assms have "d \<in> {0, 1, 2, 3, 4, 5, 6, 7, 8, 9}" by auto
  then show ?thesis by (elim insertE emptyE) (simp_all add: digit_val_def digit_char_def)
qed

lemma show_nat_digits: "c \<in> set (show_nat n) \<Longrightarrow> is_digit c"
proof (induction n rule: show_nat.induct)
  case (1 n)
  then show ?case
    by (subst (asm) (2) show_nat.simps) (auto split: if_splits)
qed

lemma show_nat_not_Nil [simp]: "show_nat n \<noteq> []"
  by (subst show_nat.simps) simp

lemma digits_val_snoc: "digits_val (s @ [c]) = 10 * digits_val s + digit_val c"
  by (simp add: digits_val_def)

lemma digits_val_show_nat [simp]: "digits_val (show_nat n) = n"
proof (induction n rule: show_nat.induct)
  case (1 n)
  show ?case
  proof (cases "n < 10")
    case True
    then show ?thesis by (subst show_nat.simps) (simp add: digits_val_def)
  next
    case False
    with 1 show ?thesis by (subst show_nat.simps) (simp add: digits_val_snoc)
  qed
qed

lemma show_nat_inject [simp]: "show_nat m = show_nat n \<longleftrightarrow> m = n"
  by (metis digits_val_show_nat)

lemma digit_not_special:
  "is_digit c \<Longrightarrow> \<not> is_space c \<and> c \<noteq> CHR ''-'' \<and> c \<noteq> CHR ''+'' \<and> c \<noteq> CHR ''|'' \<and> c \<noteq> CHR 0x5C
     \<and> c \<noteq> CHR '';''"
  by (auto simp: is_digit_def is_space_def)

lemma stoull_digits:
  assumes "ds \<noteq> []" "\<And>c. c \<in> set ds \<Longrightarrow> is_digit c" "digits_val ds < 2 ^ 64"
  shows "stoull ds = Some (of_nat (digits_val ds))"
proof -
  obtain d r where ds: "ds = d # r" using assms(1) by (cases ds) auto
  with assms(2) have "is_digit d" by simp
  then have "\<not> is_space d" "d \<noteq> CHR ''-''" "d \<noteq> CHR ''+''" using digit_not_special by blast+
  moreover have "takeWhile is_digit ds = ds" using assms(2) by (simp add: takeWhile_eq_all_conv)
  ultimately show ?thesis using assms(3) ds by (simp add: stoull_def)
qed

lemma stoull_show_nat [simp]: "n < 2 ^ 64 \<Longrightarrow> stoull (show_nat n) = Some (of_nat n)"
  using stoull_digits [of "show_nat n"] show_nat_digits by simp

lemma unat_u32_less: "unat (w :: u32) < 4294967296"
proof -
  have "unsigned w < (2 :: nat) ^ LENGTH(32)" by (rule unsigned_less)
  then show ?thesis by simp
qed

lemma unat_u64_less: "unat (w :: u64) < 18446744073709551616"
proof -
  have "unsigned w < (2 :: nat) ^ LENGTH(64)" by (rule unsigned_less)
  then show ?thesis by simp
qed

lemma unat_ucast_u32_u64 [simp]: "unat (ucast (w :: u32) :: u64) = unat w"
  using unat_u32_less [of w] by (simp add: unsigned_ucast_eq take_bit_nat_eq_self)

lemma stoull_unat [simp]: "stoull (show_nat (unat (w :: u64))) = Some w"
  using unat_u64_less [of w] by simp

lemma stoull_unat32 [simp]: "stoull (show_nat (unat (w :: u32))) = Some (ucast w)"
proof -
  have "unat w < 2 ^ 64" using unat_u32_less [of w] by simp
  then show ?thesis by simp
qed

section \<open>Lemmas on counters and lists\<close>

lemma bump_same [simp]: "bump m k k = Some (case m k of None \<Rightarrow> 1 | Some c \<Rightarrow> c + 1)"
  by (simp add: bump_def)

lemma bump_other [simp]: "j \<noteq> k \<Longrightarrow> bump m k j = m j"
  by (simp add: bump_def)

lemma dom_bump [simp]: "dom (bump m k) = insert k (dom m)"
  by (simp add: bump_def)

lemma map_of_filter_other: "j \<noteq> k \<Longrightarrow> map_of (filter (\<lambda>p. fst p \<noteq> k) xs) j = map_of xs j"
  by (induction xs) auto

lemma distinct_keys_filter: "distinct (map fst xs) \<Longrightarrow> distinct (map fst (filter P xs))"
  by (induction xs) auto

lemma distinct_keys_take: "distinct (map fst xs) \<Longrightarrow> distinct (map fst (take n xs))"
  by (metis distinct_take take_map)

end
