(* ===== verification/Error_Code.thy ===== *)
theory Error_Code
  imports Prelude
begin

unbundle bit_operations_syntax

text \<open>
  \<^verbatim>\<open>core/error_code.hpp\<close> and \<^verbatim>\<open>core/error_code.cpp\<close>: the error codes every operation of the
  framework returns, their 32-bit values (domain in the upper half, detail in the lower) and the
  functions that read a code back.
\<close>

section \<open>Domains and codes\<close>

datatype ErrorDomain = kCommon | kCore | kIpc | kLog | kDemo | kInterconnect

fun domain_value :: "ErrorDomain \<Rightarrow> u16" where
  "domain_value kCommon = 0x00"
| "domain_value kCore = 0x01"
| "domain_value kIpc = 0x02"
| "domain_value kLog = 0x03"
| "domain_value kDemo = 0x04"
| "domain_value kInterconnect = 0x05"

definition MakeErrorCode :: "ErrorDomain \<Rightarrow> u16 \<Rightarrow> u32" where
  "MakeErrorCode domain detail = push_bit 16 (ucast (domain_value domain)) OR ucast detail"

datatype ErrorCode =
    kOk
  | kInvalidParam | kTimeout | kWouldBlock
  | kThreadStartFailed | kThreadPrioritySetFailed | kThreadQueueFull | kThreadTaskRejected
  | kProcessForkFailed | kProcessWaitFailed
  | kQueueCreateFailed | kQueueSendFailed | kQueueReceiveFailed
  | kLogWriteFailed
  | kDemoServiceFailed
  | kInterconnectInvalidEnvelope | kInterconnectRouteMiss | kInterconnectRouteHandlerError
  | kUnknown

text \<open>The underlying \<^verbatim>\<open>int32\<close> of each enumerator, as its bit pattern.\<close>

fun code_value :: "ErrorCode \<Rightarrow> u32" where
  "code_value kOk = 0"
| "code_value kInvalidParam = MakeErrorCode kCommon 0x0001"
| "code_value kTimeout = MakeErrorCode kCommon 0x0002"
| "code_value kWouldBlock = MakeErrorCode kCommon 0x0003"
| "code_value kThreadStartFailed = MakeErrorCode kCore 0x0001"
| "code_value kThreadPrioritySetFailed = MakeErrorCode kCore 0x0002"
| "code_value kThreadQueueFull = MakeErrorCode kCore 0x0003"
| "code_value kThreadTaskRejected = MakeErrorCode kCore 0x0004"
| "code_value kProcessForkFailed = MakeErrorCode kCore 0x0005"
| "code_value kProcessWaitFailed = MakeErrorCode kCore 0x0006"
| "code_value kQueueCreateFailed = MakeErrorCode kIpc 0x0001"
| "code_value kQueueSendFailed = MakeErrorCode kIpc 0x0002"
| "code_value kQueueReceiveFailed = MakeErrorCode kIpc 0x0003"
| "code_value kLogWriteFailed = MakeErrorCode kLog 0x0001"
| "code_value kDemoServiceFailed = MakeErrorCode kDemo 0x0001"
| "code_value kInterconnectInvalidEnvelope = MakeErrorCode kInterconnect 0x0001"
| "code_value kInterconnectRouteMiss = MakeErrorCode kInterconnect 0x0002"
| "code_value kInterconnectRouteHandlerError = MakeErrorCode kInterconnect 0x0003"
| "code_value kUnknown = MakeErrorCode kCommon 0xFFFF"

section \<open>Reading a code\<close>

text \<open>\<^verbatim>\<open>GetDomain\<close> casts to the scoped enumeration without a check: the result is the 16-bit value.\<close>

definition GetDomain :: "u32 \<Rightarrow> u16" where
  "GetDomain raw = ucast (drop_bit 16 raw AND 0xFFFF)"

definition GetDetailCode :: "u32 \<Rightarrow> u16" where
  "GetDetailCode raw = ucast (raw AND 0xFFFF)"

fun error_ToString :: "ErrorCode \<Rightarrow> string" where
  "error_ToString kOk = ''OK''"
| "error_ToString kInvalidParam = ''INVALID_PARAM''"
| "error_ToString kTimeout = ''TIMEOUT''"
| "error_ToString kWouldBlock = ''WOULD_BLOCK''"
| "error_ToString kThreadStartFailed = ''THREAD_START_FAILED''"
| "error_ToString kThreadPrioritySetFailed = ''THREAD_PRIORITY_SET_FAILED''"
| "error_ToString kThreadQueueFull = ''THREAD_QUEUE_FULL''"
| "error_ToString kThreadTaskRejected = ''THREAD_TASK_REJECTED''"
| "error_ToString kProcessForkFailed = ''PROCESS_FORK_FAILED''"
| "error_ToString kProcessWaitFailed = ''PROCESS_WAIT_FAILED''"
| "error_ToString kQueueCreateFailed = ''QUEUE_CREATE_FAILED''"
| "error_ToString kQueueSendFailed = ''QUEUE_SEND_FAILED''"
| "error_ToString kQueueReceiveFailed = ''QUEUE_RECEIVE_FAILED''"
| "error_ToString kLogWriteFailed = ''LOG_WRITE_FAILED''"
| "error_ToString kDemoServiceFailed = ''DEMO_SERVICE_FAILED''"
| "error_ToString kInterconnectInvalidEnvelope = ''INTERCONNECT_INVALID_ENVELOPE''"
| "error_ToString kInterconnectRouteMiss = ''INTERCONNECT_ROUTE_MISS''"
| "error_ToString kInterconnectRouteHandlerError = ''INTERCONNECT_ROUTE_HANDLER_ERROR''"
| "error_ToString kUnknown = ''UNKNOWN''"

definition ToDomainString :: "u32 \<Rightarrow> string" where
  "ToDomainString raw =
     (let d = GetDomain raw in
      if d = domain_value kCommon then ''COMMON''
      else if d = domain_value kCore then ''CORE''
      else if d = domain_value kIpc then ''IPC''
      else if d = domain_value kLog then ''LOG''
      else if d = domain_value kDemo then ''DEMO''
      else if d = domain_value kInterconnect then ''INTERCONNECT''
      else ''UNKNOWN'')"

section \<open>Round trips\<close>

lemma mask_16: "(0xFFFF :: u32) = mask 16"
  by (simp add: mask_eq_exp_minus_1)

lemma GetDetailCode_Make: "GetDetailCode (MakeErrorCode d x) = x"
  unfolding GetDetailCode_def MakeErrorCode_def mask_16
  by (rule bit_word_eqI) (auto simp: bit_simps)

lemma GetDomain_Make: "GetDomain (MakeErrorCode d x) = domain_value d"
  unfolding GetDomain_def MakeErrorCode_def mask_16
  by (rule bit_word_eqI) (auto simp: bit_simps dest: bit_imp_le_length)

lemma domain_value_inject [simp]: "domain_value a = domain_value b \<longleftrightarrow> a = b"
  by (cases a; cases b) simp_all

text \<open>
  The packing of an error code keeps both halves. For every domain and detail the domain
  string and the detail code read back are the ones packed, and packing is injective, so no two
  (domain, detail) pairs collide in the 32-bit value.
\<close>

theorem error_code_packing:
  "GetDomain (MakeErrorCode d x) = domain_value d \<and> GetDetailCode (MakeErrorCode d x) = x \<and>
   (MakeErrorCode d x = MakeErrorCode d' x' \<longleftrightarrow> d = d' \<and> x = x')"
  by (metis GetDetailCode_Make GetDomain_Make domain_value_inject)

lemma code_value_0: "code_value e = 0 \<longleftrightarrow> e = kOk"
  by (cases e) (simp_all add: MakeErrorCode_def)

lemma code_value_inject [simp]: "code_value a = code_value b \<longleftrightarrow> a = b"
  by (cases a; cases b) (simp_all add: MakeErrorCode_def)

lemma error_ToString_inject [simp]: "error_ToString a = error_ToString b \<longleftrightarrow> a = b"
  by (cases a; cases b) simp_all

end
