(* ===== verification/Retry_Policy.thy ===== *)
theory Retry_Policy
  imports Error_Code
begin

text \<open>
  \<^verbatim>\<open>core/retry_policy.hpp\<close> and \<^verbatim>\<open>core/retry_policy.cpp\<close>: retry of an operation that reports
  \<^verbatim>\<open>kWouldBlock\<close>, with exponential back-off. The operation is a state transformer that returns a
  code; \<^verbatim>\<open>sleep_for\<close> is recorded as the list of the durations slept, in milliseconds.
\<close>

section \<open>The loop\<close>

text \<open>\<^verbatim>\<open>int32\<close> and \<^verbatim>\<open>int64\<close> fields as integers; \<open>retry_no_overflow\<close> below bounds the arithmetic.\<close>

record RetryOptions =
  max_retries :: int
  initial_backoff_ms :: int
  max_backoff_ms :: int

definition default_RetryOptions :: RetryOptions where
  "default_RetryOptions = \<lparr>max_retries = 5, initial_backoff_ms = 10, max_backoff_ms = 200\<rparr>"

type_synonym 's operation = "'s \<Rightarrow> ErrorCode \<times> 's"

function retry_loop ::
  "'s operation \<Rightarrow> RetryOptions \<Rightarrow> int \<Rightarrow> int \<Rightarrow> int list \<Rightarrow> 's \<Rightarrow> ErrorCode \<times> int list \<times> 's" where
  "retry_loop operation options attempt backoff_ms sleeps s =
     (if attempt \<le> max_retries options then
        let (ec, s') = operation s in
        if ec = kOk then (kOk, sleeps, s')
        else if ec \<noteq> kWouldBlock then (ec, sleeps, s')
        else retry_loop operation options (attempt + 1)
               (min (backoff_ms * 2) (max_backoff_ms options)) (sleeps @ [backoff_ms]) s'
      else (kTimeout, sleeps, s))"
  by pat_completeness auto
termination
  by (relation "measure (\<lambda>(_, options, attempt, _). nat (max_retries options + 1 - attempt))") auto

declare retry_loop.simps [simp del]

text \<open>An empty \<^verbatim>\<open>std::function\<close> is \<open>None\<close>.\<close>

definition RetryOnWouldBlock ::
  "'s operation option \<Rightarrow> RetryOptions \<Rightarrow> 's \<Rightarrow> ErrorCode \<times> int list \<times> 's" where
  "RetryOnWouldBlock operation options s =
     (case operation of
        None \<Rightarrow> (kInvalidParam, [], s)
      | Some f \<Rightarrow>
          if max_retries options < 0 \<or> initial_backoff_ms options \<le> 0
             \<or> max_backoff_ms options < initial_backoff_ms options
          then (kInvalidParam, [], s)
          else retry_loop f options 0 (initial_backoff_ms options) [] s)"

definition retry_options_ok :: "RetryOptions \<Rightarrow> bool" where
  "retry_options_ok options \<longleftrightarrow> 0 \<le> max_retries options \<and> 0 < initial_backoff_ms options
     \<and> initial_backoff_ms options \<le> max_backoff_ms options"

section \<open>Reference: the calls one after the other\<close>

text \<open>The state after \<open>k\<close> calls, and the code of the call made after \<open>k\<close> others.\<close>

fun run_op :: "'s operation \<Rightarrow> nat \<Rightarrow> 's \<Rightarrow> 's" where
  "run_op f 0 s = s"
| "run_op f (Suc k) s = run_op f k (snd (f s))"

definition out_op :: "'s operation \<Rightarrow> 's \<Rightarrow> nat \<Rightarrow> ErrorCode" where
  "out_op f s k = fst (f (run_op f k s))"

text \<open>The back-off before the \<open>k\<close>-th retry.\<close>

definition backoff_at :: "RetryOptions \<Rightarrow> nat \<Rightarrow> int" where
  "backoff_at options k = min (initial_backoff_ms options * 2 ^ k) (max_backoff_ms options)"

lemma out_op_0 [simp]: "out_op f s 0 = fst (f s)"
  by (simp add: out_op_def)

lemma out_op_Suc: "out_op f s (Suc k) = out_op f (snd (f s)) k"
  by (simp add: out_op_def)

lemma min_double:
  fixes x m :: int
  assumes "0 \<le> m"
  shows "min (min x m * 2) m = min (x * 2) m"
  using assms by (simp add: min_def)

lemma backoff_at_Suc:
  "retry_options_ok opts \<Longrightarrow>
     min (backoff_at opts k * 2) (max_backoff_ms opts) = backoff_at opts (Suc k)"
  unfolding backoff_at_def retry_options_ok_def
  by (subst min_double) (simp_all add: algebra_simps)

lemma backoff_at_0: "retry_options_ok opts \<Longrightarrow> backoff_at opts 0 = initial_backoff_ms opts"
  by (simp add: backoff_at_def retry_options_ok_def)

section \<open>What the loop computes\<close>

text \<open>The loop from attempt \<open>i\<close> on, when the next \<open>n\<close> calls block and the one after does not.\<close>

lemma retry_loop_stops:
  assumes "retry_options_ok opts" "\<And>k. k < n \<Longrightarrow> out_op f s k = kWouldBlock"
    "out_op f s n \<noteq> kWouldBlock" "int i + int n \<le> max_retries opts"
  shows "retry_loop f opts (int i) (backoff_at opts i) sl s =
     (out_op f s n, sl @ map (backoff_at opts) [i..<i + n], run_op f (Suc n) s)"
  using assms(2-)
proof (induction n arbitrary: i s sl)
  case 0
  then show ?case
    by (subst retry_loop.simps) (auto simp: split_beta Let_def)
next
  case (Suc n)
  have blocked: "fst (f s) = kWouldBlock" using Suc.prems(1) [of 0] by simp
  have IH: "retry_loop f opts (int (Suc i)) (backoff_at opts (Suc i)) (sl @ [backoff_at opts i]) (snd (f s)) =
     (out_op f (snd (f s)) n,
      (sl @ [backoff_at opts i]) @ map (backoff_at opts) [Suc i..<Suc i + n], run_op f (Suc n) (snd (f s)))"
  proof (rule Suc.IH)
    fix k assume "k < n"
    then show "out_op f (snd (f s)) k = kWouldBlock" using Suc.prems(1) [of "Suc k"] by (simp add: out_op_Suc)
  qed (use Suc.prems in \<open>simp_all add: out_op_Suc\<close>)
  have "[i..<i + Suc n] = i # [Suc i..<Suc i + n]" by (simp add: upt_conv_Cons)
  with IH blocked Suc.prems(3) show ?case
    by (subst retry_loop.simps) (simp add: split_beta Let_def backoff_at_Suc [OF assms(1)] out_op_Suc add.commute)
qed

lemma retry_loop_exhausts:
  assumes "retry_options_ok opts" "\<And>k. k < n \<Longrightarrow> out_op f s k = kWouldBlock"
    "int i + int n = max_retries opts + 1"
  shows "retry_loop f opts (int i) (backoff_at opts i) sl s =
     (kTimeout, sl @ map (backoff_at opts) [i..<i + n], run_op f n s)"
  using assms(2-)
proof (induction n arbitrary: i s sl)
  case 0
  then show ?case by (subst retry_loop.simps) simp
next
  case (Suc n)
  have blocked: "fst (f s) = kWouldBlock" using Suc.prems(1) [of 0] by simp
  have IH: "retry_loop f opts (int (Suc i)) (backoff_at opts (Suc i)) (sl @ [backoff_at opts i]) (snd (f s)) =
     (kTimeout, (sl @ [backoff_at opts i]) @ map (backoff_at opts) [Suc i..<Suc i + n], run_op f n (snd (f s)))"
  proof (rule Suc.IH)
    fix k assume "k < n"
    then show "out_op f (snd (f s)) k = kWouldBlock" using Suc.prems(1) [of "Suc k"] by (simp add: out_op_Suc)
  qed (use Suc.prems in simp)
  have "[i..<i + Suc n] = i # [Suc i..<Suc i + n]" by (simp add: upt_conv_Cons)
  with IH blocked Suc.prems(2) show ?case
    by (subst retry_loop.simps) (simp add: split_beta Let_def backoff_at_Suc [OF assms(1)] add.commute)
qed

text \<open>Either some call within the budget does not block, or all of them do.\<close>

lemma first_unblocked:
  assumes "\<not> (\<forall>k \<le> m. out_op f s k = kWouldBlock)"
  obtains n where "n \<le> m" "out_op f s n \<noteq> kWouldBlock" "\<And>k. k < n \<Longrightarrow> out_op f s k = kWouldBlock"
proof -
  define n where "n = (LEAST k. out_op f s k \<noteq> kWouldBlock)"
  from assms obtain j where j: "j \<le> m" "out_op f s j \<noteq> kWouldBlock" by auto
  have "out_op f s n \<noteq> kWouldBlock" unfolding n_def by (rule LeastI [of _ j]) (rule j)
  moreover have "n \<le> m" using j Least_le [of "\<lambda>k. out_op f s k \<noteq> kWouldBlock" j] by (simp add: n_def)
  moreover have "out_op f s k = kWouldBlock" if "k < n" for k
    using that not_less_Least unfolding n_def by blast
  ultimately show ?thesis using that by blast
qed

lemma RetryOnWouldBlock_loop:
  "retry_options_ok opts \<Longrightarrow>
     RetryOnWouldBlock (Some f) opts s = retry_loop f opts (int 0) (backoff_at opts 0) [] s"
  by (auto simp: RetryOnWouldBlock_def retry_options_ok_def backoff_at_0)

lemma RetryOnWouldBlock_stops:
  "retry_options_ok opts \<Longrightarrow> int n \<le> max_retries opts \<Longrightarrow> \<forall>k < n. out_op f s k = kWouldBlock \<Longrightarrow>
     out_op f s n \<noteq> kWouldBlock \<Longrightarrow>
     RetryOnWouldBlock (Some f) opts s = (out_op f s n, map (backoff_at opts) [0..<n], run_op f (Suc n) s)"
  using retry_loop_stops [of opts n f s 0 "[]"] by (simp add: RetryOnWouldBlock_loop)

lemma RetryOnWouldBlock_exhausts:
  assumes "retry_options_ok opts" "\<forall>k \<le> nat (max_retries opts). out_op f s k = kWouldBlock"
  shows "RetryOnWouldBlock (Some f) opts s =
     (kTimeout, map (backoff_at opts) [0..<Suc (nat (max_retries opts))], run_op f (Suc (nat (max_retries opts))) s)"
proof -
  have "int 0 + int (Suc (nat (max_retries opts))) = max_retries opts + 1"
    using assms(1) by (simp add: retry_options_ok_def)
  with assms show ?thesis
    using retry_loop_exhausts [of opts "Suc (nat (max_retries opts))" f s 0 "[]"]
    by (simp add: RetryOnWouldBlock_loop less_Suc_eq_le del: upt_Suc run_op.simps)
qed

text \<open>
  C33: the outcome of a retry with valid options. If the first call within the budget
  (\<^verbatim>\<open>max_retries + 1\<close> calls) that does not report \<^verbatim>\<open>kWouldBlock\<close> is the one after \<open>n\<close> others, the
  function returns its code, after exactly \<open>n + 1\<close> calls and \<open>n\<close> sleeps of length
  \<open>min (initial * 2^k) max\<close>; if every call of the budget blocks, it returns \<^verbatim>\<open>kTimeout\<close> after
  exactly \<^verbatim>\<open>max_retries + 1\<close> calls. So the loop always ends, and never sleeps beyond the bound.
\<close>

theorem RetryOnWouldBlock_spec:
  assumes "retry_options_ok opts"
  shows "(\<forall>n. int n \<le> max_retries opts \<and> (\<forall>k < n. out_op f s k = kWouldBlock) \<and> out_op f s n \<noteq> kWouldBlock \<longrightarrow>
            RetryOnWouldBlock (Some f) opts s =
              (out_op f s n, map (backoff_at opts) [0..<n], run_op f (Suc n) s)) \<and>
         ((\<forall>k \<le> nat (max_retries opts). out_op f s k = kWouldBlock) \<longrightarrow>
            RetryOnWouldBlock (Some f) opts s =
              (kTimeout, map (backoff_at opts) [0..<Suc (nat (max_retries opts))],
               run_op f (Suc (nat (max_retries opts))) s))"
proof (intro conjI allI impI)
  fix n
  assume "int n \<le> max_retries opts \<and> (\<forall>k < n. out_op f s k = kWouldBlock) \<and> out_op f s n \<noteq> kWouldBlock"
  then show "RetryOnWouldBlock (Some f) opts s = (out_op f s n, map (backoff_at opts) [0..<n], run_op f (Suc n) s)"
    by (elim conjE) (rule RetryOnWouldBlock_stops [OF assms])
qed (rule RetryOnWouldBlock_exhausts [OF assms])

theorem RetryOnWouldBlock_spec_witness:
  "RetryOnWouldBlock (Some (\<lambda>s :: nat. (if s < 3 then kWouldBlock else kOk, Suc s)))
     \<lparr>max_retries = 5, initial_backoff_ms = 10, max_backoff_ms = 30\<rparr> 0 = (kOk, [10, 20, 30], 4)"
proof -
  let ?f = "\<lambda>s :: nat. (if s < 3 then kWouldBlock else kOk, Suc s)"
  let ?o = "\<lparr>max_retries = 5, initial_backoff_ms = 10, max_backoff_ms = 30\<rparr>"
  have ok: "retry_options_ok ?o" by (simp add: retry_options_ok_def)
  have run: "run_op ?f k s = s + k" for k s by (induction k arbitrary: s) auto
  have "out_op ?f 0 k = (if k < 3 then kWouldBlock else kOk)" for k by (simp add: out_op_def run)
  then show ?thesis
    using RetryOnWouldBlock_spec [OF ok, of ?f 0]
    by (auto simp: run backoff_at_def upt_conv_Cons dest!: spec [of _ 3])
qed

text \<open>A retry never reports \<^verbatim>\<open>kWouldBlock\<close> itself.\<close>

lemma retry_loop_not_WouldBlock: "fst (retry_loop f opts i b sl s) \<noteq> kWouldBlock"
proof (induction f opts i b sl s rule: retry_loop.induct)
  case (1 f opts i b sl s)
  show ?case
    by (subst retry_loop.simps, cases "f s") (use 1 in \<open>auto simp: Let_def\<close>)
qed

lemma RetryOnWouldBlock_not_WouldBlock: "fst (RetryOnWouldBlock f opts s) \<noteq> kWouldBlock"
  by (auto simp: RetryOnWouldBlock_def retry_loop_not_WouldBlock split: option.splits)

text \<open>
  The back-off arithmetic stays in \<^verbatim>\<open>int64\<close>. With valid options and a maximal back-off
  below \<open>2^62\<close> ms, every duration slept lies between the initial and the maximal back-off, and the
  doubling \<^verbatim>\<open>backoff_ms * 2\<close> of it, which the code computes before taking the minimum, stays below
  \<open>2^63\<close>.
\<close>

theorem retry_no_overflow:
  assumes "retry_options_ok opts" "max_backoff_ms opts < 2 ^ 62"
    "b \<in> set (fst (snd (RetryOnWouldBlock (Some f) opts s)))"
  shows "initial_backoff_ms opts \<le> b \<and> b \<le> max_backoff_ms opts \<and> b * 2 < 2 ^ 63"
proof -
  have sleeps: "\<exists>n. fst (snd (RetryOnWouldBlock (Some f) opts s)) = map (backoff_at opts) [0..<n]"
  proof (cases "\<forall>k \<le> nat (max_retries opts). out_op f s k = kWouldBlock")
    case True
    with RetryOnWouldBlock_exhausts [OF assms(1)] show ?thesis by (metis fst_conv snd_conv)
  next
    case False
    then obtain n where "n \<le> nat (max_retries opts)" "out_op f s n \<noteq> kWouldBlock"
      "\<And>k. k < n \<Longrightarrow> out_op f s k = kWouldBlock" by (rule first_unblocked) auto
    moreover have "0 \<le> max_retries opts" using assms(1) by (simp add: retry_options_ok_def)
    ultimately show ?thesis using RetryOnWouldBlock_stops [OF assms(1), of n f s]
      by (metis fst_conv le_nat_iff snd_conv)
  qed
  with assms(3) obtain k where "b = backoff_at opts k" by auto
  moreover have "initial_backoff_ms opts \<le> initial_backoff_ms opts * 2 ^ k"
    using assms(1) by (simp add: retry_options_ok_def)
  ultimately show ?thesis using assms(1,2) by (auto simp: backoff_at_def retry_options_ok_def)
qed

theorem retry_no_overflow_witness:
  "initial_backoff_ms default_RetryOptions \<le> (20::int) \<and> (20::int) \<le> max_backoff_ms default_RetryOptions
     \<and> 20 * 2 < (2::int) ^ 63"
proof (rule retry_no_overflow [where f = "\<lambda>s :: nat. (if s < 2 then kWouldBlock else kOk, Suc s)" and s = 0])
  show "retry_options_ok default_RetryOptions" by (simp add: retry_options_ok_def default_RetryOptions_def)
  show "(20::int) \<in> set (fst (snd (RetryOnWouldBlock
     (Some (\<lambda>s :: nat. (if s < 2 then kWouldBlock else kOk, Suc s))) default_RetryOptions 0)))"
    by (simp add: RetryOnWouldBlock_def default_RetryOptions_def retry_loop.simps)
qed (simp add: default_RetryOptions_def)

end
