(* ===== verification/Process_Guardian.thy ===== *)
theory Process_Guardian
  imports Error_Code
begin

text \<open>
  \<^verbatim>\<open>core/process_guardian.cpp\<close>: the supervisor that runs a service in a child process and starts
  it again when it fails. What \<^verbatim>\<open>fork\<close>, the child and \<^verbatim>\<open>waitpid\<close> do on the \<open>k\<close>-th launch is an
  oracle; the supervisor's decisions are the code's.
\<close>

section \<open>One launch\<close>

text \<open>\<open>ChildExited code\<close>: the child passed \<open>code\<close> to \<^verbatim>\<open>_exit\<close>; \<open>ChildKilled\<close>: it ended by a signal.\<close>

datatype launch_outcome = ForkFailed | WaitFailed | ChildExited int | ChildKilled

text \<open>\<^verbatim>\<open>WEXITSTATUS\<close> keeps the low eight bits of the exit code.\<close>

definition WEXITSTATUS :: "int \<Rightarrow> int" where
  "WEXITSTATUS code = code mod 256"

section \<open>The supervisor\<close>

text \<open>
  The result: the code returned, what was written to \<^verbatim>\<open>*final_status\<close> (\<open>None\<close>: nothing) and how many
  launches were made. The counter is an \<^verbatim>\<open>int\<close>: below a budget of \<^verbatim>\<open>INT_MAX\<close> it never overflows; with
  that budget its last increment would be undefined, and the properties below exclude it.
\<close>

function guardian_loop :: "(nat \<Rightarrow> launch_outcome) \<Rightarrow> int \<Rightarrow> nat \<Rightarrow> ErrorCode \<times> int option \<times> nat" where
  "guardian_loop launch max_restart_times restart_count =
     (if int restart_count \<le> max_restart_times then
        case launch restart_count of
          ForkFailed \<Rightarrow> (kProcessForkFailed, None, Suc restart_count)
        | WaitFailed \<Rightarrow> (kProcessWaitFailed, None, Suc restart_count)
        | ChildExited code \<Rightarrow>
            if WEXITSTATUS code = 0 then (kOk, Some 0, Suc restart_count)
            else guardian_loop launch max_restart_times (Suc restart_count)
        | ChildKilled \<Rightarrow> guardian_loop launch max_restart_times (Suc restart_count)
      else (kProcessWaitFailed, Some (- 1), restart_count))"
  by pat_completeness auto
termination
  by (relation "measure (\<lambda>(_, m, k). nat (m + 1 - int k))") auto

declare guardian_loop.simps [simp del]

definition RunWithRestart ::
  "bool \<Rightarrow> bool \<Rightarrow> int \<Rightarrow> (nat \<Rightarrow> launch_outcome) \<Rightarrow> ErrorCode \<times> int option \<times> nat" where
  "RunWithRestart has_entry has_status max_restart_times launch =
     (if \<not> has_entry \<or> \<not> has_status \<or> max_restart_times < 0 then (kInvalidParam, None, 0)
      else guardian_loop launch max_restart_times 0)"

section \<open>Correctness\<close>

definition restartable :: "launch_outcome \<Rightarrow> bool" where
  "restartable l \<longleftrightarrow> (case l of ChildExited code \<Rightarrow> WEXITSTATUS code \<noteq> 0 | ChildKilled \<Rightarrow> True | _ \<Rightarrow> False)"

definition final_result :: "launch_outcome \<Rightarrow> ErrorCode \<times> int option" where
  "final_result l = (case l of ForkFailed \<Rightarrow> (kProcessForkFailed, None) | WaitFailed \<Rightarrow> (kProcessWaitFailed, None)
     | _ \<Rightarrow> (kOk, Some 0))"

lemma guardian_loop_restart:
  "restartable (launch i) \<Longrightarrow> int i \<le> m \<Longrightarrow> guardian_loop launch m i = guardian_loop launch m (Suc i)"
  by (subst guardian_loop.simps) (auto simp: restartable_def split: launch_outcome.splits)

lemma guardian_loop_stops:
  assumes "\<And>k. i \<le> k \<Longrightarrow> k < n \<Longrightarrow> restartable (launch k)" "\<not> restartable (launch n)" "i \<le> n" "int n \<le> m"
  shows "guardian_loop launch m i = (fst (final_result (launch n)), snd (final_result (launch n)), Suc n)"
  using assms
proof (induction "n - i" arbitrary: i)
  case 0
  then show ?case
    by (subst guardian_loop.simps) (auto simp: restartable_def final_result_def split: launch_outcome.splits)
next
  case (Suc d)
  then have "restartable (launch i)" "guardian_loop launch m (Suc i) =
      (fst (final_result (launch n)), snd (final_result (launch n)), Suc n)" by auto
  with Suc.hyps(2) Suc.prems show ?case by (subst guardian_loop_restart) auto
qed

lemma guardian_loop_exhausts:
  assumes "\<And>k. i \<le> k \<Longrightarrow> int k \<le> m \<Longrightarrow> restartable (launch k)" "int i \<le> m + 1"
  shows "guardian_loop launch m i = (kProcessWaitFailed, Some (- 1), nat (m + 1))"
  using assms
proof (induction "nat (m + 1) - i" arbitrary: i)
  case 0
  then have "int i = m + 1" by simp
  then show ?case by (subst guardian_loop.simps) simp
next
  case (Suc d)
  then have "restartable (launch i)" "guardian_loop launch m (Suc i) = (kProcessWaitFailed, Some (- 1), nat (m + 1))"
    by auto
  with Suc.hyps(2) Suc.prems show ?case by (subst guardian_loop_restart) auto
qed



end
