(* ===== verification/Thread_Pool.thy ===== *)
theory Thread_Pool
  imports Error_Code "HOL-Library.Multiset"
begin

text \<open>
  \<^verbatim>\<open>core/thread_pool.cpp\<close>: the bounded queue, its workers, starting, stopping and the rejection
  policies. Each critical section and each atomic update is one step; the steps of workers, callers and
  the owner interleave freely. The owner's calls of \<^verbatim>\<open>Start\<close> and \<^verbatim>\<open>Stop\<close> do not overlap.
\<close>

section \<open>State\<close>

datatype RejectionPolicy = kRejectNewTask | kCallerRuns

record ThreadConfig =
  worker_count :: nat
  enable_realtime :: bool
  realtime_priority :: int
  queue_capacity :: nat
  rejection_policy :: RejectionPolicy

definition default_ThreadConfig :: ThreadConfig where
  "default_ThreadConfig = \<lparr>worker_count = 2, enable_realtime = False, realtime_priority = 10,
     queue_capacity = 64, rejection_policy = kRejectNewTask\<rparr>"

record ThreadPoolMetrics =
  tp_queue_size :: nat
  tp_queue_capacity :: nat
  tp_submitted_count :: u64
  tp_executed_count :: u64
  tp_rejected_count :: u64
  tp_task_exception_count :: u64
  tp_worker_count :: nat
  tp_running :: bool

text \<open>A worker waits at the condition variable, runs a task, or has left its loop.\<close>

datatype 'a worker = Waiting | Running 'a | Exited

record 'a ThreadPool =
  workers :: "'a worker list"
  tasks :: "'a list"
  pool_running :: bool
  pool_config :: ThreadConfig
  submitted_count :: u64
  executed_count :: u64
  rejected_count :: u64
  task_exception_count :: u64

definition new_pool :: "'a ThreadPool" where
  "new_pool = \<lparr>workers = [], tasks = [], pool_running = False, pool_config = default_ThreadConfig,
     submitted_count = 0, executed_count = 0, rejected_count = 0, task_exception_count = 0\<rparr>"

section \<open>Operations\<close>

text \<open>\<^verbatim>\<open>Start\<close> up to the store to \<^verbatim>\<open>running_\<close>, and the stores that follow it.\<close>

definition StartBegin :: "ThreadConfig \<Rightarrow> 'a ThreadPool \<Rightarrow> 'a ThreadPool" where
  "StartBegin config pool =
     pool\<lparr>pool_config := (pool_config pool)\<lparr>enable_realtime := enable_realtime config,
            realtime_priority := realtime_priority config, queue_capacity := queue_capacity config,
            rejection_policy := rejection_policy config\<rparr>,
          pool_running := True\<rparr>"

definition ResetCounters :: "'a ThreadPool \<Rightarrow> 'a ThreadPool" where
  "ResetCounters pool = pool\<lparr>submitted_count := 0, executed_count := 0, rejected_count := 0,
     task_exception_count := 0\<rparr>"

definition SpawnWorker :: "'a ThreadPool \<Rightarrow> 'a ThreadPool" where
  "SpawnWorker pool = pool\<lparr>workers := workers pool @ [Waiting]\<rparr>"

text \<open>\<^verbatim>\<open>setschedparam\<close> is the outcome of the system call for the worker just created.\<close>

definition ConfigureRealtimePriority :: "bool \<Rightarrow> ErrorCode" where
  "ConfigureRealtimePriority setschedparam = (if setschedparam then kOk else kThreadPrioritySetFailed)"

text \<open>The first critical section of \<^verbatim>\<open>Stop\<close>; false when the pool was not running.\<close>

definition StopBegin :: "'a ThreadPool \<Rightarrow> bool \<times> 'a ThreadPool" where
  "StopBegin pool = (if \<not> pool_running pool then (False, pool) else (True, pool\<lparr>pool_running := False\<rparr>))"

text \<open>The end of \<^verbatim>\<open>Stop\<close>, after every worker was joined.\<close>

definition StopEnd :: "'a ThreadPool \<Rightarrow> 'a ThreadPool" where
  "StopEnd pool = pool\<lparr>workers := [], tasks := []\<rparr>"

text \<open>The critical section of \<^verbatim>\<open>Enqueue\<close>; an empty function is \<open>None\<close>.\<close>

datatype enqueue_result = EnqReturn ErrorCode | RunInCaller

definition EnqueueLocked :: "'a option \<Rightarrow> 'a ThreadPool \<Rightarrow> enqueue_result \<times> 'a ThreadPool" where
  "EnqueueLocked task pool =
     (case task of
        None \<Rightarrow> (EnqReturn kInvalidParam, pool)
      | Some t \<Rightarrow>
          if \<not> pool_running pool then (EnqReturn kThreadStartFailed, pool)
          else if length (tasks pool) \<ge> queue_capacity (pool_config pool)
          then (let pool' = pool\<lparr>rejected_count := rejected_count pool + 1\<rparr> in
                if rejection_policy (pool_config pool) = kCallerRuns then (RunInCaller, pool')
                else (EnqReturn kThreadQueueFull, pool'))
          else (EnqReturn kOk, pool\<lparr>tasks := tasks pool @ [t], submitted_count := submitted_count pool + 1\<rparr>))"

definition CallerSubmit :: "'a ThreadPool \<Rightarrow> 'a ThreadPool" where
  "CallerSubmit pool = pool\<lparr>submitted_count := submitted_count pool + 1\<rparr>"

text \<open>What \<^verbatim>\<open>ExecuteTask\<close> does to the counters once the task has returned or thrown.\<close>

definition ExecuteTask :: "call_outcome \<Rightarrow> 'a ThreadPool \<Rightarrow> 'a ThreadPool" where
  "ExecuteTask outcome pool =
     (let pool' = (if outcome = Threw
                   then pool\<lparr>task_exception_count := task_exception_count pool + 1\<rparr> else pool)
      in pool'\<lparr>executed_count := executed_count pool' + 1\<rparr>)"

text \<open>
  The critical section of \<^verbatim>\<open>WorkerLoop\<close> for worker \<open>i\<close> once the wait predicate holds: it leaves the
  loop when the pool is stopped and the queue is empty, else it takes the front task. \<open>None\<close>: it waits on.
\<close>

definition WorkerTake :: "nat \<Rightarrow> 'a ThreadPool \<Rightarrow> 'a ThreadPool option" where
  "WorkerTake i pool =
     (if \<not> (\<not> pool_running pool \<or> tasks pool \<noteq> []) then None
      else if \<not> pool_running pool \<and> tasks pool = []
      then Some (pool\<lparr>workers := (workers pool)[i := Exited]\<rparr>)
      else Some (pool\<lparr>workers := (workers pool)[i := Running (hd (tasks pool))], tasks := tl (tasks pool)\<rparr>))"

definition WorkerFinish :: "nat \<Rightarrow> call_outcome \<Rightarrow> 'a ThreadPool \<Rightarrow> 'a ThreadPool" where
  "WorkerFinish i outcome pool = ExecuteTask outcome (pool\<lparr>workers := (workers pool)[i := Waiting]\<rparr>)"

definition GetMetrics :: "'a ThreadPool \<Rightarrow> ThreadPoolMetrics" where
  "GetMetrics pool = \<lparr>tp_queue_size = length (tasks pool), tp_queue_capacity = queue_capacity (pool_config pool),
     tp_submitted_count = submitted_count pool, tp_executed_count = executed_count pool,
     tp_rejected_count = rejected_count pool, tp_task_exception_count = task_exception_count pool,
     tp_worker_count = length (workers pool), tp_running = pool_running pool\<rparr>"

text \<open>
  \<^verbatim>\<open>Start\<close> as one call, with no step of another thread in between: \<open>sched i\<close> tells whether the system
  call for worker \<open>i\<close> succeeds. On a failure \<^verbatim>\<open>Stop\<close> joins the idle workers.
\<close>

fun spawn_loop :: "(nat \<Rightarrow> bool) \<Rightarrow> nat \<Rightarrow> nat \<Rightarrow> 'a ThreadPool \<Rightarrow> ErrorCode \<times> 'a ThreadPool" where
  "spawn_loop sched i 0 pool = (kOk, pool)"
| "spawn_loop sched i (Suc n) pool =
     (let pool' = SpawnWorker pool in
      if enable_realtime (pool_config pool') \<and> ConfigureRealtimePriority (sched i) \<noteq> kOk
      then (ConfigureRealtimePriority (sched i), StopEnd (snd (StopBegin pool')))
      else spawn_loop sched (Suc i) n pool')"

definition pool_Start :: "(nat \<Rightarrow> bool) \<Rightarrow> ThreadConfig \<Rightarrow> 'a ThreadPool \<Rightarrow> ErrorCode \<times> 'a ThreadPool" where
  "pool_Start sched config pool =
     (if worker_count config = 0 \<or> queue_capacity config = 0 then (kInvalidParam, pool)
      else if pool_running pool then (kOk, pool)
      else spawn_loop sched 0 (worker_count config) (ResetCounters (StartBegin config pool)))"

section \<open>Interleaved execution\<close>

text \<open>
  What the owner is doing, the tasks callers took over under \<^verbatim>\<open>kCallerRuns\<close> (before and after they were
  counted as submitted), and history variables: the tasks queued and the tasks workers finished since the
  last start, and the number of tasks that were queued or run by callers when that start reset the
  counters.
\<close>

datatype owner_phase = Stopped | Resetting nat | Starting nat | Up | Joining

record 'a pool_world =
  pool :: "'a ThreadPool"
  phase :: owner_phase
  callers_ready :: "'a list"
  callers_running :: "'a list"
  accepted :: "'a list"
  finished :: "'a list"
  stale :: nat

definition initial_world :: "'a pool_world" where
  "initial_world = \<lparr>pool = new_pool, phase = Stopped, callers_ready = [], callers_running = [],
     accepted = [], finished = [], stale = 0\<rparr>"

inductive pool_step :: "'a pool_world \<Rightarrow> 'a pool_world \<Rightarrow> bool" where
  start_begin: "phase w = Stopped \<Longrightarrow> worker_count config \<noteq> 0 \<Longrightarrow> queue_capacity config \<noteq> 0 \<Longrightarrow> \<not> pool_running (pool w) \<Longrightarrow>
    pool_step w (w\<lparr>pool := StartBegin config (pool w), phase := Resetting (worker_count config),
      accepted := [], finished := []\<rparr>)"
| start_reset: "phase w = Resetting n \<Longrightarrow>
    pool_step w (w\<lparr>pool := ResetCounters (pool w), phase := Starting n,
      stale := length (tasks (pool w)) + length (callers_running w)\<rparr>)"
| spawn: "phase w = Starting (Suc n) \<Longrightarrow>
    \<not> enable_realtime (pool_config (pool w)) \<or> ConfigureRealtimePriority ok = kOk \<Longrightarrow>
    pool_step w (w\<lparr>pool := SpawnWorker (pool w), phase := (if n = 0 then Up else Starting n)\<rparr>)"
| spawn_fail: "phase w = Starting (Suc n) \<Longrightarrow> enable_realtime (pool_config (pool w)) \<Longrightarrow>
    ConfigureRealtimePriority ok \<noteq> kOk \<Longrightarrow> StopBegin (SpawnWorker (pool w)) = (True, p) \<Longrightarrow>
    pool_step w (w\<lparr>pool := p, phase := Joining\<rparr>)"
| stop_begin: "phase w = Up \<Longrightarrow> StopBegin (pool w) = (True, p) \<Longrightarrow> pool_step w (w\<lparr>pool := p, phase := Joining\<rparr>)"
| stop_end: "phase w = Joining \<Longrightarrow> \<forall>x \<in> set (workers (pool w)). x = Exited \<Longrightarrow>
    pool_step w (w\<lparr>pool := StopEnd (pool w), phase := Stopped\<rparr>)"
| enqueue_queued: "EnqueueLocked (Some t) (pool w) = (EnqReturn kOk, p) \<Longrightarrow>
    pool_step w (w\<lparr>pool := p, accepted := accepted w @ [t]\<rparr>)"
| enqueue_refused: "EnqueueLocked t (pool w) = (EnqReturn ec, p) \<Longrightarrow> ec \<noteq> kOk \<Longrightarrow> pool_step w (w\<lparr>pool := p\<rparr>)"
| enqueue_caller: "EnqueueLocked (Some t) (pool w) = (RunInCaller, p) \<Longrightarrow>
    pool_step w (w\<lparr>pool := p, callers_ready := t # callers_ready w\<rparr>)"
| caller_submit: "t \<in> set (callers_ready w) \<Longrightarrow>
    pool_step w (w\<lparr>pool := CallerSubmit (pool w), callers_ready := remove1 t (callers_ready w),
      callers_running := t # callers_running w\<rparr>)"
| caller_done: "t \<in> set (callers_running w) \<Longrightarrow>
    pool_step w (w\<lparr>pool := ExecuteTask out (pool w), callers_running := remove1 t (callers_running w)\<rparr>)"
| worker_take: "i < length (workers (pool w)) \<Longrightarrow> workers (pool w) ! i = Waiting \<Longrightarrow>
    WorkerTake i (pool w) = Some p \<Longrightarrow> pool_step w (w\<lparr>pool := p\<rparr>)"
| worker_finish: "i < length (workers (pool w)) \<Longrightarrow> workers (pool w) ! i = Running t \<Longrightarrow>
    pool_step w (w\<lparr>pool := WorkerFinish i out (pool w), finished := finished w @ [t]\<rparr>)"

inductive pool_reachable :: "'a pool_world \<Rightarrow> bool" where
  initial: "pool_reachable initial_world"
| step: "pool_reachable w \<Longrightarrow> pool_step w w' \<Longrightarrow> pool_reachable w'"

section \<open>The invariant\<close>

fun busy_task :: "'a worker \<Rightarrow> 'a list" where
  "busy_task (Running t) = [t]"
| "busy_task Waiting = []"
| "busy_task Exited = []"

definition busy :: "'a ThreadPool \<Rightarrow> 'a list" where
  "busy p = concat (map busy_task (workers p))"

definition phase_ok :: "'a pool_world \<Rightarrow> bool" where
  "phase_ok w = (case phase w of
     Stopped \<Rightarrow> \<not> pool_running (pool w) \<and> workers (pool w) = [] \<and> tasks (pool w) = []
   | Resetting n \<Rightarrow> pool_running (pool w) \<and> workers (pool w) = [] \<and> n \<noteq> 0
   | Starting n \<Rightarrow> pool_running (pool w) \<and> n \<noteq> 0
   | Up \<Rightarrow> pool_running (pool w) \<and> workers (pool w) \<noteq> []
   | Joining \<Rightarrow> \<not> pool_running (pool w) \<and> workers (pool w) \<noteq> [])"

text \<open>A worker leaves its loop only once the pool is stopped and drained.\<close>

definition exit_ok :: "'a pool_world \<Rightarrow> bool" where
  "exit_ok w \<longleftrightarrow> (Exited \<in> set (workers (pool w)) \<longrightarrow> \<not> pool_running (pool w) \<and> tasks (pool w) = [])"

definition bound_ok :: "'a pool_world \<Rightarrow> bool" where
  "bound_ok w \<longleftrightarrow> length (tasks (pool w)) \<le> queue_capacity (pool_config (pool w))"

definition tasks_ok :: "'a pool_world \<Rightarrow> bool" where
  "tasks_ok w \<longleftrightarrow> mset (accepted w) = mset (finished w) + mset (busy (pool w)) + mset (tasks (pool w))"

definition counters_ok :: "'a pool_world \<Rightarrow> bool" where
  "counters_ok w \<longleftrightarrow> (\<exists>n. phase w = Resetting n) \<or>
     submitted_count (pool w) + of_nat (stale w) =
       executed_count (pool w) + of_nat (length (tasks (pool w)) + length (busy (pool w)) + length (callers_running w))"

lemma mset_concat_update:
  "i < length xs \<Longrightarrow> mset (concat (map f (xs[i := x]))) + mset (f (xs ! i)) = mset (concat (map f xs)) + mset (f x)"
proof (induction xs arbitrary: i)
  case (Cons y ys)
  then show ?case by (cases i) (simp_all add: union_assoc)
qed simp

lemma mset_busy_update:
  "i < length (workers p) \<Longrightarrow>
     mset (concat (map busy_task ((workers p)[i := x]))) + mset (busy_task (workers p ! i)) = mset (busy p) + mset (busy_task x)"
  unfolding busy_def by (rule mset_concat_update)

lemma length_busy_update:
  assumes "i < length (workers p)"
  shows "length (concat (map busy_task ((workers p)[i := x]))) + length (busy_task (workers p ! i)) =
         length (busy p) + length (busy_task x)"
  using arg_cong [OF mset_busy_update [OF assms], where f = size] by (simp only: size_union size_mset)

lemma busy_exited: "\<forall>x \<in> set (workers p). x = Exited \<Longrightarrow> busy p = []"
  by (force simp: busy_def)

lemmas pool_op_defs = StartBegin_def ResetCounters_def SpawnWorker_def StopBegin_def StopEnd_def EnqueueLocked_def
  CallerSubmit_def ExecuteTask_def WorkerTake_def WorkerFinish_def Let_def

lemmas pool_splits = if_splits option.splits owner_phase.splits

lemma phase_ok_step: "pool_step w w' \<Longrightarrow> phase_ok w \<Longrightarrow> phase_ok w'"
  by (induction rule: pool_step.induct) (auto simp: phase_ok_def pool_op_defs split: pool_splits)

lemma exit_ok_step: "pool_step w w' \<Longrightarrow> phase_ok w \<Longrightarrow> exit_ok w \<Longrightarrow> exit_ok w'"
  by (induction rule: pool_step.induct)
    (auto simp: phase_ok_def exit_ok_def pool_op_defs dest!: set_update_subset_insert [THEN subsetD] split: pool_splits)

lemma bound_ok_step: "pool_step w w' \<Longrightarrow> phase_ok w \<Longrightarrow> bound_ok w \<Longrightarrow> bound_ok w'"
  by (induction rule: pool_step.induct) (auto simp: phase_ok_def bound_ok_def pool_op_defs split: pool_splits)

lemma exited_drained:
  assumes "phase w = Joining" "\<forall>x \<in> set (workers (pool w)). x = Exited" "phase_ok w" "exit_ok w"
  shows "tasks (pool w) = []" "busy (pool w) = []"
proof -
  have "workers (pool w) \<noteq> []" using assms(1,3) by (simp add: phase_ok_def)
  then have "Exited \<in> set (workers (pool w))" using assms(2) by (cases "workers (pool w)") auto
  with assms(4) show "tasks (pool w) = []" by (simp add: exit_ok_def)
  show "busy (pool w) = []" by (rule busy_exited [OF assms(2)])
qed

lemma WorkerTake_busy:
  assumes "i < length (workers p)" "workers p ! i = Waiting" "WorkerTake i p = Some q"
  shows "mset (busy q) + mset (tasks q) = mset (busy p) + mset (tasks p)"
    and "length (tasks q) + length (busy q) = length (tasks p) + length (busy p)"
proof -
  show "mset (busy q) + mset (tasks q) = mset (busy p) + mset (tasks p)"
    using assms mset_busy_update [OF assms(1), of Exited] mset_busy_update [OF assms(1), of "Running (hd (tasks p))"]
    by (cases "tasks p") (auto simp: WorkerTake_def busy_def split: if_splits)
  from arg_cong [OF this, where f = size] show "length (tasks q) + length (busy q) = length (tasks p) + length (busy p)"
    by (simp add: add.commute)
qed

lemma WorkerFinish_busy:
  assumes "i < length (workers p)" "workers p ! i = Running t"
  shows "mset (busy p) = mset (busy (WorkerFinish i out p)) + {#t#}"
    and "length (busy p) = Suc (length (busy (WorkerFinish i out p)))"
proof -
  show "mset (busy p) = mset (busy (WorkerFinish i out p)) + {#t#}"
    using assms(2) mset_busy_update [OF assms(1), of Waiting] by (simp add: WorkerFinish_def ExecuteTask_def Let_def busy_def)
  from arg_cong [OF this, where f = size] show "length (busy p) = Suc (length (busy (WorkerFinish i out p)))" by simp
qed

lemma WorkerTake_frame [frame_simps]:
  "WorkerTake i p = Some q \<Longrightarrow> submitted_count q = submitted_count p \<and> executed_count q = executed_count p"
  by (auto simp: WorkerTake_def split: if_splits)

lemma WorkerFinish_frame [frame_simps]:
  "submitted_count (WorkerFinish i out p) = submitted_count p" "executed_count (WorkerFinish i out p) = executed_count p + 1"
  "tasks (WorkerFinish i out p) = tasks p"
  by (simp_all add: WorkerFinish_def ExecuteTask_def Let_def)

lemma tasks_ok_step: "pool_step w w' \<Longrightarrow> phase_ok w \<Longrightarrow> exit_ok w \<Longrightarrow> tasks_ok w \<Longrightarrow> tasks_ok w'"
proof (induction rule: pool_step.induct)
  case (stop_end w)
  then show ?case using exited_drained [of w] by (simp add: tasks_ok_def StopEnd_def busy_def)
next
  case (worker_take i w p)
  then show ?case using WorkerTake_busy(1) [OF worker_take(1-3)] by (simp add: tasks_ok_def add.assoc)
next
  case (worker_finish i w t out)
  then show ?case using WorkerFinish_busy(1) [OF worker_finish(1,2), of out]
    by (simp add: tasks_ok_def frame_simps)
qed (auto simp: tasks_ok_def phase_ok_def pool_op_defs busy_def split: pool_splits)

lemma counters_ok_step: "pool_step w w' \<Longrightarrow> phase_ok w \<Longrightarrow> exit_ok w \<Longrightarrow> counters_ok w \<Longrightarrow> counters_ok w'"
proof (induction rule: pool_step.induct)
  case (stop_end w)
  have "busy (StopEnd (pool w)) = []" by (simp add: StopEnd_def busy_def)
  with stop_end show ?case using exited_drained [of w] by (simp add: counters_ok_def) (simp add: StopEnd_def)
next
  case (worker_take i w p)
  then show ?case using WorkerTake_busy(2) [OF worker_take(1-3)] WorkerTake_frame [OF worker_take(3)]
    by (simp add: counters_ok_def flip: of_nat_add)
next
  case (worker_finish i w t out)
  then show ?case using WorkerFinish_busy(2) [OF worker_finish(1,2), of out]
    by (auto simp: counters_ok_def frame_simps algebra_simps)
next
  case (caller_done t w out)
  obtain n where n: "length (callers_running w) = Suc n" using caller_done(1) by (cases "callers_running w") auto
  with caller_done show ?case
    by (auto simp: counters_ok_def ExecuteTask_def Let_def busy_def length_remove1 algebra_simps)
qed (auto simp: counters_ok_def phase_ok_def pool_op_defs busy_def length_remove1 algebra_simps split: pool_splits)

lemma pool_invariant:
  "pool_reachable w \<Longrightarrow> phase_ok w \<and> exit_ok w \<and> bound_ok w \<and> tasks_ok w \<and> counters_ok w"
proof (induction rule: pool_reachable.induct)
  case initial
  then show ?case
    by (simp add: initial_world_def new_pool_def phase_ok_def exit_ok_def bound_ok_def tasks_ok_def counters_ok_def busy_def)
next
  case (step w w')
  then show ?case using phase_ok_step exit_ok_step bound_ok_step tasks_ok_step counters_ok_step by metis
qed

section \<open>Properties\<close>


lemma start_reachable:
  "pool_reachable (initial_world\<lparr>pool := ResetCounters (StartBegin default_ThreadConfig new_pool), phase := Starting 2\<rparr> :: 'a pool_world)"
proof -
  define a :: "'a pool_world" where "a = initial_world\<lparr>pool := StartBegin default_ThreadConfig (pool initial_world),
     phase := Resetting (worker_count default_ThreadConfig), accepted := [], finished := []\<rparr>"
  have "pool_reachable a" unfolding a_def
    by (rule pool_reachable.step [OF pool_reachable.initial pool_step.start_begin])
      (simp_all add: initial_world_def default_ThreadConfig_def new_pool_def)
  moreover have "pool_step a (a\<lparr>pool := ResetCounters (pool a), phase := Starting 2,
      stale := length (tasks (pool a)) + length (callers_running a)\<rparr>)"
    by (rule pool_step.start_reset) (simp add: a_def default_ThreadConfig_def)
  ultimately have "pool_reachable (a\<lparr>pool := ResetCounters (pool a), phase := Starting 2,
      stale := length (tasks (pool a)) + length (callers_running a)\<rparr>)"
    by (rule pool_reachable.step)
  then show ?thesis by (simp add: a_def initial_world_def new_pool_def StartBegin_def)
qed


text \<open>
  C15: stopping loses no task. In every interleaving, whenever \<^verbatim>\<open>Stop\<close> is about to discard the queue (its
  workers all joined) and whenever the pool is stopped, the tasks that \<^verbatim>\<open>Enqueue\<close> accepted since the last
  start are exactly those that workers ran to their end, each once: the queue that is swapped out is empty.
\<close>

theorem pool_stop_drains:
  assumes "pool_reachable w"
    and "phase w = Stopped \<or> phase w = Joining \<and> (\<forall>x \<in> set (workers (pool w)). x = Exited)"
  shows "tasks (pool w) = [] \<and> mset (accepted w) = mset (finished w)"
proof -
  note inv = pool_invariant [OF assms(1)]
  have "tasks (pool w) = [] \<and> busy (pool w) = []"
    using assms(2) inv exited_drained [of w] by (auto simp: phase_ok_def busy_def)
  then show ?thesis using inv by (simp add: tasks_ok_def)
qed

text \<open>A run of the default pool: one task is queued and run, then the pool is stopped.\<close>

lemma example_run:
  "\<exists>w. pool_reachable w \<and> phase w = Joining \<and> workers (pool w) = [Exited, Exited] \<and>
     accepted w = [7 :: nat] \<and> finished w = [7]"
proof -
  have one: "pool_reachable v" if "pool_reachable u" "pool_step u v" for u v :: "nat pool_world"
    using that by (rule pool_reachable.step)
  define w0 :: "nat pool_world" where
    "w0 = initial_world\<lparr>pool := ResetCounters (StartBegin default_ThreadConfig new_pool), phase := Starting 2\<rparr>"
  define w2 where "w2 = w0\<lparr>pool := SpawnWorker (SpawnWorker (pool w0)), phase := Up\<rparr>"
  define w3 where "w3 = w2\<lparr>pool := snd (EnqueueLocked (Some 7) (pool w2)), accepted := [7]\<rparr>"
  define w4 where "w4 = w3\<lparr>pool := the (WorkerTake 0 (pool w3))\<rparr>"
  define w5 where "w5 = w4\<lparr>pool := WorkerFinish 0 Returned (pool w4), finished := [7]\<rparr>"
  define w6 where "w6 = w5\<lparr>pool := snd (StopBegin (pool w5)), phase := Joining\<rparr>"
  define w8 where "w8 = w6\<lparr>pool := the (WorkerTake 1 (the (WorkerTake 0 (pool w6))))\<rparr>"
  note defs = w0_def w2_def w3_def w4_def w5_def w6_def w8_def initial_world_def new_pool_def default_ThreadConfig_def
    StartBegin_def ResetCounters_def SpawnWorker_def EnqueueLocked_def WorkerTake_def WorkerFinish_def
    ExecuteTask_def StopBegin_def ConfigureRealtimePriority_def
  have r: "pool_reachable w0" unfolding w0_def by (rule start_reachable)
  have s1: "pool_step w0 (w0\<lparr>pool := SpawnWorker (pool w0), phase := Starting 1\<rparr>)"
    using pool_step.spawn [of w0 1 True] by (simp add: defs)
  have s2: "pool_step (w0\<lparr>pool := SpawnWorker (pool w0), phase := Starting 1\<rparr>) w2"
    using pool_step.spawn [of "w0\<lparr>pool := SpawnWorker (pool w0), phase := Starting 1\<rparr>" 0 True] by (simp add: defs)
  have s3: "pool_step w2 w3" using pool_step.enqueue_queued [of 7 w2 "pool w3"] by (simp add: defs)
  have s4: "pool_step w3 w4" using pool_step.worker_take [of 0 w3 "pool w4"] by (simp add: defs)
  have s5: "pool_step w4 w5" using pool_step.worker_finish [of 0 w4 7 Returned] by (simp add: defs)
  have s6: "pool_step w5 w6" using pool_step.stop_begin [of w5 "pool w6"] by (simp add: defs)
  have s7: "pool_step w6 (w6\<lparr>pool := the (WorkerTake 0 (pool w6))\<rparr>)"
    using pool_step.worker_take [of 0 w6 "the (WorkerTake 0 (pool w6))"] by (simp add: defs)
  have s8: "pool_step (w6\<lparr>pool := the (WorkerTake 0 (pool w6))\<rparr>) w8"
    using pool_step.worker_take [of 1 "w6\<lparr>pool := the (WorkerTake 0 (pool w6))\<rparr>" "pool w8"] by (simp add: defs)
  have "pool_reachable w8" by (rule one [OF one [OF one [OF one [OF one [OF one [OF one [OF one [OF r s1] s2] s3] s4] s5] s6] s7] s8])
  moreover have "phase w8 = Joining \<and> workers (pool w8) = [Exited, Exited] \<and> accepted w8 = [7] \<and> finished w8 = [7]"
    by (simp add: defs)
  ultimately show ?thesis by blast
qed

theorem pool_stop_drains_witness:
  "\<exists>w :: nat pool_world. phase w = Joining \<and> accepted w = [7] \<and> tasks (pool w) = [] \<and> mset (finished w) = {#7#}"
  using example_run pool_stop_drains by fastforce

section \<open>Stop comes to an end\<close>

text \<open>
  The work left for the workers once the pool is being joined: a queued task is taken and finished, a
  running one is finished, a waiting worker leaves its loop. The last unit is the end of \<^verbatim>\<open>Stop\<close> itself.
\<close>

fun worker_work :: "'a worker \<Rightarrow> nat" where
  "worker_work (Running t) = 2"
| "worker_work Waiting = 1"
| "worker_work Exited = 0"

definition join_work :: "'a pool_world \<Rightarrow> nat" where
  "join_work w = (if phase w = Joining
     then Suc (3 * length (tasks (pool w)) + sum_list (map worker_work (workers (pool w)))) else 0)"

lemma sum_list_update_nat:
  "i < length xs \<Longrightarrow> sum_list (map f (xs[i := y])) + f (xs ! i) = sum_list (map f xs) + (f y :: nat)"
  by (induction xs arbitrary: i) (auto split: nat.splits)

lemma WorkerTake_work:
  assumes "i < length (workers p)" "workers p ! i = Waiting" "WorkerTake i p = Some q" "\<not> pool_running p"
  shows "3 * length (tasks q) + sum_list (map worker_work (workers q)) <
         3 * length (tasks p) + sum_list (map worker_work (workers p))"
  using assms sum_list_update_nat [OF assms(1), of worker_work Exited]
    sum_list_update_nat [OF assms(1), of worker_work "Running (hd (tasks p))"]
  by (cases "tasks p") (auto simp: WorkerTake_def)

lemma WorkerFinish_work:
  assumes "i < length (workers p)" "workers p ! i = Running t"
  shows "sum_list (map worker_work (workers (WorkerFinish i out p))) < sum_list (map worker_work (workers p))"
  using assms sum_list_update_nat [OF assms(1), of worker_work Waiting]
  by (simp add: WorkerFinish_def ExecuteTask_def Let_def)

text \<open>No step of any thread adds work, and the steps of workers and the end of \<^verbatim>\<open>Stop\<close> each remove some.\<close>

lemma join_work_step:
  assumes "pool_step w w'" "phase_ok w" "phase w = Joining"
  shows "join_work w' \<le> join_work w"
  using assms
proof (induction rule: pool_step.induct)
  case (worker_take i w p)
  then show ?case using WorkerTake_work [OF worker_take(1-3)] by (simp add: join_work_def phase_ok_def)
next
  case (worker_finish i w t out)
  then show ?case using WorkerFinish_work [OF worker_finish(1,2), of out] by (simp add: join_work_def frame_simps)
qed (auto simp: join_work_def phase_ok_def pool_op_defs split: pool_splits)

lemma join_progress:
  assumes "phase_ok w" "phase w = Joining"
  shows "\<exists>w'. pool_step w w' \<and> join_work w' < join_work w \<and> (phase w' = Joining \<or> phase w' = Stopped)"
proof (cases "\<forall>x \<in> set (workers (pool w)). x = Exited")
  case True
  then show ?thesis using pool_step.stop_end [OF assms(2)]
    by (intro exI [of _ "w\<lparr>pool := StopEnd (pool w), phase := Stopped\<rparr>"]) (simp add: join_work_def assms(2))
next
  case False
  then obtain i where i: "i < length (workers (pool w))" "workers (pool w) ! i \<noteq> Exited" by (auto simp: in_set_conv_nth)
  have stop: "\<not> pool_running (pool w)" using assms by (simp add: phase_ok_def)
  show ?thesis
  proof (cases "workers (pool w) ! i")
    case Waiting
    obtain q where q: "WorkerTake i (pool w) = Some q" using stop
      by (cases "WorkerTake i (pool w)") (auto simp: WorkerTake_def split: if_splits)
    show ?thesis using pool_step.worker_take [OF i(1) Waiting q] WorkerTake_work [OF i(1) Waiting q stop] assms(2)
      by (intro exI [of _ "w\<lparr>pool := q\<rparr>"]) (simp add: join_work_def)
  next
    case (Running t)
    show ?thesis using pool_step.worker_finish [OF i(1) Running, of Returned]
        WorkerFinish_work [OF i(1) Running, of Returned] assms(2)
      by (intro exI [of _ "w\<lparr>pool := WorkerFinish i Returned (pool w), finished := finished w @ [t]\<rparr>"])
        (simp add: join_work_def frame_simps)
  qed (use i in simp)
qed

lemma join_completes:
  assumes "pool_reachable w" "phase w = Joining"
  shows "\<exists>w'. pool_step\<^sup>*\<^sup>* w w' \<and> phase w' = Stopped"
  using assms
proof (induction "join_work w" arbitrary: w rule: less_induct)
  case less
  obtain w' where w': "pool_step w w'" "join_work w' < join_work w" "phase w' = Joining \<or> phase w' = Stopped"
    using join_progress [OF _ less.prems(2)] pool_invariant [OF less.prems(1)] by blast
  from w'(3) show ?case
  proof
    assume "phase w' = Joining"
    from less.hyps [OF w'(2) pool_reachable.step [OF less.prems(1) w'(1)] this] w'(1)
    show ?thesis by (meson converse_rtranclp_into_rtranclp)
  qed (use w'(1) in blast)
qed



text \<open>
  \<^verbatim>\<open>Enqueue\<close> on every branch. The empty function is an invalid parameter; a stopped pool refuses; a
  queue with room takes the task at its end and returns ok; a full queue counts a rejection and either
  returns that it is full or has the caller run the task, and in both cases the queue is unchanged.
\<close>

lemma Enqueue_branches:
  "EnqueueLocked None p = (EnqReturn kInvalidParam, p) \<and>
   (\<not> pool_running p \<longrightarrow> EnqueueLocked (Some t) p = (EnqReturn kThreadStartFailed, p)) \<and>
   (pool_running p \<longrightarrow> length (tasks p) < queue_capacity (pool_config p) \<longrightarrow>
      fst (EnqueueLocked (Some t) p) = EnqReturn kOk \<and> tasks (snd (EnqueueLocked (Some t) p)) = tasks p @ [t]) \<and>
   (pool_running p \<longrightarrow> queue_capacity (pool_config p) \<le> length (tasks p) \<longrightarrow>
      fst (EnqueueLocked (Some t) p) =
        (if rejection_policy (pool_config p) = kCallerRuns then RunInCaller else EnqReturn kThreadQueueFull) \<and>
      snd (EnqueueLocked (Some t) p) = p\<lparr>rejected_count := rejected_count p + 1\<rparr>)"
  by (simp add: EnqueueLocked_def Let_def)

end
