(* ===== verification/Logging.thy ===== *)
theory Logging
  imports Error_Code
begin

text \<open>
  \<^verbatim>\<open>log/logger.cpp\<close>: the process-wide logger with its level, sinks and contexts, and the scoped context
  \<^verbatim>\<open>ScopedLogContext\<close>. The thread-local variables are a function of the thread; the text of the clock and
  of a thread identifier and which files can be opened are parameters.
\<close>

section \<open>State\<close>

datatype LogLevel = kDebug | kInfo | kWarn | kError

fun level_value :: "LogLevel \<Rightarrow> int" where
  "level_value kDebug = 0"
| "level_value kInfo = 1"
| "level_value kWarn = 2"
| "level_value kError = 3"

record thread_log_context =
  has_thread_context :: bool
  thread_module :: string
  thread_context :: string

record Logger =
  min_level :: LogLevel
  console_enabled :: bool
  file_stream :: "string option"
  default_module :: string
  default_context :: string
  locals :: "nat \<Rightarrow> thread_log_context"
  console :: "string list"
  files :: "string \<Rightarrow> string list"

definition new_logger :: Logger where
  "new_logger = \<lparr>min_level = kInfo, console_enabled = True, file_stream = None, default_module = ''general'',
     default_context = ''default'', locals = (\<lambda>_. \<lparr>has_thread_context = False, thread_module = [], thread_context = []\<rparr>),
     console = [], files = (\<lambda>_. [])\<rparr>"

section \<open>Operations\<close>

definition SetMinLevel :: "LogLevel \<Rightarrow> Logger \<Rightarrow> Logger" where
  "SetMinLevel level s = s\<lparr>min_level := level\<rparr>"

definition EnableConsole :: "bool \<Rightarrow> Logger \<Rightarrow> Logger" where
  "EnableConsole enabled s = s\<lparr>console_enabled := enabled\<rparr>"

definition SetOutputFile :: "(string \<Rightarrow> bool) \<Rightarrow> string \<Rightarrow> Logger \<Rightarrow> bool \<times> Logger" where
  "SetOutputFile can_open file_path s =
     (let s' = s\<lparr>file_stream := (if can_open file_path then Some file_path else None)\<rparr>
      in (file_stream s' \<noteq> None, s'))"

definition SetDefaultContext :: "string \<Rightarrow> string \<Rightarrow> Logger \<Rightarrow> Logger" where
  "SetDefaultContext m c s = s\<lparr>default_module := m, default_context := c\<rparr>"

definition SetThreadContext :: "nat \<Rightarrow> string \<Rightarrow> string \<Rightarrow> Logger \<Rightarrow> Logger" where
  "SetThreadContext tid m c s =
     s\<lparr>locals := (locals s)(tid := \<lparr>has_thread_context = True, thread_module = m, thread_context = c\<rparr>)\<rparr>"

definition ClearThreadContext :: "nat \<Rightarrow> Logger \<Rightarrow> Logger" where
  "ClearThreadContext tid s =
     s\<lparr>locals := (locals s)(tid := \<lparr>has_thread_context = False, thread_module = [], thread_context = []\<rparr>)\<rparr>"

text \<open>Output parameters are cells, \<open>None\<close> for a null pointer.\<close>

definition GetThreadContext ::
  "nat \<Rightarrow> string option \<Rightarrow> string option \<Rightarrow> Logger \<Rightarrow> bool \<times> string option \<times> string option" where
  "GetThreadContext tid m c s =
     (if \<not> has_thread_context (locals s tid) \<or> m = None \<or> c = None then (False, m, c)
      else (True, Some (thread_module (locals s tid)), Some (thread_context (locals s tid))))"

definition ResolveEffectiveContext ::
  "nat \<Rightarrow> string option \<Rightarrow> string option \<Rightarrow> Logger \<Rightarrow> string option \<times> string option" where
  "ResolveEffectiveContext tid m c s =
     (if m = None \<or> c = None then (m, c)
      else if has_thread_context (locals s tid)
        then (Some (thread_module (locals s tid)), Some (thread_context (locals s tid)))
      else (Some (default_module s), Some (default_context s)))"

fun level_ToString :: "LogLevel \<Rightarrow> string" where
  "level_ToString kDebug = ''DEBUG''"
| "level_ToString kInfo = ''INFO''"
| "level_ToString kWarn = ''WARN''"
| "level_ToString kError = ''ERROR''"

text \<open>\<^verbatim>\<open>std::hex\<close> on an unsigned integer.\<close>

fun show_hex :: "nat \<Rightarrow> string" where
  "show_hex n = (if n < 16 then [''0123456789abcdef'' ! n] else show_hex (n div 16) @ [''0123456789abcdef'' ! (n mod 16)])"

declare show_hex.simps [simp del]

definition log_text ::
  "string \<Rightarrow> string \<Rightarrow> string \<Rightarrow> string \<Rightarrow> LogLevel \<Rightarrow> ErrorCode \<Rightarrow> string \<Rightarrow> string \<Rightarrow> int \<Rightarrow> string" where
  "log_text timestamp tid_text md cx level code message file line =
     timestamp @ '' ['' @ level_ToString level @ '']'' @ '' module='' @ md @ '' context='' @ cx
     @ '' error_domain='' @ ToDomainString (code_value code) @ '' error_code=0x'' @ show_hex (unat (code_value code))
     @ '' [tid='' @ tid_text @ '']'' @ '' ['' @ file @ '':'' @ show_int line @ ''] '' @ message"

text \<open>The clock and the thread identifiers as the program prints them.\<close>

record log_env =
  CurrentTimestamp :: string
  thread_id_text :: "nat \<Rightarrow> string"

definition WriteLogLine ::
  "log_env \<Rightarrow> nat \<Rightarrow> LogLevel \<Rightarrow> ErrorCode \<Rightarrow> string \<Rightarrow> string \<Rightarrow> int \<Rightarrow> Logger \<Rightarrow> Logger" where
  "WriteLogLine env tid level code message file line s =
     (if level_value level < level_value (min_level s) then s
      else case ResolveEffectiveContext tid (Some []) (Some []) s of (m, c) \<Rightarrow>
        let t = log_text (CurrentTimestamp env) (thread_id_text env tid) (the m) (the c) level code message file line;
            s1 = (if console_enabled s then s\<lparr>console := console s @ [t]\<rparr> else s)
        in (case file_stream s1 of
              Some f \<Rightarrow> s1\<lparr>files := (files s1)(f := files s1 f @ [t])\<rparr>
            | None \<Rightarrow> s1))"

definition Log :: "log_env \<Rightarrow> nat \<Rightarrow> LogLevel \<Rightarrow> string \<Rightarrow> string \<Rightarrow> int \<Rightarrow> Logger \<Rightarrow> Logger" where
  "Log env tid level message file line s = WriteLogLine env tid level kOk message file line s"

definition LogWithCode ::
  "log_env \<Rightarrow> nat \<Rightarrow> LogLevel \<Rightarrow> ErrorCode \<Rightarrow> string \<Rightarrow> string \<Rightarrow> int \<Rightarrow> Logger \<Rightarrow> Logger" where
  "LogWithCode env tid level code message file line s = WriteLogLine env tid level code message file line s"

section \<open>Scoped contexts\<close>

record ScopedLogContext =
  had_previous :: bool
  previous_module :: string
  previous_context :: string

definition enter_scope :: "nat \<Rightarrow> string \<Rightarrow> string \<Rightarrow> Logger \<Rightarrow> ScopedLogContext \<times> Logger" where
  "enter_scope tid m c s =
     (case GetThreadContext tid (Some []) (Some []) s of (had, pm, pc) \<Rightarrow>
        (\<lparr>had_previous = had, previous_module = the pm, previous_context = the pc\<rparr>, SetThreadContext tid m c s))"

definition leave_scope :: "nat \<Rightarrow> ScopedLogContext \<Rightarrow> Logger \<Rightarrow> Logger" where
  "leave_scope tid scope s =
     (if had_previous scope then SetThreadContext tid (previous_module scope) (previous_context scope) s
      else ClearThreadContext tid s)"

text \<open>
  The statements of a thread that logs and opens scopes; a scope object is destroyed at the end of its block,
  on whichever path the block is left.
\<close>

datatype log_stmt =
    Say LogLevel ErrorCode string string int
  | Scope string string "log_stmt list"

fun run_stmts :: "log_env \<Rightarrow> nat \<Rightarrow> log_stmt list \<Rightarrow> Logger \<Rightarrow> Logger" where
  "run_stmts env tid [] s = s"
| "run_stmts env tid (Say level code message file line # r) s =
     run_stmts env tid r (LogWithCode env tid level code message file line s)"
| "run_stmts env tid (Scope m c body # r) s =
     (case enter_scope tid m c s of (scope, s1) \<Rightarrow>
        run_stmts env tid r (leave_scope tid scope (run_stmts env tid body s1)))"

text \<open>Lexical scoping: each line carries the context of the innermost block around it.\<close>

fun lexical_lines :: "log_env \<Rightarrow> nat \<Rightarrow> LogLevel \<Rightarrow> string \<times> string \<Rightarrow> log_stmt list \<Rightarrow> string list" where
  "lexical_lines env tid least ctx [] = []"
| "lexical_lines env tid least ctx (Say level code message file line # r) =
     (if level_value level < level_value least then []
      else [log_text (CurrentTimestamp env) (thread_id_text env tid) (fst ctx) (snd ctx) level code message file line])
     @ lexical_lines env tid least ctx r"
| "lexical_lines env tid least ctx (Scope m c body # r) =
     lexical_lines env tid least (m, c) body @ lexical_lines env tid least ctx r"

definition own_context :: "Logger \<Rightarrow> nat \<Rightarrow> (string \<times> string) option" where
  "own_context s tid =
     (if has_thread_context (locals s tid) then Some (thread_module (locals s tid), thread_context (locals s tid)) else None)"

definition effective_context :: "Logger \<Rightarrow> nat \<Rightarrow> string \<times> string" where
  "effective_context s tid = (case own_context s tid of Some x \<Rightarrow> x | None \<Rightarrow> (default_module s, default_context s))"

text \<open>What a run of a thread may do to the logger: add the same lines to the sinks in use.\<close>

definition logged :: "Logger \<Rightarrow> string list \<Rightarrow> Logger \<Rightarrow> bool" where
  "logged s ls s' \<longleftrightarrow>
     (\<forall>t. own_context s' t = own_context s t) \<and>
     console s' = (if console_enabled s then console s @ ls else console s) \<and>
     files s' = (case file_stream s of Some f \<Rightarrow> (files s)(f := files s f @ ls) | None \<Rightarrow> files s) \<and>
     min_level s' = min_level s \<and> console_enabled s' = console_enabled s \<and> file_stream s' = file_stream s \<and>
     default_module s' = default_module s \<and> default_context s' = default_context s"

lemma logged_nothing: "logged s [] s"
  by (simp add: logged_def split: option.splits)

lemma logged_trans: "logged s ls s' \<Longrightarrow> logged s' ls' s'' \<Longrightarrow> logged s (ls @ ls') s''"
  by (auto simp: logged_def split: option.splits)

lemma WriteLogLine_logged:
  "logged s (lexical_lines env tid (min_level s) (effective_context s tid) [Say level code message file line])
     (WriteLogLine env tid level code message file line s)"
  by (auto simp: logged_def WriteLogLine_def ResolveEffectiveContext_def effective_context_def own_context_def Let_def
      split: option.splits)

text \<open>Entering a scope, logging in it and leaving it is logging: the context of before is back.\<close>

lemma own_context_set [simp]: "own_context (SetThreadContext tid m c s) = (own_context s)(tid \<mapsto> (m, c))"
  by (auto simp: own_context_def SetThreadContext_def)

lemma own_context_clear [simp]: "own_context (ClearThreadContext tid s) = (own_context s)(tid := None)"
  by (auto simp: own_context_def ClearThreadContext_def)

lemma leave_scope_context:
  "enter_scope tid m c s = (scope, s1) \<Longrightarrow> own_context (leave_scope tid scope s2) = (own_context s2)(tid := own_context s tid)"
  by (auto simp: enter_scope_def leave_scope_def GetThreadContext_def own_context_def [of s] split: if_splits)

lemma set_sinks [simp]:
  "console (SetThreadContext tid m c s) = console s" "files (SetThreadContext tid m c s) = files s"
  "min_level (SetThreadContext tid m c s) = min_level s" "console_enabled (SetThreadContext tid m c s) = console_enabled s"
  "file_stream (SetThreadContext tid m c s) = file_stream s" "default_module (SetThreadContext tid m c s) = default_module s"
  "default_context (SetThreadContext tid m c s) = default_context s"
  by (simp_all add: SetThreadContext_def)

lemma leave_sinks [simp]:
  "console (leave_scope tid scope s) = console s" "files (leave_scope tid scope s) = files s"
  "min_level (leave_scope tid scope s) = min_level s" "console_enabled (leave_scope tid scope s) = console_enabled s"
  "file_stream (leave_scope tid scope s) = file_stream s" "default_module (leave_scope tid scope s) = default_module s"
  "default_context (leave_scope tid scope s) = default_context s"
  by (simp_all add: leave_scope_def ClearThreadContext_def)

lemma scope_logged:
  assumes "enter_scope tid m c s = (scope, s1)" "logged s1 ls s2"
  shows "logged s ls (leave_scope tid scope s2)"
proof -
  have s1: "s1 = SetThreadContext tid m c s" using assms(1) by (simp add: enter_scope_def split: prod.splits)
  have "own_context (leave_scope tid scope s2) t = own_context s t" for t
    using assms(2) leave_scope_context [OF assms(1)] by (simp add: s1 logged_def)
  with assms(2) show ?thesis by (auto simp: s1 logged_def split: option.splits)
qed

lemma enter_scope_context:
  "enter_scope tid m c s = (scope, s1) \<Longrightarrow> effective_context s1 tid = (m, c) \<and> min_level s1 = min_level s"
  by (auto simp: enter_scope_def effective_context_def own_context_def SetThreadContext_def split: prod.splits)

lemma logged_context: "logged s ls s' \<Longrightarrow> effective_context s' tid = effective_context s tid \<and> min_level s' = min_level s"
  by (auto simp: logged_def effective_context_def split: option.splits)

text \<open>
  Scoped contexts are lexical. Whatever blocks a thread nests, every line at or above the level goes once
  and in order to each sink in use, with the context of the innermost block around it (outside all blocks the
  thread's own or else the default one), nothing else changes, and at the end every thread has the context
  it had.
\<close>

theorem scoped_contexts_lexical:
  "logged s (lexical_lines env tid (min_level s) (effective_context s tid) stmts) (run_stmts env tid stmts s)"
proof (induction env tid stmts s rule: run_stmts.induct)
  case (1 env tid s)
  then show ?case by (simp add: logged_nothing)
next
  case (2 env tid level code msg path n r s)
  have w: "logged s (lexical_lines env tid (min_level s) (effective_context s tid) [Say level code msg path n])
      (LogWithCode env tid level code msg path n s)"
    unfolding LogWithCode_def by (rule WriteLogLine_logged)
  from logged_trans [OF w 2] logged_context [OF w, of tid] show ?case by simp
next
  case (3 env tid m c body r s)
  obtain scope s1 where e: "enter_scope tid m c s = (scope, s1)" by fastforce
  have b: "logged s (lexical_lines env tid (min_level s) (m, c) body) (leave_scope tid scope (run_stmts env tid body s1))"
    using scope_logged [OF e 3(1) [OF e [symmetric]]] enter_scope_context [OF e] by simp
  from logged_trans [OF b 3(2) [OF e [symmetric]]] logged_context [OF b, of tid] e show ?case by simp
qed

end
