(* ===== verification/Message_Envelope.thy ===== *)
theory Message_Envelope
  imports Error_Code
begin

text \<open>
  \<^verbatim>\<open>interconnect/message_envelope.hpp\<close> and the two checks on envelopes of
  \<^verbatim>\<open>interconnect/interconnect_bridge.cpp\<close>: validity for publishing and expiry.
\<close>

section \<open>The envelope\<close>

datatype ChannelType = kControl | kTelemetry | kEvent

datatype DeliveryQoS = kBestEffort | kAtLeastOnce

fun channel_value :: "ChannelType \<Rightarrow> u8" where
  "channel_value kControl = 0"
| "channel_value kTelemetry = 1"
| "channel_value kEvent = 2"

fun qos_value :: "DeliveryQoS \<Rightarrow> u8" where
  "qos_value kBestEffort = 0"
| "qos_value kAtLeastOnce = 1"

record MessageEnvelope =
  schema_version :: u32
  channel :: ChannelType
  qos :: DeliveryQoS
  sequence :: u64
  timestamp_ms :: u64
  ttl_ms :: u32
  source :: string
  target :: string
  topic :: string
  trace_id :: string
  idempotency_key :: string
  payload :: string

definition default_envelope :: MessageEnvelope where
  "default_envelope = \<lparr>schema_version = 1, channel = kEvent, qos = kBestEffort, sequence = 0,
     timestamp_ms = 0, ttl_ms = 1000, source = [], target = [], topic = [], trace_id = [],
     idempotency_key = [], payload = []\<rparr>"

section \<open>Validity and expiry\<close>

definition IsEnvelopeValidForPublish :: "MessageEnvelope \<Rightarrow> bool" where
  "IsEnvelopeValidForPublish envelope \<longleftrightarrow>
     source envelope \<noteq> [] \<and> target envelope \<noteq> [] \<and> topic envelope \<noteq> []"

definition effective_ttl :: "MessageEnvelope \<Rightarrow> u32 \<Rightarrow> u32" where
  "effective_ttl envelope max_latency_ms =
     (if ttl_ms envelope = 0 then max_latency_ms else min (ttl_ms envelope) max_latency_ms)"

definition IsExpired :: "MessageEnvelope \<Rightarrow> u64 \<Rightarrow> u32 \<Rightarrow> bool" where
  "IsExpired envelope now_ms max_latency_ms =
     (let ttl = effective_ttl envelope max_latency_ms in
      if ttl = 0 then False
      else if now_ms < timestamp_ms envelope then False
      else now_ms - timestamp_ms envelope > ucast ttl)"

lemma unat_diff_u64: "(b :: u64) \<le> a \<Longrightarrow> unat (a - b) = unat a - unat b"
  by (simp add: unat_sub)

lemma IsExpired_iff:
  "IsExpired e now m \<longleftrightarrow>
     effective_ttl e m \<noteq> 0 \<and> unat (timestamp_ms e) + unat (effective_ttl e m) < unat now"
proof (cases "timestamp_ms e \<le> now")
  case True
  then have "unat (timestamp_ms e) \<le> unat now" by (simp add: word_le_nat_alt)
  with True show ?thesis
    by (simp add: IsExpired_def Let_def word_less_nat_alt unat_diff_u64) linarith
next
  case False
  then show ?thesis by (simp add: IsExpired_def Let_def word_less_nat_alt word_le_nat_alt)
qed

text \<open>
  Expiry is exact over the 64-bit clock. A message is expired precisely when its effective
  time to live (the smaller of its own and the policy's latency bound, the latter alone when it has
  none) is not zero and the time elapsed since its timestamp exceeds it, as natural numbers: the
  unsigned subtraction never wraps, and a clock behind the timestamp expires nothing.
\<close>

theorem IsExpired_exact:
  "IsExpired e now m \<longleftrightarrow>
     effective_ttl e m \<noteq> 0 \<and> unat (timestamp_ms e) + unat (effective_ttl e m) < unat now"
  by (rule IsExpired_iff)

lemma IsExpired_mono_latency:
  assumes "IsExpired e now m'" "m \<le> m'" "m \<noteq> 0"
  shows "IsExpired e now m"
proof -
  have "effective_ttl e m \<noteq> 0" using assms(3) by (auto simp: effective_ttl_def min_def)
  moreover have "unat (effective_ttl e m) \<le> unat (effective_ttl e m')"
    using assms(2) by (auto simp: effective_ttl_def min_def word_le_nat_alt)
  ultimately show ?thesis using assms(1) by (auto simp: IsExpired_iff)
qed

end
