(* ===== verification/Message_Codec.thy ===== *)
theory Message_Codec
  imports Message_Envelope
begin

text \<open>
  \<^verbatim>\<open>interconnect/message_codec.cpp\<close>: the separator format of an envelope, with its eleven-field
  form and its compact eight-field form. A pointer parameter is an option: \<open>None\<close> is \<^verbatim>\<open>nullptr\<close>,
  \<open>Some v\<close> a cell that holds \<open>v\<close>; a function returns its code and the cell as it leaves it.
\<close>

section \<open>Fields\<close>

abbreviation kFieldSeparator :: char where
  "kFieldSeparator \<equiv> CHR ''|''"

abbreviation backslash :: char where
  "backslash \<equiv> CHR 0x5C"

definition kExpectedFieldCount :: nat where
  "kExpectedFieldCount = 11"

definition kExpectedCompactFieldCount :: nat where
  "kExpectedCompactFieldCount = 8"

definition kSchemaVersionCompatBaseline :: u32 where
  "kSchemaVersionCompatBaseline = 1"

fun EscapeField :: "string \<Rightarrow> string" where
  "EscapeField [] = []"
| "EscapeField (ch # input) =
     (if ch = backslash \<or> ch = kFieldSeparator then [backslash, ch] else [ch]) @ EscapeField input"

text \<open>The loop of \<^verbatim>\<open>UnescapeField\<close> with its flag; a trailing escape character is kept.\<close>

fun unescape_loop :: "bool \<Rightarrow> string \<Rightarrow> string" where
  "unescape_loop escaped [] = (if escaped then [backslash] else [])"
| "unescape_loop escaped (ch # input) =
     (if escaped then ch # unescape_loop False input
      else if ch = backslash then unescape_loop True input
      else ch # unescape_loop False input)"

definition UnescapeField :: "string \<Rightarrow> string" where
  "UnescapeField input = unescape_loop False input"

text \<open>The loop of \<^verbatim>\<open>SplitEscaped\<close>: the text left, the current field, the run of backslashes, the fields done.\<close>

fun split_loop :: "string \<Rightarrow> string \<Rightarrow> nat \<Rightarrow> string list \<Rightarrow> string list" where
  "split_loop [] current backslash_run parts = parts @ [current]"
| "split_loop (ch # text) current backslash_run parts =
     (let separator_escaped = (ch = kFieldSeparator \<and> backslash_run mod 2 = 1) in
      if ch = kFieldSeparator \<and> \<not> separator_escaped
      then split_loop text [] 0 (parts @ [current])
      else split_loop text (current @ [ch])
             (if ch = backslash then backslash_run + 1 else 0) parts)"

definition SplitEscaped :: "string \<Rightarrow> string list" where
  "SplitEscaped text = split_loop text [] 0 []"

fun ChannelToString :: "ChannelType \<Rightarrow> string" where
  "ChannelToString kControl = ''control''"
| "ChannelToString kTelemetry = ''telemetry''"
| "ChannelToString kEvent = ''event''"

definition ChannelFromString :: "string \<Rightarrow> ChannelType option" where
  "ChannelFromString v =
     (if v = ''control'' then Some kControl
      else if v = ''telemetry'' then Some kTelemetry
      else if v = ''event'' then Some kEvent
      else None)"

fun QoSToString :: "DeliveryQoS \<Rightarrow> string" where
  "QoSToString kBestEffort = ''best_effort''"
| "QoSToString kAtLeastOnce = ''at_least_once''"

definition QoSFromString :: "string \<Rightarrow> DeliveryQoS option" where
  "QoSFromString v =
     (if v = ''best_effort'' then Some kBestEffort
      else if v = ''at_least_once'' then Some kAtLeastOnce
      else None)"

section \<open>Encoding and decoding\<close>

text \<open>The fields as they are streamed, joined by the separator.\<close>

fun join_fields :: "string list \<Rightarrow> string" where
  "join_fields [] = []"
| "join_fields [f] = f"
| "join_fields (f # g # fs) = f @ kFieldSeparator # join_fields (g # fs)"

definition legacy_fields :: "MessageEnvelope \<Rightarrow> string list" where
  "legacy_fields e =
     [show_nat (unat (schema_version e)), ChannelToString (channel e), QoSToString (qos e),
      show_nat (unat (sequence e)), show_nat (unat (timestamp_ms e)), show_nat (unat (ttl_ms e)),
      EscapeField (source e), EscapeField (target e), EscapeField (topic e),
      EscapeField (trace_id e), EscapeField (payload e)]"

definition compact_fields :: "MessageEnvelope \<Rightarrow> string list" where
  "compact_fields e =
     [show_nat (unat (schema_version e)), ChannelToString (channel e), QoSToString (qos e),
      show_nat (unat (sequence e)), show_nat (unat (timestamp_ms e)), show_nat (unat (ttl_ms e)),
      EscapeField (topic e), EscapeField (payload e)]"

definition Encode :: "MessageEnvelope \<Rightarrow> string option \<Rightarrow> ErrorCode \<times> string option" where
  "Encode envelope out =
     (case out of None \<Rightarrow> (kInvalidParam, None)
      | Some _ \<Rightarrow> (kOk, Some (join_fields (legacy_fields envelope))))"

definition EncodeCompact :: "MessageEnvelope \<Rightarrow> string option \<Rightarrow> ErrorCode \<times> string option" where
  "EncodeCompact envelope out =
     (case out of None \<Rightarrow> (kInvalidParam, None)
      | Some _ \<Rightarrow> (kOk, Some (join_fields (compact_fields envelope))))"

text \<open>The \<^verbatim>\<open>try\<close> block: the four numbers, \<open>None\<close> when a conversion throws.\<close>

definition parse_numbers :: "string list \<Rightarrow> (u32 \<times> u64 \<times> u64 \<times> u32) option" where
  "parse_numbers parts =
     (case (stoull (parts ! 0), stoull (parts ! 3), stoull (parts ! 4), stoull (parts ! 5)) of
        (Some v, Some s, Some t, Some l) \<Rightarrow> Some (ucast v, s, t, ucast l)
      | _ \<Rightarrow> None)"

definition Decode :: "string \<Rightarrow> MessageEnvelope option \<Rightarrow> ErrorCode \<times> MessageEnvelope option" where
  "Decode text out =
     (if out = None \<or> text = [] then (kInvalidParam, out)
      else
        let parts = SplitEscaped text in
        if length parts \<noteq> kExpectedFieldCount \<and> length parts \<noteq> kExpectedCompactFieldCount
        then (kInvalidParam, out)
        else case parse_numbers parts of
          None \<Rightarrow> (kInvalidParam, out)
        | Some (v, s, t, l) \<Rightarrow>
            if v < kSchemaVersionCompatBaseline then (kInvalidParam, out)
            else case ChannelFromString (parts ! 1) of
              None \<Rightarrow> (kInvalidParam, out)
            | Some c \<Rightarrow>
              (case QoSFromString (parts ! 2) of
                 None \<Rightarrow> (kInvalidParam, out)
               | Some q \<Rightarrow>
                 let parsed = default_envelope\<lparr>schema_version := v, sequence := s, timestamp_ms := t,
                       ttl_ms := l, channel := c, qos := q\<rparr> in
                 if length parts = kExpectedCompactFieldCount
                 then (kOk, Some (parsed\<lparr>topic := UnescapeField (parts ! 6),
                                        payload := UnescapeField (parts ! 7)\<rparr>))
                 else (kOk, Some (parsed\<lparr>source := UnescapeField (parts ! 6),
                         target := UnescapeField (parts ! 7), topic := UnescapeField (parts ! 8),
                         trace_id := UnescapeField (parts ! 9),
                         payload := UnescapeField (parts ! 10)\<rparr>))))"

section \<open>Escaping and splitting\<close>

lemma unescape_escape [simp]: "unescape_loop False (EscapeField x) = x"
  by (induction x) auto

lemma UnescapeField_EscapeField [simp]: "UnescapeField (EscapeField x) = x"
  by (simp add: UnescapeField_def)

text \<open>
  A field is safe when the splitter, started with an even run of backslashes, passes over it
  whatever follows and ends with an even run again.
\<close>

definition safe_field :: "string \<Rightarrow> bool" where
  "safe_field f \<longleftrightarrow> (\<forall>r text current parts. even r \<longrightarrow>
     (\<exists>r'. even r' \<and> split_loop (f @ text) current r parts = split_loop text (current @ f) r' parts))"

lemma safe_fieldD:
  "safe_field f \<Longrightarrow> even r \<Longrightarrow>
     \<exists>r'. even r' \<and> split_loop (f @ rest) current r parts = split_loop rest (current @ f) r' parts"
  by (simp add: safe_field_def)

lemma safe_Nil [simp]: "safe_field []"
  unfolding safe_field_def append_Nil append_Nil2 by (intro allI impI exI conjI) (assumption, rule refl)

lemma safe_append:
  assumes "safe_field f" "safe_field g"
  shows "safe_field (f @ g)"
  unfolding safe_field_def
proof (intro allI impI)
  fix r rest current parts
  assume "even (r :: nat)"
  with assms(1) obtain r1 where r1: "even r1"
    "split_loop (f @ (g @ rest)) current r parts = split_loop (g @ rest) (current @ f) r1 parts"
    using safe_fieldD by meson
  with assms(2) obtain r2 where "even r2"
    "split_loop (g @ rest) (current @ f) r1 parts = split_loop rest ((current @ f) @ g) r2 parts"
    using safe_fieldD by meson
  with r1 show "\<exists>r'. even r' \<and>
      split_loop ((f @ g) @ rest) current r parts = split_loop rest (current @ f @ g) r' parts"
    by auto
qed

lemma safe_char: "c \<noteq> kFieldSeparator \<Longrightarrow> c \<noteq> backslash \<Longrightarrow> safe_field [c]"
  unfolding safe_field_def by (auto intro: exI [of _ 0])

lemma safe_escaped_char: "c = kFieldSeparator \<or> c = backslash \<Longrightarrow> safe_field [backslash, c]"
  unfolding safe_field_def
  by (auto simp: even_iff_mod_2_eq_zero mod_Suc intro: exI [of _ 0] exI [of _ "Suc (Suc r)" for r])

lemma safe_EscapeField [simp]: "safe_field (EscapeField x)"
  by (induction x) (auto intro!: safe_append safe_char safe_escaped_char simp del: append.simps(2))

lemma safe_plain: "(\<And>c. c \<in> set f \<Longrightarrow> c \<noteq> kFieldSeparator \<and> c \<noteq> backslash) \<Longrightarrow> safe_field f"
proof (induction f)
  case (Cons c f)
  then have "safe_field ([c] @ f)" by (intro safe_append safe_char) auto
  then show ?case by simp
qed simp

lemma safe_show_nat [simp]: "safe_field (show_nat n)"
  using digit_not_special by (intro safe_plain) (blast dest: show_nat_digits)

lemma safe_ChannelToString [simp]: "safe_field (ChannelToString c)"
  by (cases c) (auto intro!: safe_plain)

lemma safe_QoSToString [simp]: "safe_field (QoSToString q)"
  by (cases q) (auto intro!: safe_plain)

lemma split_loop_join:
  "fs \<noteq> [] \<Longrightarrow> \<forall>f \<in> set fs. safe_field f \<Longrightarrow> even r \<Longrightarrow>
     split_loop (join_fields fs) current r done = done @ [current @ hd fs] @ tl fs"
proof (induction fs arbitrary: current r "done" rule: join_fields.induct)
  case (2 f)
  then obtain r' where "split_loop (f @ []) current r done = split_loop [] (current @ f) r' done"
    by (meson list.set_intros(1) safe_fieldD)
  then show ?case by simp
next
  case (3 f g fs)
  from 3(3,4) obtain r' where "even r'"
    "split_loop (f @ kFieldSeparator # join_fields (g # fs)) current r done =
       split_loop (kFieldSeparator # join_fields (g # fs)) (current @ f) r' done"
    by (meson list.set_intros(1) safe_fieldD)
  moreover from \<open>even r'\<close> have "split_loop (kFieldSeparator # join_fields (g # fs)) (current @ f) r' done =
      split_loop (join_fields (g # fs)) [] 0 (done @ [current @ f])"
    by (simp add: even_iff_mod_2_eq_zero)
  ultimately show ?case using 3 by simp
qed simp

lemma SplitEscaped_join:
  "fs \<noteq> [] \<Longrightarrow> \<forall>f \<in> set fs. safe_field f \<Longrightarrow> SplitEscaped (join_fields fs) = fs"
  using split_loop_join [of fs 0 "[]" "[]"] by (simp add: SplitEscaped_def)

lemma ChannelFromString_ToString [simp]: "ChannelFromString (ChannelToString c) = Some c"
  by (cases c) (simp_all add: ChannelFromString_def)

lemma QoSFromString_ToString [simp]: "QoSFromString (QoSToString q) = Some q"
  by (cases q) (simp_all add: QoSFromString_def)

lemma Split_legacy: "SplitEscaped (join_fields (legacy_fields e)) = legacy_fields e"
  by (rule SplitEscaped_join) (simp_all add: legacy_fields_def)

lemma Split_compact: "SplitEscaped (join_fields (compact_fields e)) = compact_fields e"
  by (rule SplitEscaped_join) (simp_all add: compact_fields_def)

lemma join_legacy_not_Nil: "join_fields (legacy_fields e) \<noteq> []"
  by (simp add: legacy_fields_def)

lemma join_compact_not_Nil: "join_fields (compact_fields e) \<noteq> []"
  by (simp add: compact_fields_def)

lemma ucast_u64_u32 [simp]: "ucast (ucast (w :: u32) :: u64) = w"
  by (rule bit_word_eqI) (auto simp: bit_simps)

section \<open>The codec contract\<close>

text \<open>What the wire keeps of an envelope in each form.\<close>

definition legacy_view :: "MessageEnvelope \<Rightarrow> MessageEnvelope" where
  "legacy_view e = e\<lparr>idempotency_key := []\<rparr>"

definition compact_view :: "MessageEnvelope \<Rightarrow> MessageEnvelope" where
  "compact_view e = e\<lparr>source := [], target := [], trace_id := [], idempotency_key := []\<rparr>"

definition schema_ok :: "MessageEnvelope \<Rightarrow> bool" where
  "schema_ok e \<longleftrightarrow> kSchemaVersionCompatBaseline \<le> schema_version e"

text \<open>
  The contract the bridge relies on: what is decoded from an encoding is the view of the envelope,
  and the view is all the encoding depends on.
\<close>

locale envelope_codec =
  fixes enc :: "MessageEnvelope \<Rightarrow> string"
    and dec :: "string \<Rightarrow> MessageEnvelope option \<Rightarrow> ErrorCode \<times> MessageEnvelope option"
    and view :: "MessageEnvelope \<Rightarrow> MessageEnvelope"
  assumes dec_enc: "schema_ok e \<Longrightarrow> dec (enc e) (Some old) = (kOk, Some (view e))"
    and enc_view: "enc (view e) = enc e"
    and schema_view: "schema_ok (view e) \<longleftrightarrow> schema_ok e"
begin

lemma enc_inject: "schema_ok a \<Longrightarrow> schema_ok b \<Longrightarrow> enc a = enc b \<longleftrightarrow> view a = view b"
  using dec_enc [of a a] dec_enc [of b a] enc_view [of a] enc_view [of b] by auto

lemma relay: "schema_ok e \<Longrightarrow> dec (enc e) (Some old) = (c, Some e') \<Longrightarrow> enc e' = enc e \<and> schema_ok e'"
  using dec_enc [of e old] enc_view [of e] schema_view [of e] by auto

end

lemma Decode_legacy:
  "schema_ok e \<Longrightarrow> Decode (join_fields (legacy_fields e)) (Some old) = (kOk, Some (legacy_view e))"
  unfolding Decode_def Split_legacy
  by (simp add: join_legacy_not_Nil Let_def legacy_fields_def parse_numbers_def kExpectedFieldCount_def
      kExpectedCompactFieldCount_def schema_ok_def not_less legacy_view_def default_envelope_def)

lemma Decode_compact:
  "schema_ok e \<Longrightarrow> Decode (join_fields (compact_fields e)) (Some old) = (kOk, Some (compact_view e))"
  unfolding Decode_def Split_compact
  by (simp add: join_compact_not_Nil Let_def compact_fields_def parse_numbers_def kExpectedFieldCount_def
      kExpectedCompactFieldCount_def schema_ok_def not_less compact_view_def default_envelope_def)

lemma fields_of_view [simp]:
  "legacy_fields (legacy_view e) = legacy_fields e" "compact_fields (compact_view e) = compact_fields e"
  by (simp_all add: legacy_fields_def legacy_view_def compact_fields_def compact_view_def)

lemma schema_ok_view [simp]: "schema_ok (legacy_view e) = schema_ok e" "schema_ok (compact_view e) = schema_ok e"
  by (simp_all add: schema_ok_def legacy_view_def compact_view_def)

interpretation legacy: envelope_codec "\<lambda>e. join_fields (legacy_fields e)" Decode legacy_view
  by unfold_locales (simp_all add: Decode_legacy)

interpretation compact: envelope_codec "\<lambda>e. join_fields (compact_fields e)" Decode compact_view
  by unfold_locales (simp_all add: Decode_compact)

text \<open>
  C21: round trip of the text codec. For every envelope whose schema version is at least the
  compatibility baseline, whatever bytes its strings hold (separators and backslashes included),
  the full encoding decodes to the envelope less its idempotency key, and the compact encoding to
  the envelope less source, target, trace id and idempotency key.
\<close>

theorem codec_roundtrip:
  assumes "schema_ok e"
  shows "Decode (the (snd (Encode e (Some t)))) (Some old) = (kOk, Some (legacy_view e)) \<and>
         Decode (the (snd (EncodeCompact e (Some t)))) (Some old) = (kOk, Some (compact_view e))"
  using legacy.dec_enc [OF assms] compact.dec_enc [OF assms] by (simp add: Encode_def EncodeCompact_def)

theorem codec_roundtrip_witness:
  "Decode (the (snd (Encode (default_envelope\<lparr>topic := ''a|b'', payload := [CHR 0x5C]\<rparr>) (Some [])))) (Some default_envelope)
     = (kOk, Some (default_envelope\<lparr>topic := ''a|b'', payload := [CHR 0x5C]\<rparr>))"
  using codec_roundtrip [of "default_envelope\<lparr>topic := ''a|b'', payload := [CHR 0x5C]\<rparr>" "[]" default_envelope]
  by (simp add: schema_ok_def kSchemaVersionCompatBaseline_def default_envelope_def legacy_view_def)

lemma Decode_cases:
  assumes "Decode text out = (c, out')"
  shows "(c = kInvalidParam \<and> out' = out) \<or>
         (c = kOk \<and> out \<noteq> None \<and> text \<noteq> [] \<and> length (SplitEscaped text) \<in> {8, 11} \<and>
           (\<exists>e. out' = Some e \<and> schema_ok e \<and> idempotency_key e = [] \<and>
             (length (SplitEscaped text) = 8 \<longrightarrow> source e = [] \<and> target e = [] \<and> trace_id e = [])))"
  using assms unfolding Decode_def Let_def
  by (auto split: if_splits option.splits simp: kExpectedFieldCount_def kExpectedCompactFieldCount_def
      schema_ok_def default_envelope_def not_less)

text \<open>
  What decoding accepts. Whatever the text, decoding returns \<^verbatim>\<open>kInvalidParam\<close> and leaves the
  output cell as it was, or returns \<^verbatim>\<open>kOk\<close> for a text of eight or eleven fields; an accepted envelope
  has a schema version at or above the baseline and no idempotency key, and one of eight fields has
  neither source nor target nor trace id.
\<close>

theorem Decode_accepts:
  "let (c, out') = Decode s out in
     (c = kInvalidParam \<and> out' = out) \<or>
     (c = kOk \<and> length (SplitEscaped s) \<in> {8, 11} \<and>
       (\<exists>e. out' = Some e \<and> schema_ok e \<and> idempotency_key e = [] \<and>
         (length (SplitEscaped s) = 11 \<or> (source e = [] \<and> target e = [] \<and> trace_id e = []))))"
  using Decode_cases [of s out] by (cases "Decode s out") auto

lemma codec_views_inject:
  "schema_ok a \<Longrightarrow> schema_ok b \<Longrightarrow>
     join_fields (legacy_fields a) = join_fields (legacy_fields b) \<longleftrightarrow> legacy_view a = legacy_view b"
  by (rule legacy.enc_inject)

end
