(* ===== verification/Protocol_Adapter.thy ===== *)
theory Protocol_Adapter
  imports Message_Codec
begin

text \<open>
  \<^verbatim>\<open>interconnect/message_protocol_adapter.cpp\<close>: the header that declares the protocol of a message,
  the length-prefixed frames of the protobuf and CBOR modes, and the entry points that encode and
  decode by mode. \<^verbatim>\<open>DecodeByProtocol\<close> is \<^verbatim>\<open>noexcept\<close> and calls \<^verbatim>\<open>std::stoul\<close> outside any
  \<^verbatim>\<open>try\<close> block, so an exception there ends the process; \<open>Terminated\<close> is that outcome.
\<close>

section \<open>Modes and headers\<close>

datatype MessageProtocolMode = kLegacyPipe | kCompact | kProtobufReserved | kCborReserved

fun protocol_mode_value :: "MessageProtocolMode \<Rightarrow> u8" where
  "protocol_mode_value kLegacyPipe = 0"
| "protocol_mode_value kCompact = 1"
| "protocol_mode_value kProtobufReserved = 2"
| "protocol_mode_value kCborReserved = 3"

datatype 'a run = Terminated | Completed 'a

definition kProtocolPrefix :: string where "kProtocolPrefix = ''pm=''"
definition kVersionPrefix :: string where "kVersionPrefix = ''pv=''"
definition kWireProtoV2Prefix :: string where "kWireProtoV2Prefix = ''PBV2;''"
definition kWireCborV2Prefix :: string where "kWireCborV2Prefix = ''CBV2;''"

abbreviation kProtocolSep :: char where
  "kProtocolSep \<equiv> CHR '';''"

fun ProtocolTag :: "MessageProtocolMode \<Rightarrow> string" where
  "ProtocolTag kLegacyPipe = ''legacy''"
| "ProtocolTag kCompact = ''compact''"
| "ProtocolTag kProtobufReserved = ''protobuf''"
| "ProtocolTag kCborReserved = ''cbor''"

definition ParseProtocolTag :: "string \<Rightarrow> MessageProtocolMode" where
  "ParseProtocolTag tag =
     (if tag = ''legacy'' then kLegacyPipe
      else if tag = ''compact'' then kCompact
      else if tag = ''protobuf'' then kProtobufReserved
      else if tag = ''cbor'' then kCborReserved
      else kLegacyPipe)"

text \<open>The result: the value returned, and the two cells as they are left.\<close>

definition SplitEnvelopeHeader ::
  "string \<Rightarrow> MessageProtocolMode option \<Rightarrow> string option \<Rightarrow> bool \<times> MessageProtocolMode option \<times> string option" where
  "SplitEnvelopeHeader s declared_mode body =
     (if declared_mode = None \<or> body = None then (False, declared_mode, body)
      else if \<not> prefix kProtocolPrefix s then (True, Some kLegacyPipe, Some s)
      else case find_from kProtocolSep s 0 of
        None \<Rightarrow> (False, declared_mode, body)
      | Some first_sep \<Rightarrow>
          if first_sep \<le> 3 then (False, declared_mode, body)
          else
            let mode_token = substr s 3 (first_sep - 3);
                declared = Some (ParseProtocolTag mode_token) in
            (case find_from kProtocolSep s (first_sep + 1) of
               None \<Rightarrow> (True, declared, Some (drop (first_sep + 1) s))
             | Some second_sep \<Rightarrow>
                 let version_token = substr s (first_sep + 1) (second_sep - first_sep - 1) in
                 if \<not> prefix kVersionPrefix version_token then (False, declared, body)
                 else (True, declared, Some (drop (second_sep + 1) s))))"

definition ParseWireFrame :: "string \<Rightarrow> string \<Rightarrow> string option \<Rightarrow> (bool \<times> string option) run" where
  "ParseWireFrame body pre payload_cell =
     (if payload_cell = None \<or> \<not> prefix pre body then Completed (False, payload_cell)
      else case find_from kProtocolSep body (length pre) of
        None \<Rightarrow> Completed (False, payload_cell)
      | Some len_sep \<Rightarrow>
          let len_token = substr body (length pre) (len_sep - length pre) in
          if len_token = [] \<or> \<not> list_all is_digit len_token then Completed (False, payload_cell)
          else case stoull len_token of
            None \<Rightarrow> Terminated
          | Some expected_len \<Rightarrow>
              let frame_payload = drop (len_sep + 1) body in
              if length frame_payload \<noteq> unat expected_len then Completed (False, payload_cell)
              else Completed (True, Some frame_payload))"

definition BuildWireFrame :: "string \<Rightarrow> string \<Rightarrow> string" where
  "BuildWireFrame pre body = pre @ show_nat (length body) @ [kProtocolSep] @ body"

fun ProtocolWireVersion :: "MessageProtocolMode \<Rightarrow> u32" where
  "ProtocolWireVersion kLegacyPipe = 1"
| "ProtocolWireVersion kCompact = 1"
| "ProtocolWireVersion kProtobufReserved = 2"
| "ProtocolWireVersion kCborReserved = 2"

definition WrapEnvelopeHeader :: "MessageProtocolMode \<Rightarrow> string \<Rightarrow> string" where
  "WrapEnvelopeHeader mode body =
     kProtocolPrefix @ ProtocolTag mode @ [kProtocolSep] @ kVersionPrefix
       @ show_nat (unat (ProtocolWireVersion mode)) @ [kProtocolSep] @ body"

section \<open>Encoding and decoding by mode\<close>

definition encode_body :: "MessageProtocolMode \<Rightarrow> MessageEnvelope \<Rightarrow> ErrorCode \<times> string option" where
  "encode_body mode envelope =
     (case mode of
        kLegacyPipe \<Rightarrow> Encode envelope (Some [])
      | kCompact \<Rightarrow> EncodeCompact envelope (Some [])
      | kProtobufReserved \<Rightarrow>
          (case EncodeCompact envelope (Some []) of
             (ec, c) \<Rightarrow> if ec = kOk then (ec, Some (BuildWireFrame kWireProtoV2Prefix (the c))) else (ec, Some []))
      | kCborReserved \<Rightarrow>
          (case EncodeCompact envelope (Some []) of
             (ec, c) \<Rightarrow> if ec = kOk then (ec, Some (BuildWireFrame kWireCborV2Prefix (the c))) else (ec, Some [])))"

definition EncodeByProtocol ::
  "MessageProtocolMode \<Rightarrow> MessageEnvelope \<Rightarrow> string option \<Rightarrow> ErrorCode \<times> string option" where
  "EncodeByProtocol mode envelope out =
     (if out = None then (kInvalidParam, out)
      else case encode_body mode envelope of
        (ec, encoded_body) \<Rightarrow>
          if ec \<noteq> kOk then (ec, out)
          else (kOk, Some (WrapEnvelopeHeader mode (the encoded_body))))"

definition decode_once ::
  "string \<Rightarrow> MessageProtocolMode \<Rightarrow> MessageEnvelope option \<Rightarrow> (ErrorCode \<times> MessageEnvelope option) run" where
  "decode_once body m out =
     (case m of
        kLegacyPipe \<Rightarrow> Completed (Decode body out)
      | kCompact \<Rightarrow> Completed (Decode body out)
      | kProtobufReserved \<Rightarrow>
          (case ParseWireFrame body kWireProtoV2Prefix (Some []) of
             Terminated \<Rightarrow> Terminated
           | Completed (ok, p) \<Rightarrow> if \<not> ok then Completed (kInvalidParam, out) else Completed (Decode (the p) out))
      | kCborReserved \<Rightarrow>
          (case ParseWireFrame body kWireCborV2Prefix (Some []) of
             Terminated \<Rightarrow> Terminated
           | Completed (ok, p) \<Rightarrow> if \<not> ok then Completed (kInvalidParam, out) else Completed (Decode (the p) out)))"

definition DecodeByProtocol ::
  "MessageProtocolMode \<Rightarrow> string \<Rightarrow> MessageEnvelope option \<Rightarrow> (ErrorCode \<times> MessageEnvelope option) run" where
  "DecodeByProtocol mode s out =
     (if out = None \<or> s = [] then Completed (kInvalidParam, out)
      else case SplitEnvelopeHeader s (Some kLegacyPipe) (Some []) of
        (ok, declared_mode, body) \<Rightarrow>
          if \<not> ok then Completed (kInvalidParam, out)
          else
            let first_try = the declared_mode; second_try = mode in
            (case decode_once (the body) first_try out of
               Terminated \<Rightarrow> Terminated
             | Completed (ec, out1) \<Rightarrow>
                 if ec = kOk then Completed (ec, out1)
                 else if second_try \<noteq> first_try then decode_once (the body) second_try out1
                 else Completed (ec, out1)))"

definition selfcheck_envelope :: MessageEnvelope where
  "selfcheck_envelope = default_envelope\<lparr>source := ''selfcheck'', target := ''selfcheck'',
     topic := ''protocol.selfcheck'', payload := ''ping''\<rparr>"

definition SelfCheckProtocolCapability :: "MessageProtocolMode \<Rightarrow> bool run" where
  "SelfCheckProtocolCapability mode =
     (case EncodeByProtocol mode selfcheck_envelope (Some []) of
        (ec, encoded) \<Rightarrow>
          if ec \<noteq> kOk then Completed False
          else case DecodeByProtocol mode (the encoded) (Some default_envelope) of
            Terminated \<Rightarrow> Terminated
          | Completed (ec', decoded) \<Rightarrow>
              if ec' \<noteq> kOk then Completed False
              else Completed (topic (the decoded) = topic selfcheck_envelope
                     \<and> payload (the decoded) = payload selfcheck_envelope))"

section \<open>Headers\<close>

lemma ParseProtocolTag_Tag [simp]: "ParseProtocolTag (ProtocolTag m) = m"
  by (cases m) (simp_all add: ParseProtocolTag_def)

lemma Tag_no_sep: "kProtocolSep \<notin> set (ProtocolTag m)"
  by (cases m) simp_all

lemma Tag_not_Nil: "ProtocolTag m \<noteq> []"
  by (cases m) simp_all

lemma show_nat_no_sep: "kProtocolSep \<notin> set (show_nat n)"
  using show_nat_digits digit_not_special by blast

text \<open>The first separator of a headed text, and the next one.\<close>

lemma header_first_sep:
  "kProtocolSep \<notin> set tag \<Longrightarrow>
     find_from kProtocolSep (kProtocolPrefix @ tag @ kProtocolSep # rest) 0 = Some (3 + length tag)"
  using find_from_append [of kProtocolSep "kProtocolPrefix @ tag" "[]" rest] by (auto simp: kProtocolPrefix_def)

lemma length_kProtocolPrefix [simp]: "length kProtocolPrefix = 3"
  by (simp add: kProtocolPrefix_def)

lemma header_drop:
  "4 + length tag \<le> j \<Longrightarrow>
     drop j (kProtocolPrefix @ tag @ kProtocolSep # rest) = drop (j - (4 + length tag)) rest"
  by (simp add: drop_Cons')

lemma header_second_sep:
  "find_from kProtocolSep (kProtocolPrefix @ tag @ kProtocolSep # rest) (4 + length tag) =
     find_char kProtocolSep rest (4 + length tag)"
  by (simp add: find_from_def header_drop)

lemma header_pieces:
  fixes tag rest :: string
  defines "s \<equiv> kProtocolPrefix @ tag @ kProtocolSep # rest"
  shows "prefix kProtocolPrefix s" "substr s 3 (length tag) = tag" "drop (4 + length tag) s = rest"
  by (simp_all add: s_def substr_def)

lemma SplitEnvelopeHeader_cases:
  assumes "tag \<noteq> []" "kProtocolSep \<notin> set tag"
  shows "SplitEnvelopeHeader (kProtocolPrefix @ tag @ kProtocolSep # rest) (Some d) (Some b) =
     (case find_char kProtocolSep rest (4 + length tag) of
        None \<Rightarrow> (True, Some (ParseProtocolTag tag), Some rest)
      | Some j \<Rightarrow>
          if \<not> prefix kVersionPrefix (take (j - (4 + length tag)) rest)
          then (False, Some (ParseProtocolTag tag), Some b)
          else (True, Some (ParseProtocolTag tag), Some (drop (j + 1 - (4 + length tag)) rest)))"
proof -
  have ne: "\<not> 3 + length tag \<le> 3" using assms(1) by simp
  have plus: "3 + length tag + 1 = 4 + length tag" by simp
  have "drop (j + 1) (kProtocolPrefix @ tag @ kProtocolSep # rest) = drop (j + 1 - (4 + length tag)) rest"
    if "find_char kProtocolSep rest (4 + length tag) = Some j" for j
    using find_char_SomeD [OF that] by (intro header_drop) auto
  then show ?thesis
    unfolding SplitEnvelopeHeader_def header_first_sep [OF assms(2)]
    using header_pieces [of tag rest] ne
    by (auto simp: plus header_second_sep substr_def Let_def split: option.splits)
qed

lemma SplitEnvelopeHeader_Wrap:
  "SplitEnvelopeHeader (WrapEnvelopeHeader m body) (Some d) (Some b) = (True, Some m, Some body)"
proof -
  let ?v = "kVersionPrefix @ show_nat (unat (ProtocolWireVersion m))"
  have "kProtocolSep \<notin> set ?v" by (simp add: kVersionPrefix_def show_nat_no_sep)
  then have "find_char kProtocolSep (?v @ kProtocolSep # body) (4 + length (ProtocolTag m)) =
      Some (4 + length (ProtocolTag m) + length ?v)" by (rule find_char_append)
  moreover have "WrapEnvelopeHeader m body = kProtocolPrefix @ ProtocolTag m @ kProtocolSep # (?v @ kProtocolSep # body)"
    by (simp add: WrapEnvelopeHeader_def)
  ultimately show ?thesis
    using SplitEnvelopeHeader_cases [OF Tag_not_Nil Tag_no_sep, of m "?v @ kProtocolSep # body" d b] by simp
qed

section \<open>Frames\<close>

text \<open>A frame is read back to its payload, or ends the process, according to its length token.\<close>

lemma ParseWireFrame_cases:
  assumes "len \<noteq> []" "list_all is_digit len"
  shows "ParseWireFrame (pre @ len @ kProtocolSep # body) pre (Some c) =
     (case stoull len of None \<Rightarrow> Terminated
      | Some n \<Rightarrow> if length body = unat n then Completed (True, Some body) else Completed (False, Some c))"
proof -
  have "kProtocolSep \<notin> set len" using assms(2) digit_not_special by (auto simp: list_all_iff)
  from find_from_append [OF this, of pre body] assms show ?thesis
    by (simp add: ParseWireFrame_def substr_def Let_def split: option.splits)
qed

lemma ParseWireFrame_Build:
  assumes "length body < 2 ^ 64"
  shows "ParseWireFrame (BuildWireFrame pre body) pre (Some c) = Completed (True, Some body)"
proof -
  have "list_all is_digit (show_nat (length body))" by (auto simp: list_all_iff dest: show_nat_digits)
  moreover have "unat (of_nat (length body) :: u64) = length body"
    using assms by (simp add: unsigned_of_nat take_bit_nat_eq_self)
  ultimately show ?thesis using ParseWireFrame_cases [of "show_nat (length body)" pre body c] assms
    by (simp add: BuildWireFrame_def)
qed

section \<open>Round trip by mode\<close>

fun wire_view :: "MessageProtocolMode \<Rightarrow> MessageEnvelope \<Rightarrow> MessageEnvelope" where
  "wire_view kLegacyPipe e = legacy_view e"
| "wire_view m e = compact_view e"

definition wire_text :: "MessageProtocolMode \<Rightarrow> MessageEnvelope \<Rightarrow> string" where
  "wire_text m e = the (snd (EncodeByProtocol m e (Some [])))"

text \<open>The body fits in a \<^verbatim>\<open>std::size_t\<close>, as every \<^verbatim>\<open>std::string\<close> does.\<close>

definition body_fits :: "MessageEnvelope \<Rightarrow> bool" where
  "body_fits e \<longleftrightarrow> length (join_fields (compact_fields e)) < 2 ^ 64"

definition wire_body :: "MessageProtocolMode \<Rightarrow> MessageEnvelope \<Rightarrow> string" where
  "wire_body m e = the (snd (encode_body m e))"

lemma encode_body_ok: "encode_body m e = (kOk, Some (wire_body m e))"
  by (cases m) (simp_all add: wire_body_def encode_body_def Encode_def EncodeCompact_def)

lemma EncodeByProtocol_ok: "EncodeByProtocol m e (Some t) = (kOk, Some (wire_text m e))"
  by (simp add: wire_text_def EncodeByProtocol_def encode_body_ok)

lemma wire_text_Wrap: "wire_text m e = WrapEnvelopeHeader m (wire_body m e)"
  by (simp add: wire_text_def EncodeByProtocol_def encode_body_ok)

lemma wire_text_not_Nil: "wire_text m e \<noteq> []"
  by (simp add: wire_text_Wrap WrapEnvelopeHeader_def kProtocolPrefix_def)

lemma decode_once_body:
  assumes "schema_ok e" "body_fits e"
  shows "decode_once (wire_body m e) m (Some old) = Completed (kOk, Some (wire_view m e))"
  using assms legacy.dec_enc [of e old] compact.dec_enc [of e old]
    ParseWireFrame_Build [of "join_fields (compact_fields e)" _ "[]"]
  by (cases m) (simp_all add: decode_once_def wire_body_def encode_body_def Encode_def EncodeCompact_def body_fits_def)

lemma DecodeByProtocol_wire:
  assumes "schema_ok e" "body_fits e"
  shows "DecodeByProtocol m' (wire_text m e) (Some old) = Completed (kOk, Some (wire_view m e))"
  using decode_once_body [OF assms] wire_text_not_Nil [of m e]
  by (simp add: DecodeByProtocol_def wire_text_Wrap SplitEnvelopeHeader_Wrap)

text \<open>
  C20: round trip through the protocol layer. An envelope with an accepted schema version, encoded
  in any of the four modes, is decoded by a receiver in any of the four modes, and without ending
  the process, to the part of it the sender's mode carries: all but the idempotency key in legacy
  mode; neither source, target, trace id nor idempotency key in the other three.
\<close>

theorem protocol_roundtrip:
  assumes "schema_ok e" "body_fits e"
  shows "\<exists>s. EncodeByProtocol m e (Some t) = (kOk, Some s) \<and>
             DecodeByProtocol m' s (Some old) = Completed (kOk, Some (wire_view m e))"
  using EncodeByProtocol_ok DecodeByProtocol_wire [OF assms] by blast

theorem protocol_roundtrip_witness:
  "\<exists>s. EncodeByProtocol kCborReserved default_envelope (Some []) = (kOk, Some s) \<and>
     DecodeByProtocol kLegacyPipe s (Some default_envelope) = Completed (kOk, Some (wire_view kCborReserved default_envelope))"
proof (rule protocol_roundtrip)
  show "schema_ok default_envelope"
    by (simp add: schema_ok_def kSchemaVersionCompatBaseline_def default_envelope_def)
  show "body_fits default_envelope"
    by (simp add: body_fits_def compact_fields_def default_envelope_def show_nat.simps)
qed

lemma selfcheck_passes: "SelfCheckProtocolCapability mode = Completed True"
proof -
  have ok: "schema_ok selfcheck_envelope" "body_fits selfcheck_envelope"
    by (simp_all add: schema_ok_def kSchemaVersionCompatBaseline_def selfcheck_envelope_def
        default_envelope_def body_fits_def compact_fields_def show_nat.simps)
  have "topic (wire_view mode selfcheck_envelope) = topic selfcheck_envelope"
    "payload (wire_view mode selfcheck_envelope) = payload selfcheck_envelope"
    by (cases mode; simp add: legacy_view_def compact_view_def)+
  then show ?thesis
    by (simp add: SelfCheckProtocolCapability_def EncodeByProtocol_ok DecodeByProtocol_wire [OF ok])
qed

text \<open>
  The capability self-check succeeds for every protocol mode, so the metrics of the bridge
  report all four protocols as available.
\<close>

theorem SelfCheck_all_modes: "SelfCheckProtocolCapability mode = Completed True"
  by (rule selfcheck_passes)

section \<open>What a peer can do with a crafted text\<close>

text \<open>
  A length token beyond 64 bits ends the receiving process. Any text that declares the
  protobuf protocol and whose frame has a length of at least \<open>2^64\<close> makes \<^verbatim>\<open>std::stoul\<close> throw inside
  the \<^verbatim>\<open>noexcept\<close> function \<^verbatim>\<open>DecodeByProtocol\<close>, in every receiver mode.
\<close>

theorem oversized_length_terminates:
  assumes "list_all is_digit len" "2 ^ 64 \<le> digits_val len"
  shows "DecodeByProtocol mode
     (WrapEnvelopeHeader kProtobufReserved (kWireProtoV2Prefix @ len @ kProtocolSep # rest)) (Some old) = Terminated"
proof -
  have ne: "len \<noteq> []" using assms(2) by (auto simp: digits_val_def)
  obtain d r where len: "len = d # r" using ne by (cases len) auto
  with assms(1) have d: "\<not> is_space d" "d \<noteq> CHR ''-''" "d \<noteq> CHR ''+''"
    using digit_not_special [of d] by auto
  have "takeWhile is_digit len = len" using assms(1) by (simp add: takeWhile_eq_all_conv list_all_iff)
  with d assms(2) len have "stoull len = None" by (simp add: stoull_def Let_def)
  with ParseWireFrame_cases [OF ne assms(1), of kWireProtoV2Prefix rest "[]"]
  have "ParseWireFrame (kWireProtoV2Prefix @ len @ kProtocolSep # rest) kWireProtoV2Prefix (Some []) = Terminated"
    by simp
  moreover have "WrapEnvelopeHeader kProtobufReserved b \<noteq> []" for b
    by (simp add: WrapEnvelopeHeader_def kProtocolPrefix_def)
  ultimately show ?thesis
    by (simp add: DecodeByProtocol_def SplitEnvelopeHeader_Wrap decode_once_def)
qed

theorem oversized_length_terminates_witness:
  "DecodeByProtocol kLegacyPipe (WrapEnvelopeHeader kProtobufReserved
     (kWireProtoV2Prefix @ ''99999999999999999999'' @ kProtocolSep # ''x'')) (Some default_envelope) = Terminated"
  by (rule oversized_length_terminates) (simp_all add: is_digit_def digits_val_def digit_val_def)

text \<open>
  The older header form \<^verbatim>\<open>pm=<mode>;<payload>\<close>, which the header parser is documented to accept,
  is refused as soon as the payload holds a semicolon whose prefix does not start with \<^verbatim>\<open>pv=\<close>; the
  output is left alone.
\<close>

theorem old_header_semicolon_refused:
  assumes "tag \<noteq> []" "kProtocolSep \<notin> set tag" "kProtocolSep \<notin> set a" "\<not> prefix kVersionPrefix a"
  shows "DecodeByProtocol mode (kProtocolPrefix @ tag @ kProtocolSep # a @ kProtocolSep # b) (Some old)
     = Completed (kInvalidParam, Some old)"
proof -
  have "find_char kProtocolSep (a @ kProtocolSep # b) (4 + length tag) = Some (4 + length tag + length a)"
    using assms(3) by (rule find_char_append)
  with SplitEnvelopeHeader_cases [OF assms(1,2), of "a @ kProtocolSep # b" kLegacyPipe "[]"] assms(4)
  show ?thesis by (simp add: DecodeByProtocol_def kProtocolPrefix_def)
qed

theorem old_header_semicolon_refused_witness:
  "DecodeByProtocol kCompact ''pm=compact;1|event|best_effort|0|0|0|t|a;b'' (Some default_envelope)
     = Completed (kInvalidParam, Some default_envelope)"
  using old_header_semicolon_refused [of "''compact''" "''1|event|best_effort|0|0|0|t|a''" kCompact "''b''" default_envelope]
  by (simp add: kProtocolPrefix_def kVersionPrefix_def)

text \<open>Whatever the text, a decoding that completes leaves the cell alone or fills it with an accepted envelope.\<close>

lemma decode_once_cases:
  assumes "decode_once body m out = Completed (c, out')"
  shows "(c = kInvalidParam \<and> out' = out) \<or>
     (c = kOk \<and> out \<noteq> None \<and> (\<exists>e. out' = Some e \<and> schema_ok e \<and> idempotency_key e = []))"
proof -
  have D: "(c = kInvalidParam \<and> out' = out) \<or>
     (c = kOk \<and> out \<noteq> None \<and> (\<exists>e. out' = Some e \<and> schema_ok e \<and> idempotency_key e = []))"
    if "Decode t out = (c, out')" for t
    using Decode_cases [OF that] by auto
  show ?thesis
    using assms by (cases m) (auto simp: decode_once_def split: run.splits if_splits dest!: D)
qed

lemma DecodeByProtocol_cases:
  assumes "DecodeByProtocol m s out = Completed (c, out')"
  shows "(c = kInvalidParam \<and> out' = out) \<or>
     (c = kOk \<and> out \<noteq> None \<and> (\<exists>e. out' = Some e \<and> schema_ok e \<and> idempotency_key e = []))"
  using assms unfolding DecodeByProtocol_def
  by (auto split: if_splits prod.splits run.splits simp: Let_def dest!: decode_once_cases)

end
