(* ===== verification/Bridge_Policy.thy ===== *)
theory Bridge_Policy
  imports Message_Envelope
begin

text \<open>
  \<^verbatim>\<open>interconnect/bridge_policy.hpp\<close> and the policy resolution of
  \<^verbatim>\<open>interconnect/interconnect_bridge.cpp\<close>: rules, the index from topics to rules, the choice of the
  best matching rule of one layer, and the choice between the layers (runtime overrides, rules,
  templates, default).
\<close>

section \<open>Policies and rules\<close>

datatype BackpressurePolicy = bp_kReject | bp_kDropOldest

datatype DropPolicy = kDropNone | kDropNew | kDropOldest

fun backpressure_value :: "BackpressurePolicy \<Rightarrow> u8" where
  "backpressure_value bp_kReject = 0"
| "backpressure_value bp_kDropOldest = 1"

fun drop_value :: "DropPolicy \<Rightarrow> u8" where
  "drop_value kDropNone = 0"
| "drop_value kDropNew = 1"
| "drop_value kDropOldest = 2"

record RetryBudget =
  budget_max_retries :: int
  budget_initial_backoff_ms :: int
  budget_max_backoff_ms :: int

record BridgeSlaPolicy =
  max_end_to_end_latency_ms :: u32
  transport_receive_timeout_ms :: int
  transport_send_timeout_ms :: int
  backpressure_policy :: BackpressurePolicy
  drop_policy :: DropPolicy
  retry_budget :: RetryBudget
  enable_timeout_sleep :: bool
  receive_timeout_sleep_ms :: u32
  lock_policy :: bool

definition default_RetryBudget :: RetryBudget where
  "default_RetryBudget = \<lparr>budget_max_retries = 0, budget_initial_backoff_ms = 10, budget_max_backoff_ms = 200\<rparr>"

definition default_SlaPolicy :: BridgeSlaPolicy where
  "default_SlaPolicy = \<lparr>max_end_to_end_latency_ms = 100, transport_receive_timeout_ms = 50,
     transport_send_timeout_ms = 50, backpressure_policy = bp_kReject, drop_policy = kDropNone,
     retry_budget = default_RetryBudget, enable_timeout_sleep = True, receive_timeout_sleep_ms = 10,
     lock_policy = False\<rparr>"

record PolicyRule =
  priority :: u32
  match_any_channel :: bool
  rule_channel :: ChannelType
  match_any_source :: bool
  rule_source :: string
  match_any_target :: bool
  rule_target :: string
  match_any_qos :: bool
  rule_qos :: DeliveryQoS
  rule_topic :: string
  policy :: BridgeSlaPolicy

definition default_PolicyRule :: PolicyRule where
  "default_PolicyRule = \<lparr>priority = 0, match_any_channel = True, rule_channel = kEvent,
     match_any_source = True, rule_source = [], match_any_target = True, rule_target = [],
     match_any_qos = True, rule_qos = kBestEffort, rule_topic = [], policy = default_SlaPolicy\<rparr>"

type_synonym topic_index = "string \<rightharpoonup> nat list"

record BridgePolicyTable =
  default_policy :: BridgeSlaPolicy
  template_rules :: "PolicyRule list"
  rules :: "PolicyRule list"
  runtime_overrides :: "PolicyRule list"
  template_topic_rule_index :: topic_index
  topic_rule_index :: topic_index
  override_topic_rule_index :: topic_index

section \<open>Matching\<close>

abbreviation wildcard_topic :: "string \<Rightarrow> bool" where
  "wildcard_topic t \<equiv> t = [] \<or> t = ''*''"

definition RuleMatches :: "PolicyRule \<Rightarrow> MessageEnvelope \<Rightarrow> bool" where
  "RuleMatches rule envelope =
     (if \<not> match_any_channel rule \<and> rule_channel rule \<noteq> channel envelope then False
      else if \<not> match_any_source rule \<and> rule_source rule \<noteq> source envelope then False
      else if \<not> match_any_target rule \<and> rule_target rule \<noteq> target envelope then False
      else if \<not> match_any_qos rule \<and> rule_qos rule \<noteq> qos envelope then False
      else if rule_topic rule \<noteq> [] \<and> rule_topic rule \<noteq> ''*'' \<and> rule_topic rule \<noteq> topic envelope then False
      else True)"

text \<open>The overload on two rules: can one envelope match both?\<close>

definition RulesOverlap :: "PolicyRule \<Rightarrow> PolicyRule \<Rightarrow> bool" where
  "RulesOverlap left right =
     (if \<not> match_any_channel left \<and> \<not> match_any_channel right \<and> rule_channel left \<noteq> rule_channel right then False
      else if \<not> match_any_source left \<and> \<not> match_any_source right \<and> rule_source left \<noteq> rule_source right then False
      else if \<not> match_any_target left \<and> \<not> match_any_target right \<and> rule_target left \<noteq> rule_target right then False
      else if \<not> match_any_qos left \<and> \<not> match_any_qos right \<and> rule_qos left \<noteq> rule_qos right then False
      else if rule_topic left \<noteq> [] \<and> rule_topic left \<noteq> ''*'' \<and> rule_topic right \<noteq> []
        \<and> rule_topic right \<noteq> ''*'' \<and> rule_topic left \<noteq> rule_topic right then False
      else True)"

section \<open>The topic index\<close>

text \<open>The loop of \<^verbatim>\<open>index_rules\<close>: the rules left, the position of the first of them, the index so far.\<close>

fun index_loop :: "PolicyRule list \<Rightarrow> nat \<Rightarrow> topic_index \<Rightarrow> topic_index" where
  "index_loop [] i index = index"
| "index_loop (rule # rs) i index =
     index_loop rs (Suc i)
       (if rule_topic rule \<noteq> [] \<and> rule_topic rule \<noteq> ''*''
        then index(rule_topic rule \<mapsto> (case index (rule_topic rule) of None \<Rightarrow> [i] | Some is \<Rightarrow> is @ [i]))
        else index)"

definition index_rules :: "PolicyRule list \<Rightarrow> topic_index" where
  "index_rules rs = index_loop rs 0 Map.empty"

text \<open>The part of \<^verbatim>\<open>RebuildPolicyIndex\<close> that writes the table; clearing the caches is in the bridge.\<close>

definition rebuild_index :: "BridgePolicyTable \<Rightarrow> BridgePolicyTable" where
  "rebuild_index table =
     table\<lparr>template_topic_rule_index := index_rules (template_rules table),
           topic_rule_index := index_rules (rules table),
           override_topic_rule_index := index_rules (runtime_overrides table)\<rparr>"

section \<open>The best rule of one layer\<close>

text \<open>
  The loop over the candidate positions: the best policy so far (\<^verbatim>\<open>nullptr\<close> is \<open>None\<close>), its priority,
  and whether another rule of that priority matched.
\<close>

fun best_loop ::
  "PolicyRule list \<Rightarrow> MessageEnvelope \<Rightarrow> nat list \<Rightarrow> BridgeSlaPolicy option \<Rightarrow> u32 \<Rightarrow> bool
     \<Rightarrow> BridgeSlaPolicy option \<times> u32 \<times> bool" where
  "best_loop rs envelope [] best_policy best_priority conflict = (best_policy, best_priority, conflict)"
| "best_loop rs envelope (i # is) best_policy best_priority conflict =
     (if i \<ge> length rs then best_loop rs envelope is best_policy best_priority conflict
      else
        let rule = rs ! i in
        if \<not> RuleMatches rule envelope then best_loop rs envelope is best_policy best_priority conflict
        else if best_policy = None \<or> priority rule > best_priority
        then best_loop rs envelope is (Some (policy rule)) (priority rule) False
        else if priority rule = best_priority
        then best_loop rs envelope is best_policy best_priority True
        else best_loop rs envelope is best_policy best_priority conflict)"

definition candidate_indices :: "PolicyRule list \<Rightarrow> topic_index \<Rightarrow> MessageEnvelope \<Rightarrow> nat list" where
  "candidate_indices rs index envelope =
     (case index (topic envelope) of Some is \<Rightarrow> is | None \<Rightarrow> [0..<length rs])"

text \<open>The output pointers are cells: \<open>None\<close> is \<^verbatim>\<open>nullptr\<close>.\<close>

definition FindBestPolicyMatch ::
  "PolicyRule list \<Rightarrow> topic_index \<Rightarrow> MessageEnvelope \<Rightarrow> u32 option \<Rightarrow> bool option
     \<Rightarrow> BridgeSlaPolicy option \<times> u32 option \<times> bool option" where
  "FindBestPolicyMatch rs index envelope out_priority out_conflict_detected =
     (if out_priority = None \<or> out_conflict_detected = None
      then (None, out_priority, out_conflict_detected)
      else case best_loop rs envelope (candidate_indices rs index envelope) None 0 False of
        (best_policy, best_priority, conflict) \<Rightarrow> (best_policy, Some best_priority, Some conflict))"

abbreviation find_best ::
  "PolicyRule list \<Rightarrow> topic_index \<Rightarrow> MessageEnvelope \<Rightarrow> BridgeSlaPolicy option \<times> u32 \<times> bool" where
  "find_best rs index envelope \<equiv>
     (case FindBestPolicyMatch rs index envelope (Some 0) (Some False) of (p, pr, c) \<Rightarrow> (p, the pr, the c))"

section \<open>The layers\<close>

text \<open>The result: the policy, whether an override was applied, whether a conflict was seen.\<close>

definition ResolvePolicyInternal ::
  "BridgePolicyTable \<Rightarrow> MessageEnvelope \<Rightarrow> BridgeSlaPolicy \<times> bool \<times> bool" where
  "ResolvePolicyInternal table envelope =
     (let (override_policy, override_priority, override_conflict) =
            find_best (runtime_overrides table) (override_topic_rule_index table) envelope;
          (rule_policy, rule_priority, rule_conflict) =
            find_best (rules table) (topic_rule_index table) envelope;
          (template_policy, template_priority, template_conflict) =
            find_best (template_rules table) (template_topic_rule_index table) envelope;
          override_applied = (override_policy \<noteq> None);
          selected =
            (case override_policy of Some p \<Rightarrow> Some p
             | None \<Rightarrow> (case rule_policy of Some p \<Rightarrow> Some p | None \<Rightarrow> template_policy));
          conflict =
            (override_conflict \<or> rule_conflict \<or> template_conflict
             \<or> (override_policy \<noteq> None \<and> rule_policy \<noteq> None \<and> override_priority < rule_priority)
             \<or> (override_policy \<noteq> None \<and> template_policy \<noteq> None \<and> override_priority < template_priority)
             \<or> (rule_policy \<noteq> None \<and> template_policy \<noteq> None \<and> rule_priority < template_priority))
      in (case selected of Some p \<Rightarrow> p | None \<Rightarrow> default_policy table, override_applied, conflict))"

section \<open>Default templates\<close>

text \<open>
  The source defines \<^verbatim>\<open>PopulateDefaultTemplateRules\<close> twice, with control rules that differ in their
  drop policy. Everything that calls it takes the choice of the body as an argument.
\<close>

datatype template_body = FirstBody | SecondBody

definition control_rule :: "template_body \<Rightarrow> PolicyRule" where
  "control_rule body =
     default_PolicyRule\<lparr>priority := 10, match_any_channel := False, rule_channel := kControl, rule_topic := ''*'',
       policy := (case body of
          FirstBody \<Rightarrow> default_SlaPolicy\<lparr>max_end_to_end_latency_ms := 50,
             backpressure_policy := bp_kDropOldest, drop_policy := kDropOldest\<rparr>
        | SecondBody \<Rightarrow> default_SlaPolicy\<lparr>max_end_to_end_latency_ms := 50,
             backpressure_policy := bp_kDropOldest\<rparr>)\<rparr>"

definition telemetry_rule :: PolicyRule where
  "telemetry_rule =
     default_PolicyRule\<lparr>priority := 5, match_any_channel := False, rule_channel := kTelemetry, rule_topic := ''*'',
       policy := default_SlaPolicy\<lparr>max_end_to_end_latency_ms := 150, backpressure_policy := bp_kReject\<rparr>\<rparr>"

definition PopulateDefaultTemplateRules :: "template_body \<Rightarrow> BridgePolicyTable \<Rightarrow> BridgePolicyTable" where
  "PopulateDefaultTemplateRules body table =
     (if template_rules table \<noteq> [] then table
      else table\<lparr>template_rules := [control_rule body, telemetry_rule]\<rparr>)"

section \<open>The signature of a table\<close>

unbundle bit_operations_syntax

definition HashCombine :: "u64 \<Rightarrow> u64 \<Rightarrow> u64" where
  "HashCombine seed v = seed XOR (v + 0x9e3779b97f4a7c15 + push_bit 6 seed + drop_bit 2 seed)"

definition of_flag :: "bool \<Rightarrow> u64" where
  "of_flag b = (if b then 1 else 0)"

text \<open>The words hashed for a policy, in the order of the calls.\<close>

definition policy_words :: "BridgeSlaPolicy \<Rightarrow> u64 list" where
  "policy_words p =
     [ucast (max_end_to_end_latency_ms p), of_int (transport_receive_timeout_ms p),
      of_int (transport_send_timeout_ms p), ucast (backpressure_value (backpressure_policy p)),
      ucast (drop_value (drop_policy p)), of_int (budget_max_retries (retry_budget p)),
      of_int (budget_initial_backoff_ms (retry_budget p)), of_int (budget_max_backoff_ms (retry_budget p))]"

text \<open>\<open>hash\<close> is \<^verbatim>\<open>std::hash<std::string>\<close>, which the C++ standard leaves to the implementation.\<close>

definition rule_words :: "(string \<Rightarrow> u64) \<Rightarrow> PolicyRule \<Rightarrow> u64 list" where
  "rule_words hash r =
     [ucast (priority r), of_flag (match_any_channel r), ucast (channel_value (rule_channel r)),
      of_flag (match_any_source r), hash (rule_source r), of_flag (match_any_target r),
      hash (rule_target r), of_flag (match_any_qos r), ucast (qos_value (rule_qos r)), hash (rule_topic r)]
     @ policy_words (policy r)"

definition ComputePolicySignature :: "(string \<Rightarrow> u64) \<Rightarrow> BridgePolicyTable \<Rightarrow> u64" where
  "ComputePolicySignature hash table =
     foldl HashCombine 0
       (policy_words (default_policy table)
        @ concat (map (rule_words hash) (template_rules table))
        @ concat (map (rule_words hash) (rules table))
        @ concat (map (rule_words hash) (runtime_overrides table)))"

end
