(* ===== verification/Policy_Resolution.thy ===== *)
theory Policy_Resolution
  imports Bridge_Policy
begin

text \<open>
  Correctness of the policy resolution: the index holds the positions of the rules of each topic,
  the loop finds the first rule of highest priority among the candidates that match, and the layers
  are consulted in the order override, rule, template, default.
\<close>

section \<open>The index\<close>

lemma index_loop_spec:
  "index_loop rs i m t =
     (if wildcard_topic t \<or> t \<notin> rule_topic ` set rs then m t
      else Some ((case m t of None \<Rightarrow> [] | Some is \<Rightarrow> is)
                 @ filter (\<lambda>k. rule_topic (rs ! (k - i)) = t) [i..<i + length rs]))"
proof (induction rs arbitrary: i m)
  case (Cons r rs)
  have upt: "[i..<i + length (r # rs)] = i # [Suc i..<Suc i + length rs]"
    using upt_conv_Cons [of i "i + length (r # rs)"] by (simp del: upt_Suc)
  have shift: "filter (\<lambda>k. rule_topic ((r # rs) ! (k - i)) = t) [Suc i..<Suc i + length rs] =
      filter (\<lambda>k. rule_topic (rs ! (k - Suc i)) = t) [Suc i..<Suc i + length rs]"
    by (rule filter_cong) (auto simp: nth_Cons diff_Suc split: nat.splits)
  have none: "filter (\<lambda>k. rule_topic (rs ! (k - Suc i)) = t) [Suc i..<Suc i + length rs] = []"
    if "t \<notin> rule_topic ` set rs"
  proof -
    have "rule_topic (rs ! (k - Suc i)) \<noteq> t" if "k \<in> set [Suc i..<Suc i + length rs]" for k
      using that \<open>t \<notin> rule_topic ` set rs\<close> by (metis add_diff_inverse_nat atLeastLessThan_iff image_eqI
          nat_add_left_cancel_less not_less nth_mem set_upt)
    then show ?thesis by (simp add: filter_empty_conv)
  qed
  define m' where "m' = (if rule_topic r \<noteq> [] \<and> rule_topic r \<noteq> ''*''
     then m(rule_topic r \<mapsto> (case m (rule_topic r) of None \<Rightarrow> [i] | Some is \<Rightarrow> is @ [i])) else m)"
  have m't: "m' t = (if \<not> wildcard_topic t \<and> rule_topic r = t
     then Some ((case m t of None \<Rightarrow> [] | Some is \<Rightarrow> is) @ [i]) else m t)"
    by (auto simp: m'_def split: option.splits)
  have step: "index_loop (r # rs) i m = index_loop rs (Suc i) m'" by (simp add: m'_def)
  have first: "filter (\<lambda>k. rule_topic ((r # rs) ! (k - i)) = t) (i # ks) =
     (if rule_topic r = t then [i] else []) @ filter (\<lambda>k. rule_topic ((r # rs) ! (k - i)) = t) ks" for ks
    by simp
  show ?case
  proof (cases "wildcard_topic t \<or> t \<notin> rule_topic ` set rs")
    case True
    then show ?thesis unfolding step Cons.IH upt first shift
      using none by (cases "wildcard_topic t") (auto simp: m't simp del: upt_Suc)
  next
    case False
    then show ?thesis unfolding step Cons.IH upt first shift by (simp add: m't)
  qed
qed simp

text \<open>The rules the index sends a topic to: those of that topic, or all of them when it has none.\<close>

definition candidates :: "PolicyRule list \<Rightarrow> MessageEnvelope \<Rightarrow> PolicyRule list" where
  "candidates rs e =
     (if \<not> wildcard_topic (topic e) \<and> topic e \<in> rule_topic ` set rs
      then filter (\<lambda>r. rule_topic r = topic e) rs else rs)"

lemma filter_upt_nth: "map ((!) xs) (filter (\<lambda>k. P (xs ! k)) [0..<length xs]) = filter P xs"
  by (metis (no_types, lifting) comp_apply filter_cong filter_map map_nth)

lemma candidate_indices_bound: "k \<in> set (candidate_indices rs (index_rules rs) e) \<Longrightarrow> k < length rs"
  by (auto simp: candidate_indices_def index_rules_def index_loop_spec split: if_splits option.splits)

lemma candidate_indices_rules:
  "map ((!) rs) (candidate_indices rs (index_rules rs) e) = candidates rs e"
  using filter_upt_nth [of rs "\<lambda>r. rule_topic r = topic e"]
  by (simp add: candidate_indices_def index_rules_def index_loop_spec candidates_def map_nth)

section \<open>The best rule\<close>

fun best_rule :: "PolicyRule list \<Rightarrow> PolicyRule option" where
  "best_rule [] = None"
| "best_rule (r # rs) =
     (case best_rule rs of None \<Rightarrow> Some r | Some b \<Rightarrow> if priority r < priority b then Some b else Some r)"

lemma best_rule_None [simp]: "best_rule rs = None \<longleftrightarrow> rs = []"
  by (cases rs) (auto split: option.splits)

text \<open>It is the first rule whose priority no other exceeds.\<close>

lemma best_rule_iff:
  "best_rule rs = Some b \<longleftrightarrow>
     (\<exists>xs ys. rs = xs @ b # ys \<and> (\<forall>r \<in> set xs. priority r < priority b) \<and> (\<forall>r \<in> set ys. priority r \<le> priority b))"
proof (induction rs arbitrary: b)
  case (Cons r rs)
  show ?case
  proof (cases "best_rule rs")
    case None
    then show ?thesis by (auto simp: Cons_eq_append_conv)
  next
    case (Some c)
    then obtain xs ys where c: "rs = xs @ c # ys" "\<forall>r \<in> set xs. priority r < priority c"
      "\<forall>r \<in> set ys. priority r \<le> priority c" using Cons.IH by blast
    show ?thesis
    proof (cases "priority r < priority c")
      case True
      with Some c(1) have eq: "best_rule (r # rs) = Some b \<longleftrightarrow> best_rule rs = Some b" by simp
      show ?thesis unfolding eq Cons.IH
      proof (intro iffI; elim exE conjE)
        fix us vs assume h: "rs = us @ b # vs" "\<forall>r \<in> set us. priority r < priority b" "\<forall>r \<in> set vs. priority r \<le> priority b"
        then have "best_rule rs = Some b" using Cons.IH by blast
        with Some True have "priority r < priority b" by simp
        with h show "\<exists>xs ys. r # rs = xs @ b # ys \<and> (\<forall>r \<in> set xs. priority r < priority b) \<and> (\<forall>r \<in> set ys. priority r \<le> priority b)"
          by (intro exI [of _ "r # us"] exI [of _ vs]) auto
      next
        fix us vs assume h: "r # rs = us @ b # vs" "\<forall>r \<in> set us. priority r < priority b" "\<forall>r \<in> set vs. priority r \<le> priority b"
        have "c \<in> set rs" using c(1) by simp
        with h True have "us \<noteq> []" by (cases us) (auto simp: not_le [symmetric])
        with h show "\<exists>xs ys. rs = xs @ b # ys \<and> (\<forall>r \<in> set xs. priority r < priority b) \<and> (\<forall>r \<in> set ys. priority r \<le> priority b)"
          by (cases us) auto
      qed
    next
      case False
      have le: "\<forall>x \<in> set rs. priority x \<le> priority r"
        using c False by (fastforce simp: not_less)
      show ?thesis
      proof (intro iffI; (elim exE conjE)?)
        assume "best_rule (r # rs) = Some b"
        with Some False have "b = r" by simp
        with le show "\<exists>xs ys. r # rs = xs @ b # ys \<and> (\<forall>r \<in> set xs. priority r < priority b) \<and> (\<forall>r \<in> set ys. priority r \<le> priority b)"
          by (intro exI [of _ "[]"] exI [of _ rs]) auto
      next
        fix us vs assume h: "r # rs = us @ b # vs" "\<forall>r \<in> set us. priority r < priority b"
        have "us = []"
        proof (rule ccontr)
          assume "us \<noteq> []"
          with h obtain us' where "us = r # us'" "b \<in> set rs" by (cases us) auto
          with h(2) le show False by (auto simp: not_less [symmetric])
        qed
        with h(1) Some False show "best_rule (r # rs) = Some b" by simp
      qed
    qed
  qed
qed simp

lemma best_rule_snoc:
  "best_rule (P @ [r]) =
     (case best_rule P of None \<Rightarrow> Some r | Some b \<Rightarrow> if priority b < priority r then Some r else Some b)"
  by (induction P) (auto split: option.splits)

lemma best_rule_max: "best_rule P = Some b \<Longrightarrow> r \<in> set P \<Longrightarrow> priority r \<le> priority b"
  by (fastforce simp: best_rule_iff order_le_less)

lemma best_rule_mem: "best_rule P = Some b \<Longrightarrow> b \<in> set P"
  by (auto simp: best_rule_iff)

definition best_priority_of :: "PolicyRule list \<Rightarrow> u32" where
  "best_priority_of P = (case best_rule P of None \<Rightarrow> 0 | Some b \<Rightarrow> priority b)"

lemma best_priority_of_Nil [simp]: "best_priority_of [] = 0"
  by (simp add: best_priority_of_def)

definition tied :: "PolicyRule list \<Rightarrow> bool" where
  "tied P \<longleftrightarrow> 2 \<le> length (filter (\<lambda>r. priority r = best_priority_of P) P)"

lemma tied_snoc:
  "tied (P @ [r]) =
     (if best_rule P = None \<or> best_priority_of P < priority r then False
      else if priority r = best_priority_of P then True else tied P)"
proof (cases "best_rule P")
  case (Some b)
  then have b: "b \<in> set P" "best_priority_of P = priority b"
    by (auto simp: best_priority_of_def dest: best_rule_mem)
  show ?thesis
  proof (cases "priority b < priority r")
    case True
    then have "filter (\<lambda>x. priority x = priority r) P = []"
      using best_rule_max [OF Some] by (fastforce simp: filter_empty_conv)
    with True Some show ?thesis by (simp add: tied_def best_priority_of_def best_rule_snoc)
  next
    case False
    then have same: "best_priority_of (P @ [r]) = priority b"
      using Some by (simp add: best_priority_of_def best_rule_snoc)
    have "filter (\<lambda>x. priority x = priority b) P \<noteq> []" using b(1) by (auto simp: filter_empty_conv)
    then have "1 \<le> length (filter (\<lambda>x. priority x = priority b) P)" by (simp add: Suc_le_eq)
    with False Some b(2) same show ?thesis by (auto simp: tied_def)
  qed
qed (simp add: tied_def)

lemma tied_small [simp]: "\<not> tied []" "\<not> tied [r]"
  by (simp_all add: tied_def)

lemma best_loop_spec:
  assumes "\<forall>i \<in> set is. i < length rs"
  shows "best_loop rs e is (map_option policy (best_rule P)) (best_priority_of P) (tied P) =
     (let Q = P @ filter (\<lambda>r. RuleMatches r e) (map ((!) rs) is) in
       (map_option policy (best_rule Q), best_priority_of Q, tied Q))"
  using assms
proof (induction "is" arbitrary: P)
  case (Cons i "is")
  let ?r = "rs ! i"
  show ?case
  proof (cases "RuleMatches ?r e")
    case True
    have step: "best_loop rs e (i # is) (map_option policy (best_rule P)) (best_priority_of P) (tied P) =
        best_loop rs e is (map_option policy (best_rule (P @ [?r]))) (best_priority_of (P @ [?r])) (tied (P @ [?r]))"
      using True Cons.prems
      by (cases "best_rule P") (auto simp: Let_def best_rule_snoc tied_snoc best_priority_of_def)
    show ?thesis unfolding step using Cons.IH [of "P @ [?r]"] Cons.prems True by simp
  next
    case False
    then show ?thesis using Cons.IH [of P] Cons.prems by (simp add: Let_def)
  qed
qed simp

abbreviation matching :: "PolicyRule list \<Rightarrow> MessageEnvelope \<Rightarrow> PolicyRule list" where
  "matching rs e \<equiv> filter (\<lambda>r. RuleMatches r e) (candidates rs e)"

lemma FindBest_indexed:
  "FindBestPolicyMatch rs (index_rules rs) e (Some p0) (Some c0) =
     (map_option policy (best_rule (matching rs e)), Some (best_priority_of (matching rs e)), Some (tied (matching rs e)))"
proof -
  have "best_loop rs e (candidate_indices rs (index_rules rs) e) None 0 False =
      (map_option policy (best_rule (matching rs e)), best_priority_of (matching rs e), tied (matching rs e))"
    using best_loop_spec [of "candidate_indices rs (index_rules rs) e" rs e "[]"] candidate_indices_bound
    by (simp add: candidate_indices_rules Let_def)
  then show ?thesis by (simp add: FindBestPolicyMatch_def)
qed

text \<open>
  C23: the choice inside one layer. With the index built from the rules, the search returns the
  policy of the first rule of highest priority among the matching candidates (the rules of exactly
  the envelope's topic if there are any, all rules otherwise), that priority, and a conflict flag
  that is set exactly when another matching candidate has the same priority; with no matching
  candidate it returns no policy, priority zero and no conflict.
\<close>

theorem FindBestPolicyMatch_spec:
  "\<exists>p pr c. FindBestPolicyMatch rs (index_rules rs) e (Some p0) (Some c0) = (p, Some pr, Some c) \<and>
     (case p of
        None \<Rightarrow> (\<forall>r \<in> set (candidates rs e). \<not> RuleMatches r e) \<and> pr = 0 \<and> \<not> c
      | Some pol \<Rightarrow>
          (\<exists>xs b ys. matching rs e = xs @ b # ys \<and> pol = policy b \<and> pr = priority b \<and>
             (\<forall>r \<in> set xs. priority r < pr) \<and> (\<forall>r \<in> set ys. priority r \<le> pr) \<and>
             (c \<longleftrightarrow> (\<exists>r \<in> set ys. priority r = pr))))"
proof (cases "best_rule (matching rs e)")
  case None
  then show ?thesis
    unfolding FindBest_indexed
    by (intro exI [of _ None] exI [of _ 0] exI [of _ False]) (auto simp: best_priority_of_def filter_empty_conv)
next
  case (Some b)
  then obtain xs ys where M: "matching rs e = xs @ b # ys"
    "\<forall>r \<in> set xs. priority r < priority b" "\<forall>r \<in> set ys. priority r \<le> priority b"
    unfolding best_rule_iff by blast
  have xs: "filter (\<lambda>r. priority r = priority b) xs = []" using M(2) by (auto simp: filter_empty_conv)
  have "tied (matching rs e) \<longleftrightarrow> (\<exists>r \<in> set ys. priority r = priority b)"
    using Some xs M(1) by (auto simp: tied_def best_priority_of_def Suc_le_eq filter_empty_conv)
  with Some M show ?thesis by (auto simp: FindBest_indexed best_priority_of_def)
qed

definition brake_low :: PolicyRule where
  "brake_low = default_PolicyRule\<lparr>rule_topic := ''brake''\<rparr>"

definition brake_high :: PolicyRule where
  "brake_high = default_PolicyRule\<lparr>rule_topic := ''brake'', priority := 9\<rparr>"

definition brake_envelope :: MessageEnvelope where
  "brake_envelope = default_envelope\<lparr>topic := ''brake''\<rparr>"

theorem FindBestPolicyMatch_spec_witness:
  "matching [brake_low, brake_high] brake_envelope = [brake_low, brake_high] \<and>
   (\<exists>p. FindBestPolicyMatch [brake_low, brake_high] (index_rules [brake_low, brake_high]) brake_envelope (Some 0) (Some False) =
      (Some p, Some 9, Some False))"
proof -
  have m: "matching [brake_low, brake_high] brake_envelope = [brake_low, brake_high]"
    by (simp add: candidates_def RuleMatches_def brake_low_def brake_high_def brake_envelope_def
        default_PolicyRule_def default_envelope_def)
  have p: "priority brake_low = 0" "priority brake_high = 9" by (simp_all add: brake_low_def brake_high_def default_PolicyRule_def)
  show ?thesis
    using FindBestPolicyMatch_spec [of "[brake_low, brake_high]" brake_envelope 0 False] m
    unfolding FindBest_indexed m by (simp add: p best_priority_of_def tied_def)
qed

text \<open>
  The index is not a pure optimisation. As soon as one rule of a layer names the topic of an
  envelope, the layer's wildcard rules are no longer considered for it: if none of the rules that
  name the topic matches, the layer selects nothing, although a wildcard rule of the same layer may
  match the envelope.
\<close>

theorem index_hides_wildcard_rules:
  assumes "x \<in> set rs" "rule_topic x = topic e" "\<not> wildcard_topic (topic e)"
    "\<forall>r \<in> set rs. rule_topic r = topic e \<longrightarrow> \<not> RuleMatches r e"
  shows "FindBestPolicyMatch rs (index_rules rs) e (Some p0) (Some c0) = (None, Some 0, Some False)"
proof -
  have "topic e \<in> rule_topic ` set rs" using assms(1,2) by force
  then have "matching rs e = []" using assms(3,4) by (auto simp: candidates_def filter_empty_conv)
  then show ?thesis by (simp only: FindBest_indexed) (simp add: best_priority_of_def tied_def)
qed

theorem index_hides_wildcard_rules_witness:
  "let exact = default_PolicyRule\<lparr>rule_topic := ''brake'', match_any_channel := False, rule_channel := kTelemetry\<rparr>;
       wild = default_PolicyRule\<lparr>priority := 9\<rparr>;
       e = default_envelope\<lparr>topic := ''brake'', channel := kControl\<rparr>
   in RuleMatches wild e \<and>
      FindBestPolicyMatch [exact, wild] (index_rules [exact, wild]) e (Some 0) (Some False) = (None, Some 0, Some False)"
  using index_hides_wildcard_rules [of
      "default_PolicyRule\<lparr>rule_topic := ''brake'', match_any_channel := False, rule_channel := kTelemetry\<rparr>"
      "[default_PolicyRule\<lparr>rule_topic := ''brake'', match_any_channel := False, rule_channel := kTelemetry\<rparr>,
        default_PolicyRule\<lparr>priority := 9\<rparr>]"
      "default_envelope\<lparr>topic := ''brake'', channel := kControl\<rparr>" 0 False]
  by (simp add: RuleMatches_def default_PolicyRule_def default_envelope_def)

section \<open>The layers\<close>

lemma find_best_indexed:
  "find_best rs (index_rules rs) e = (map_option policy (best_rule (matching rs e)), best_priority_of (matching rs e), tied (matching rs e))"
  by (simp add: FindBest_indexed)

text \<open>
  C22: the choice between the layers. On a table whose index was rebuilt, the policy resolved is
  that of the best matching runtime override if one matches, else of the best matching rule, else of
  the best matching template, else the default policy; priorities are compared only inside a layer.
  The override flag tells whether an override decided.
\<close>

theorem ResolvePolicyInternal_layers:
  "fst (ResolvePolicyInternal (rebuild_index t) e) =
     (case best_rule (matching (runtime_overrides t) e) of Some r \<Rightarrow> policy r
      | None \<Rightarrow> (case best_rule (matching (rules t) e) of Some r \<Rightarrow> policy r
      | None \<Rightarrow> (case best_rule (matching (template_rules t) e) of Some r \<Rightarrow> policy r
      | None \<Rightarrow> default_policy t))) \<and>
   (fst (snd (ResolvePolicyInternal (rebuild_index t) e)) \<longleftrightarrow>
      (\<exists>r \<in> set (candidates (runtime_overrides t) e). RuleMatches r e))"
proof -
  have "(best_rule (matching (runtime_overrides t) e) \<noteq> None) \<longleftrightarrow>
      (\<exists>r \<in> set (candidates (runtime_overrides t) e). RuleMatches r e)"
    by (simp add: filter_empty_conv del: not_None_eq)
  then show ?thesis
    by (simp add: ResolvePolicyInternal_def rebuild_index_def find_best_indexed Let_def
        del: best_rule_None split: option.splits)
qed

section \<open>Overlap of two rules\<close>

lemma RuleMatches_iff:
  "RuleMatches r e \<longleftrightarrow> (match_any_channel r \<or> rule_channel r = channel e) \<and> (match_any_source r \<or> rule_source r = source e)
     \<and> (match_any_target r \<or> rule_target r = target e) \<and> (match_any_qos r \<or> rule_qos r = qos e)
     \<and> (wildcard_topic (rule_topic r) \<or> rule_topic r = topic e)"
  by (simp add: RuleMatches_def)

lemma RulesOverlap_iff:
  "RulesOverlap l r \<longleftrightarrow>
     (match_any_channel l \<or> match_any_channel r \<or> rule_channel l = rule_channel r)
   \<and> (match_any_source l \<or> match_any_source r \<or> rule_source l = rule_source r)
   \<and> (match_any_target l \<or> match_any_target r \<or> rule_target l = rule_target r)
   \<and> (match_any_qos l \<or> match_any_qos r \<or> rule_qos l = rule_qos r)
   \<and> (wildcard_topic (rule_topic l) \<or> wildcard_topic (rule_topic r) \<or> rule_topic l = rule_topic r)"
  by (simp add: RulesOverlap_def)

text \<open>
  The overlap test of the policy lint is exact: two rules are reported as overlapping if and
  only if some envelope matches both of them.
\<close>

theorem RulesOverlap_exact: "RulesOverlap l r \<longleftrightarrow> (\<exists>e. RuleMatches l e \<and> RuleMatches r e)"
proof
  assume overlap: "RulesOverlap l r"
  define e where "e = default_envelope\<lparr>
     channel := (if match_any_channel l then rule_channel r else rule_channel l),
     source := (if match_any_source l then rule_source r else rule_source l),
     target := (if match_any_target l then rule_target r else rule_target l),
     qos := (if match_any_qos l then rule_qos r else rule_qos l),
     topic := (if wildcard_topic (rule_topic l) then rule_topic r else rule_topic l)\<rparr>"
  have "RuleMatches l e" by (simp add: RuleMatches_iff e_def)
  moreover have "RuleMatches r e" using overlap unfolding RulesOverlap_iff RuleMatches_iff
    by (elim conjE, intro conjI) (auto simp: e_def)
  ultimately show "\<exists>e. RuleMatches l e \<and> RuleMatches r e" by blast
next
  assume "\<exists>e. RuleMatches l e \<and> RuleMatches r e"
  then show "RulesOverlap l r"
    unfolding RulesOverlap_iff RuleMatches_iff by (elim exE conjE, intro conjI; metis)
qed

section \<open>What a resolution depends on\<close>

text \<open>Tables none of whose rules looks at the source or the target of an envelope.\<close>

definition endpoint_blind :: "BridgePolicyTable \<Rightarrow> bool" where
  "endpoint_blind t \<longleftrightarrow>
     list_all (\<lambda>r. match_any_source r \<and> match_any_target r) (runtime_overrides t @ rules t @ template_rules t)"

lemma RuleMatches_blind:
  "match_any_source r \<Longrightarrow> match_any_target r \<Longrightarrow> topic e = topic e' \<Longrightarrow> channel e = channel e' \<Longrightarrow>
     qos e = qos e' \<Longrightarrow> RuleMatches r e = RuleMatches r e'"
  by (simp add: RuleMatches_def)

lemma best_loop_blind:
  assumes "list_all (\<lambda>r. match_any_source r \<and> match_any_target r) rs"
    "topic e = topic e'" "channel e = channel e'" "qos e = qos e'"
  shows "best_loop rs e is b p c = best_loop rs e' is b p c"
proof (induction "is" arbitrary: b p c)
  case (Cons i "is")
  have "RuleMatches (rs ! i) e = RuleMatches (rs ! i) e'" if "i < length rs"
    using assms that by (intro RuleMatches_blind) (auto simp: list_all_length)
  then show ?case using Cons.IH by (simp add: Let_def)
qed simp

lemma find_best_blind:
  assumes "list_all (\<lambda>r. match_any_source r \<and> match_any_target r) rs"
    "topic e = topic e'" "channel e = channel e'" "qos e = qos e'"
  shows "FindBestPolicyMatch rs ix e a b = FindBestPolicyMatch rs ix e' a b"
  using best_loop_blind [OF assms] assms(2) by (simp add: FindBestPolicyMatch_def candidate_indices_def)

lemma ResolvePolicyInternal_blind:
  assumes "endpoint_blind t" "topic e = topic e'" "channel e = channel e'" "qos e = qos e'"
  shows "ResolvePolicyInternal t e = ResolvePolicyInternal t e'"
proof -
  have "FindBestPolicyMatch rs ix e a b = FindBestPolicyMatch rs ix e' a b"
    if "rs \<in> {runtime_overrides t, rules t, template_rules t}" for rs ix a b
    using that assms by (intro find_best_blind) (auto simp: endpoint_blind_def)
  then show ?thesis by (simp add: ResolvePolicyInternal_def)
qed

end
