(* ===== verification/Policy_Cache.thy ===== *)
theory Policy_Cache
  imports Policy_Resolution
begin

text \<open>
  The policy cache of \<^verbatim>\<open>interconnect/interconnect_bridge.cpp\<close>: a \<^verbatim>\<open>std::list\<close> in order of use and an
  \<^verbatim>\<open>unordered_map\<close> from keys to iterators into it. A list node has an address, an iterator is an
  address; the invariant says that the two structures agree, so that no iterator dangles. The cache
  is shown to be a least-recently-used cache of 256 entries.
\<close>

section \<open>State\<close>

record PolicyCacheKey =
  key_topic :: string
  key_channel :: ChannelType
  key_qos :: DeliveryQoS

record PolicyCacheEntry =
  entry_policy :: BridgeSlaPolicy
  entry_override_applied :: bool
  entry_conflict_detected :: bool

record PolicyCacheItem =
  item_key :: PolicyCacheKey
  item_entry :: PolicyCacheEntry

type_synonym iterator = nat

record policy_cache =
  cache_items :: "(iterator \<times> PolicyCacheItem) list"
  cache_index :: "PolicyCacheKey \<rightharpoonup> iterator"
  next_node :: iterator

definition empty_cache :: policy_cache where
  "empty_cache = \<lparr>cache_items = [], cache_index = Map.empty, next_node = 0\<rparr>"

definition kPolicyCacheMaxEntries :: nat where
  "kPolicyCacheMaxEntries = 256"

definition cache_key :: "MessageEnvelope \<Rightarrow> PolicyCacheKey" where
  "cache_key e = \<lparr>key_topic = topic e, key_channel = channel e, key_qos = qos e\<rparr>"

section \<open>Operations\<close>

text \<open>\<^verbatim>\<open>splice\<close> of one node to the front of its list.\<close>

definition splice_front :: "iterator \<Rightarrow> (iterator \<times> 'a) list \<Rightarrow> (iterator \<times> 'a) list" where
  "splice_front it xs =
     (case map_of xs it of None \<Rightarrow> xs | Some x \<Rightarrow> (it, x) # filter (\<lambda>p. fst p \<noteq> it) xs)"

definition LookupPolicyCache :: "policy_cache \<Rightarrow> PolicyCacheKey \<Rightarrow> PolicyCacheEntry option \<times> policy_cache" where
  "LookupPolicyCache c key =
     (case cache_index c key of
        None \<Rightarrow> (None, c)
      | Some it \<Rightarrow>
          let items' = splice_front it (cache_items c) in
          (map_option item_entry (map_of items' (fst (hd items'))),
           c\<lparr>cache_items := items', cache_index := (cache_index c)(key \<mapsto> fst (hd items'))\<rparr>))"

definition StorePolicyCache ::
  "policy_cache \<Rightarrow> PolicyCacheKey \<Rightarrow> PolicyCacheEntry \<Rightarrow> PolicyCacheEntry option \<times> policy_cache" where
  "StorePolicyCache c key entry =
     (case cache_index c key of
        Some it \<Rightarrow>
          let written = map (\<lambda>p. if fst p = it then (it, (snd p)\<lparr>item_entry := entry\<rparr>) else p) (cache_items c);
              items' = splice_front it written in
          (map_option item_entry (map_of items' (fst (hd items'))),
           c\<lparr>cache_items := items', cache_index := (cache_index c)(key \<mapsto> fst (hd items'))\<rparr>)
      | None \<Rightarrow>
          let items' = (next_node c, \<lparr>item_key = key, item_entry = entry\<rparr>) # cache_items c;
              index' = (cache_index c)(key \<mapsto> next_node c) in
          if length items' > kPolicyCacheMaxEntries
          then (map_option item_entry (map_of (butlast items') (fst (hd (butlast items')))),
                c\<lparr>cache_items := butlast items',
                  cache_index := index'(item_key (snd (last items')) := None),
                  next_node := Suc (next_node c)\<rparr>)
          else (map_option item_entry (map_of items' (fst (hd items'))),
                c\<lparr>cache_items := items', cache_index := index', next_node := Suc (next_node c)\<rparr>))"

section \<open>The cache contract\<close>

datatype ('k, 'v) cache_op = CacheGet 'k | CachePut 'k 'v

fun op_key :: "('k, 'v) cache_op \<Rightarrow> 'k" where
  "op_key (CacheGet k) = k"
| "op_key (CachePut k v) = k"

fun cache_run ::
  "('c \<Rightarrow> 'k \<Rightarrow> 'v option \<times> 'c) \<Rightarrow> ('c \<Rightarrow> 'k \<Rightarrow> 'v \<Rightarrow> 'v option \<times> 'c) \<Rightarrow> 'c \<Rightarrow> ('k, 'v) cache_op list \<Rightarrow> 'c" where
  "cache_run get put c [] = c"
| "cache_run get put c (CacheGet k # ops) = cache_run get put (snd (get c k)) ops"
| "cache_run get put c (CachePut k v # ops) = cache_run get put (snd (put c k v)) ops"

text \<open>A bounded cache seen through its entries in order of use, the latest first.\<close>

locale lru_cache =
  fixes get :: "'c \<Rightarrow> 'k \<Rightarrow> 'v option \<times> 'c"
    and put :: "'c \<Rightarrow> 'k \<Rightarrow> 'v \<Rightarrow> 'v option \<times> 'c"
    and view :: "'c \<Rightarrow> ('k \<times> 'v) list"
    and invar :: "'c \<Rightarrow> bool"
    and cap :: nat
  assumes get_value: "invar c \<Longrightarrow> fst (get c k) = map_of (view c) k"
    and get_view: "invar c \<Longrightarrow> view (snd (get c k)) =
          (case map_of (view c) k of None \<Rightarrow> view c | Some v \<Rightarrow> (k, v) # filter (\<lambda>p. fst p \<noteq> k) (view c))"
    and put_value: "invar c \<Longrightarrow> fst (put c k v) = Some v"
    and put_view: "invar c \<Longrightarrow> view (snd (put c k v)) = take cap ((k, v) # filter (\<lambda>p. fst p \<noteq> k) (view c))"
    and get_invar: "invar c \<Longrightarrow> invar (snd (get c k))"
    and put_invar: "invar c \<Longrightarrow> invar (snd (put c k v))"
    and view_distinct: "invar c \<Longrightarrow> distinct (map fst (view c))"
    and view_bound: "invar c \<Longrightarrow> length (view c) \<le> cap"
    and cap_pos: "0 < cap"
begin

lemma get_after_put: "invar c \<Longrightarrow> fst (get (snd (put c k v)) k) = Some v"
  using cap_pos by (simp add: get_value put_invar put_view take_Cons')

lemma get_after_get: "invar c \<Longrightarrow> fst (get (snd (get c k)) j) = fst (get c j)"
  by (auto simp: get_value get_invar get_view map_of_filter_other split: option.splits)

lemma put_invents_nothing:
  assumes "invar c" "j \<noteq> k" "fst (get (snd (put c k v)) j) = Some w"
  shows "fst (get c j) = Some w"
proof -
  have "(j, w) \<in> set (view (snd (put c k v)))"
    using assms by (auto simp: get_value put_invar dest: map_of_SomeD)
  then have "(j, w) \<in> set (view c)"
    using assms(1,2) by (auto simp: put_view dest: in_set_takeD)
  then show ?thesis using assms(1) by (simp add: get_value view_distinct)
qed

lemma run_invar: "invar c \<Longrightarrow> invar (cache_run get put c ops)"
proof (induction ops arbitrary: c)
  case (Cons op ops)
  then show ?case by (cases op) (simp_all add: get_invar put_invar)
qed simp

text \<open>An entry stays at a position no deeper than the number of other keys used since.\<close>

definition above :: "'c \<Rightarrow> 'k \<Rightarrow> 'v \<Rightarrow> 'k set \<Rightarrow> bool" where
  "above c k v K \<longleftrightarrow> (\<exists>xs ys. view c = xs @ (k, v) # ys \<and> fst ` set xs \<subseteq> K)"

lemma above_get:
  assumes "invar c" "above c k v K" "j \<in> K" "k \<notin> K"
  shows "above (snd (get c j)) k v K"
proof (cases "map_of (view c) j")
  case None
  with assms show ?thesis by (simp add: above_def get_view)
next
  case (Some w)
  from assms(2) obtain xs ys where "view c = xs @ (k, v) # ys" "fst ` set xs \<subseteq> K"
    unfolding above_def by blast
  moreover from assms(3,4) have "j \<noteq> k" by auto
  ultimately show ?thesis
    using assms(1,3) Some unfolding above_def
    by (intro exI [of _ "(j, w) # filter (\<lambda>p. fst p \<noteq> j) xs"] exI [of _ "filter (\<lambda>p. fst p \<noteq> j) ys"])
      (auto simp: get_view)
qed

lemma above_put:
  assumes "invar c" "above c k v K" "j \<in> K" "k \<notin> K" "finite K" "card K < cap"
  shows "above (snd (put c j w)) k v K"
proof -
  from assms(2) obtain xs ys where v: "view c = xs @ (k, v) # ys" "fst ` set xs \<subseteq> K"
    unfolding above_def by blast
  let ?xs = "(j, w) # filter (\<lambda>p. fst p \<noteq> j) xs" and ?ys = "filter (\<lambda>p. fst p \<noteq> j) ys"
  from assms(3,4) have "k \<noteq> j" by auto
  have "distinct (map fst xs)" using view_distinct [OF assms(1)] v by simp
  then have "distinct (map fst ?xs)" by (auto simp: distinct_keys_filter)
  from distinct_card [OF this] have "length ?xs = card (fst ` set ?xs)" by simp
  moreover have "fst ` set ?xs \<subseteq> K" using v(2) assms(3) by auto
  ultimately have "length ?xs \<le> card K" using card_mono [OF assms(5), of "fst ` set ?xs"] by simp
  with assms(6) have "length ?xs < cap" by simp
  then obtain d where "cap = length ?xs + Suc d" using less_iff_Suc_add [of "length ?xs" cap] by auto
  then have "take cap (?xs @ (k, v) # ?ys) = ?xs @ (k, v) # take d ?ys" by simp
  moreover have "view (snd (put c j w)) = take cap (?xs @ (k, v) # ?ys)"
    using assms(1) v(1) \<open>k \<noteq> j\<close> by (simp add: put_view)
  ultimately show ?thesis using \<open>fst ` set ?xs \<subseteq> K\<close> unfolding above_def
    by (intro exI [of _ ?xs] exI [of _ "take d ?ys"]) simp
qed

lemma survives:
  assumes "invar c" "finite K" "card K < cap" "k \<notin> K" "op_key ` set ops \<subseteq> K"
  shows "fst (get (cache_run get put (snd (put c k v)) ops) k) = Some v"
proof -
  have run: "above (cache_run get put c ops) k v K" if "invar c" "above c k v K" "op_key ` set ops \<subseteq> K" for c ops
    using that
  proof (induction ops arbitrary: c)
    case (Cons op ops)
    then show ?case
      by (cases op) (auto intro!: Cons.IH get_invar put_invar above_get above_put simp: assms(2-4))
  qed simp
  have "above (snd (put c k v)) k v K"
    using assms(1) cap_pos unfolding above_def
    by (intro exI [of _ "[]"] exI [of _ "take (cap - 1) (filter (\<lambda>p. fst p \<noteq> k) (view c))"])
      (cases cap; simp add: put_view)
  from run [OF put_invar [OF assms(1)] this assms(5)] show ?thesis
    using view_distinct run_invar [OF put_invar [OF assms(1)]]
    by (auto simp: above_def get_value)
qed

end

section \<open>The invariant\<close>

definition cache_wf :: "policy_cache \<Rightarrow> bool" where
  "cache_wf c \<longleftrightarrow>
     distinct (map fst (cache_items c)) \<and>
     (\<forall>p \<in> set (cache_items c). fst p < next_node c) \<and>
     (\<forall>k n. cache_index c k = Some n \<longleftrightarrow> (\<exists>x. (n, x) \<in> set (cache_items c) \<and> item_key x = k)) \<and>
     length (cache_items c) \<le> kPolicyCacheMaxEntries"

definition cache_view :: "policy_cache \<Rightarrow> (PolicyCacheKey \<times> PolicyCacheEntry) list" where
  "cache_view c = map (\<lambda>p. (item_key (snd p), item_entry (snd p))) (cache_items c)"

lemma cache_wf_empty [wf_intros]: "cache_wf empty_cache"
  by (simp add: cache_wf_def empty_cache_def)

lemma cache_wfD:
  assumes "cache_wf c"
  shows "distinct (map fst (cache_items c))"
    and "p \<in> set (cache_items c) \<Longrightarrow> fst p < next_node c"
    and "cache_index c k = Some n \<longleftrightarrow> (\<exists>x. (n, x) \<in> set (cache_items c) \<and> item_key x = k)"
    and "length (cache_items c) \<le> kPolicyCacheMaxEntries"
  using assms by (auto simp: cache_wf_def)

text \<open>In a well-formed cache keys determine nodes.\<close>

lemma cache_keys_distinct:
  assumes "cache_wf c"
  shows "distinct (map fst (cache_view c))"
proof -
  have "inj_on (\<lambda>p. item_key (snd p)) (set (cache_items c))"
  proof (rule inj_onI)
    fix p q
    assume h: "p \<in> set (cache_items c)" "q \<in> set (cache_items c)" "item_key (snd p) = item_key (snd q)"
    have "cache_index c (item_key (snd p)) = Some (fst p)" "cache_index c (item_key (snd q)) = Some (fst q)"
      using cache_wfD(3) [OF assms] h(1,2) by force+
    with h(3) have "fst p = fst q" by simp
    moreover have "map_of (cache_items c) (fst p) = Some (snd p)" "map_of (cache_items c) (fst q) = Some (snd q)"
      using cache_wfD(1) [OF assms] h(1,2) by (auto simp: map_of_is_SomeI)
    ultimately show "p = q" by (simp add: prod_eq_iff)
  qed
  then show ?thesis using cache_wfD(1) [OF assms]
    by (simp add: cache_view_def distinct_map comp_def)
qed

lemma node_of_key:
  assumes "cache_wf c" "cache_index c k = Some n"
  obtains x where "map_of (cache_items c) n = Some x" "item_key x = k" "(n, x) \<in> set (cache_items c)"
proof -
  from assms obtain x where "(n, x) \<in> set (cache_items c)" "item_key x = k"
    using cache_wfD(3) [OF assms(1)] by blast
  with cache_wfD(1) [OF assms(1)] show ?thesis by (intro that [of x]) (auto simp: map_of_is_SomeI)
qed

lemma filter_node_eq_filter_key:
  assumes "cache_wf c" "cache_index c k = Some n" "p \<in> set (cache_items c)"
  shows "fst p \<noteq> n \<longleftrightarrow> item_key (snd p) \<noteq> k"
proof -
  have "cache_index c (item_key (snd p)) = Some (fst p)" using cache_wfD(3) [OF assms(1)] assms(3) by force
  moreover obtain x where x: "map_of (cache_items c) n = Some x" "item_key x = k" by (rule node_of_key [OF assms(1,2)])
  moreover have "snd p = x" if "fst p = n"
    using that assms(3) x(1) cache_wfD(1) [OF assms(1)] by (metis map_of_is_SomeI option.inject prod.collapse)
  ultimately show ?thesis using assms(2) by auto
qed

lemma cache_view_lookup:
  assumes "cache_wf c"
  shows "map_of (cache_view c) k = (case cache_index c k of None \<Rightarrow> None
           | Some n \<Rightarrow> map_option item_entry (map_of (cache_items c) n))"
proof (cases "cache_index c k")
  case None
  then have "k \<notin> fst ` set (cache_view c)"
    using cache_wfD(3) [OF assms] by (force simp: cache_view_def)
  with None show ?thesis by (simp add: map_of_eq_None_iff)
next
  case (Some n)
  obtain x where x: "map_of (cache_items c) n = Some x" "item_key x = k" "(n, x) \<in> set (cache_items c)"
    by (rule node_of_key [OF assms Some])
  have "(k, item_entry x) \<in> set (cache_view c)"
    using x(2,3) by (force simp: cache_view_def)
  with cache_keys_distinct [OF assms] Some x(1) show ?thesis by (simp add: map_of_is_SomeI)
qed

text \<open>Moving a node to the front, possibly with a new entry, keeps the structures in agreement.\<close>

definition moved :: "policy_cache \<Rightarrow> iterator \<Rightarrow> PolicyCacheItem \<Rightarrow> PolicyCacheEntry \<Rightarrow> policy_cache" where
  "moved c n x v = c\<lparr>cache_items := (n, x\<lparr>item_entry := v\<rparr>) # filter (\<lambda>p. fst p \<noteq> n) (cache_items c)\<rparr>"

lemma moved_keys:
  assumes "cache_wf c" "(n, x) \<in> set (cache_items c)"
  shows "(\<exists>y. (m, y) \<in> set (cache_items (moved c n x v)) \<and> item_key y = j) \<longleftrightarrow>
         (\<exists>y. (m, y) \<in> set (cache_items c) \<and> item_key y = j)"
proof (cases "m = n")
  case True
  have "y = x" if "(n, y) \<in> set (cache_items c)" for y
    by (rule eq_key_imp_eq_value [OF cache_wfD(1) [OF assms(1)] that assms(2)])
  then have "(\<exists>y. (n, y) \<in> set (cache_items c) \<and> item_key y = j) \<longleftrightarrow> item_key x = j"
    using assms(2) by blast
  with True show ?thesis by (simp add: moved_def)
qed (simp add: moved_def)

lemma moved_wf:
  assumes "cache_wf c" "(n, x) \<in> set (cache_items c)"
  shows "cache_wf (moved c n x v)"
  unfolding cache_wf_def
proof (intro conjI allI)
  show "distinct (map fst (cache_items (moved c n x v)))"
    using cache_wfD(1) [OF assms(1)] by (auto simp: moved_def distinct_keys_filter)
  show "\<forall>p \<in> set (cache_items (moved c n x v)). fst p < next_node (moved c n x v)"
    using cache_wfD(2) [OF assms(1)] assms(2) by (fastforce simp: moved_def)
  fix k m
  show "cache_index (moved c n x v) k = Some m \<longleftrightarrow>
      (\<exists>y. (m, y) \<in> set (cache_items (moved c n x v)) \<and> item_key y = k)"
    unfolding moved_keys [OF assms] using cache_wfD(3) [OF assms(1)] by (simp add: moved_def)
next
  have "length (filter (\<lambda>p. fst p \<noteq> n) (cache_items c)) < length (cache_items c)"
    using assms(2) by (rule length_filter_less) simp
  then show "length (cache_items (moved c n x v)) \<le> kPolicyCacheMaxEntries"
    using cache_wfD(4) [OF assms(1)] by (simp add: moved_def)
qed

lemma view_filter_node:
  assumes "cache_wf c" "cache_index c k = Some n"
  shows "map (\<lambda>p. (item_key (snd p), item_entry (snd p))) (filter (\<lambda>p. fst p \<noteq> n) (cache_items c)) =
         filter (\<lambda>p. fst p \<noteq> k) (cache_view c)"
proof -
  have "filter (\<lambda>p. fst p \<noteq> n) (cache_items c) = filter (\<lambda>p. item_key (snd p) \<noteq> k) (cache_items c)"
    by (rule filter_cong [OF refl]) (rule filter_node_eq_filter_key [OF assms])
  then show ?thesis by (simp add: cache_view_def filter_map comp_def)
qed

lemma moved_view:
  assumes "cache_wf c" "cache_index c k = Some n" "item_key x = k"
  shows "cache_view (moved c n x v) = (k, v) # filter (\<lambda>p. fst p \<noteq> k) (cache_view c)"
  unfolding view_filter_node [OF assms(1,2), symmetric]
  using assms(3) by (simp add: cache_view_def moved_def)

lemma Lookup_miss: "cache_index c k = None \<Longrightarrow> LookupPolicyCache c k = (None, c)"
  by (simp add: LookupPolicyCache_def)

lemma Lookup_hit:
  assumes "cache_index c k = Some n" "map_of (cache_items c) n = Some x"
  shows "LookupPolicyCache c k = (Some (item_entry x), moved c n x (item_entry x))"
  using assms by (simp add: LookupPolicyCache_def splice_front_def moved_def Let_def fun_upd_idem)

lemma Lookup_cases [consumes 1, case_names miss hit]:
  assumes "cache_wf c"
  obtains (miss) "cache_index c k = None" "map_of (cache_view c) k = None" "LookupPolicyCache c k = (None, c)"
  | (hit) n x where "cache_index c k = Some n" "(n, x) \<in> set (cache_items c)" "item_key x = k"
      "map_of (cache_view c) k = Some (item_entry x)"
      "LookupPolicyCache c k = (Some (item_entry x), moved c n x (item_entry x))"
proof (cases "cache_index c k")
  case None
  with assms show ?thesis by (intro miss) (simp_all add: Lookup_miss cache_view_lookup)
next
  case (Some n)
  obtain x where "map_of (cache_items c) n = Some x" "item_key x = k" "(n, x) \<in> set (cache_items c)"
    by (rule node_of_key [OF assms Some])
  with Some assms show ?thesis by (intro hit) (simp_all add: Lookup_hit cache_view_lookup)
qed

lemma Lookup_wf [wf_intros]: "cache_wf c \<Longrightarrow> cache_wf (snd (LookupPolicyCache c k))"
  by (cases rule: Lookup_cases [of c k]) (simp_all add: moved_wf)

lemma Lookup_value: "cache_wf c \<Longrightarrow> fst (LookupPolicyCache c k) = map_of (cache_view c) k"
  by (cases rule: Lookup_cases [of c k]) simp_all

lemma Lookup_view:
  "cache_wf c \<Longrightarrow> cache_view (snd (LookupPolicyCache c k)) =
     (case map_of (cache_view c) k of None \<Rightarrow> cache_view c | Some v \<Rightarrow> (k, v) # filter (\<lambda>p. fst p \<noteq> k) (cache_view c))"
  by (cases rule: Lookup_cases [of c k]) (simp_all add: moved_view)

text \<open>Storing under a key that is present writes its node, then moves it to the front.\<close>

lemma map_of_write:
  "map_of (map (\<lambda>p. if fst p = n then (n, f (snd p)) else p) xs) n = map_option f (map_of xs n)"
  by (induction xs) auto

lemma filter_write:
  "filter (\<lambda>p. fst p \<noteq> n) (map (\<lambda>p. if fst p = n then (n, f (snd p)) else p) xs) = filter (\<lambda>p. fst p \<noteq> n) xs"
  by (induction xs) auto

lemma Store_present:
  assumes "cache_index c k = Some n" "map_of (cache_items c) n = Some x"
  shows "StorePolicyCache c k v = (Some v, moved c n x v)"
proof -
  let ?w = "map (\<lambda>p. if fst p = n then (n, (snd p)\<lparr>item_entry := v\<rparr>) else p) (cache_items c)"
  have "splice_front n ?w = (n, x\<lparr>item_entry := v\<rparr>) # filter (\<lambda>p. fst p \<noteq> n) (cache_items c)"
    using assms(2) by (simp add: splice_front_def map_of_write filter_write)
  with assms(1) show ?thesis by (simp add: StorePolicyCache_def moved_def Let_def fun_upd_idem)
qed

text \<open>Storing under a new key: the node before the eviction test, and the eviction.\<close>

definition pushed :: "policy_cache \<Rightarrow> PolicyCacheKey \<Rightarrow> PolicyCacheEntry \<Rightarrow> policy_cache" where
  "pushed c k v = c\<lparr>cache_items := (next_node c, \<lparr>item_key = k, item_entry = v\<rparr>) # cache_items c,
     cache_index := (cache_index c)(k \<mapsto> next_node c), next_node := Suc (next_node c)\<rparr>"

definition evicted :: "policy_cache \<Rightarrow> policy_cache" where
  "evicted c = c\<lparr>cache_items := butlast (cache_items c),
     cache_index := (cache_index c)(item_key (snd (last (cache_items c))) := None)\<rparr>"

text \<open>The invariant without the bound.\<close>

definition cache_agrees :: "policy_cache \<Rightarrow> bool" where
  "cache_agrees c \<longleftrightarrow>
     distinct (map fst (cache_items c)) \<and>
     (\<forall>p \<in> set (cache_items c). fst p < next_node c) \<and>
     (\<forall>k n. cache_index c k = Some n \<longleftrightarrow> (\<exists>x. (n, x) \<in> set (cache_items c) \<and> item_key x = k))"

lemma cache_wf_agrees: "cache_wf c \<longleftrightarrow> cache_agrees c \<and> length (cache_items c) \<le> kPolicyCacheMaxEntries"
  by (simp add: cache_wf_def cache_agrees_def)

lemma pushed_agrees:
  assumes "cache_wf c" "cache_index c k = None"
  shows "cache_agrees (pushed c k v)"
  unfolding cache_agrees_def
proof (intro conjI allI)
  have fresh: "(next_node c, x) \<notin> set (cache_items c)" for x
    using cache_wfD(2) [OF assms(1), of "(next_node c, x)"] by auto
  show "distinct (map fst (cache_items (pushed c k v)))"
    using cache_wfD(1) [OF assms(1)] fresh by (auto simp: pushed_def)
  show "\<forall>p \<in> set (cache_items (pushed c k v)). fst p < next_node (pushed c k v)"
    using cache_wfD(2) [OF assms(1)] by (auto simp: pushed_def less_Suc_eq)
  fix j n
  have "(n, x) \<notin> set (cache_items c)" if "item_key x = k" for x n
    using cache_wfD(3) [OF assms(1), of k n] assms(2) that by auto
  then show "cache_index (pushed c k v) j = Some n \<longleftrightarrow>
      (\<exists>x. (n, x) \<in> set (cache_items (pushed c k v)) \<and> item_key x = j)"
    using cache_wfD(3) [OF assms(1), of j n] by (cases "j = k") (auto simp: pushed_def)
qed

lemma evicted_agrees:
  assumes "cache_agrees c" "cache_items c \<noteq> []"
  shows "cache_agrees (evicted c)"
proof -
  obtain xs m y where l: "cache_items c = xs @ [(m, y)]" using assms(2) by (cases "cache_items c" rule: rev_cases) auto
  have d: "distinct (map fst xs)" "\<And>x. (m, x) \<notin> set xs" using assms(1) l by (force simp: cache_agrees_def)+
  have idx: "cache_index c k = Some n \<longleftrightarrow> (\<exists>x. (n, x) \<in> set (xs @ [(m, y)]) \<and> item_key x = k)" for k n
    using assms(1) l by (simp add: cache_agrees_def)
  have "cache_index (evicted c) k = Some n \<longleftrightarrow> (\<exists>x. (n, x) \<in> set xs \<and> item_key x = k)" for k n
  proof (cases "k = item_key y")
    case True
    have "cache_index c (item_key y) = Some m" using idx by auto
    moreover have "cache_index c k = Some n" if "(n, x) \<in> set xs" "item_key x = k" for x
      using idx that by auto
    ultimately have "(n, x) \<in> set xs \<Longrightarrow> item_key x \<noteq> k" for x using True d(2) by force
    then show ?thesis using True l by (auto simp: evicted_def)
  next
    case False
    then show ?thesis using idx [of k n] l by (auto simp: evicted_def)
  qed
  then show ?thesis using assms(1) l d(1) by (auto simp: cache_agrees_def evicted_def)
qed

lemma Store_absent:
  assumes "cache_index c k = None"
  shows "StorePolicyCache c k v = (Some v,
     if length (cache_items c) \<ge> kPolicyCacheMaxEntries then evicted (pushed c k v) else pushed c k v)"
proof -
  have "cache_items c \<noteq> []" if "length (cache_items c) \<ge> kPolicyCacheMaxEntries"
    using that by (auto simp: kPolicyCacheMaxEntries_def)
  with assms show ?thesis
    by (auto simp: StorePolicyCache_def pushed_def evicted_def Let_def less_Suc_eq_le)
qed

lemma Store_cases [consumes 1, case_names present room full]:
  assumes "cache_wf c"
  obtains (present) n x where "cache_index c k = Some n" "(n, x) \<in> set (cache_items c)" "item_key x = k"
      "StorePolicyCache c k v = (Some v, moved c n x v)"
  | (room) "cache_index c k = None" "length (cache_items c) < kPolicyCacheMaxEntries"
      "StorePolicyCache c k v = (Some v, pushed c k v)"
  | (full) "cache_index c k = None" "length (cache_items c) = kPolicyCacheMaxEntries"
      "StorePolicyCache c k v = (Some v, evicted (pushed c k v))"
proof (cases "cache_index c k")
  case None
  with cache_wfD(4) [OF assms] show ?thesis
    using Store_absent [OF None, of v] room full
    by (cases "length (cache_items c) = kPolicyCacheMaxEntries") simp_all
next
  case (Some n)
  obtain x where "map_of (cache_items c) n = Some x" "item_key x = k" "(n, x) \<in> set (cache_items c)"
    by (rule node_of_key [OF assms Some])
  with Some show ?thesis by (intro present) (simp_all add: Store_present)
qed

lemma Store_wf [wf_intros]:
  assumes "cache_wf c"
  shows "cache_wf (snd (StorePolicyCache c k v))"
  using assms
proof (cases rule: Store_cases [of c k v])
  case (present n x)
  then show ?thesis using assms by (simp add: moved_wf)
next
  case room
  then show ?thesis using pushed_agrees [OF assms, of k v] by (simp add: cache_wf_agrees) (simp add: pushed_def)
next
  case full
  have "cache_items (pushed c k v) \<noteq> []" by (simp add: pushed_def)
  with full(1) have "cache_agrees (evicted (pushed c k v))"
    by (intro evicted_agrees pushed_agrees assms)
  moreover have "length (cache_items (evicted (pushed c k v))) = length (cache_items c)"
    by (simp add: evicted_def pushed_def)
  ultimately show ?thesis using full by (simp add: cache_wf_agrees)
qed

lemma Store_value: "cache_wf c \<Longrightarrow> fst (StorePolicyCache c k v) = Some v"
  by (cases rule: Store_cases [of c k v]) simp_all

lemma view_absent:
  assumes "cache_wf c" "cache_index c k = None"
  shows "filter (\<lambda>p. fst p \<noteq> k) (cache_view c) = cache_view c"
proof -
  have "map_of (cache_view c) k = None" using assms by (simp add: cache_view_lookup)
  then show ?thesis by (intro filter_True) (auto simp: map_of_eq_None_iff)
qed

lemma length_cache_view [simp]: "length (cache_view c) = length (cache_items c)"
  by (simp add: cache_view_def)

lemma cache_view_pushed [simp]: "cache_view (pushed c k v) = (k, v) # cache_view c"
  by (simp add: cache_view_def pushed_def)

lemma cache_view_evicted [simp]: "cache_view (evicted c) = butlast (cache_view c)"
  by (simp add: cache_view_def evicted_def map_butlast)

lemma Store_view:
  assumes "cache_wf c"
  shows "cache_view (snd (StorePolicyCache c k v)) =
     take kPolicyCacheMaxEntries ((k, v) # filter (\<lambda>p. fst p \<noteq> k) (cache_view c))"
  using assms
proof (cases rule: Store_cases [of c k v])
  case (present n x)
  have "length (cache_view (moved c n x v)) \<le> kPolicyCacheMaxEntries"
    using cache_wfD(4) [OF moved_wf [OF assms present(2)]] by simp
  then show ?thesis using present moved_view [OF assms present(1,3)] by simp
next
  case room
  then show ?thesis by (simp add: view_absent [OF assms])
next
  case full
  then show ?thesis by (simp add: view_absent [OF assms] butlast_conv_take del: butlast.simps)
qed

interpretation pc: lru_cache LookupPolicyCache StorePolicyCache cache_view cache_wf kPolicyCacheMaxEntries
proof
  show "0 < kPolicyCacheMaxEntries" by (simp add: kPolicyCacheMaxEntries_def)
  show "cache_wf c \<Longrightarrow> length (cache_view c) \<le> kPolicyCacheMaxEntries" for c
    by (simp add: cache_wfD)
qed (fact Lookup_value Lookup_view Store_value Store_view Lookup_wf Store_wf cache_keys_distinct)+

section \<open>Properties\<close>

text \<open>
  Any sequence of lookups and stores, from the empty cache, leaves the list and the index of the
  policy cache in agreement: node addresses are distinct, every iterator of the index points at the
  live node that carries its key (none dangles after an eviction), every node is indexed, and there
  are at most 256 entries.
\<close>

theorem policy_cache_coherent:
  "cache_wf (cache_run LookupPolicyCache StorePolicyCache empty_cache ops)"
  by (rule pc.run_invar [OF cache_wf_empty])

text \<open>
  The policy cache evicts the least recently used entry only. After a store under a key, as long
  as the lookups and stores that follow use other keys and fewer than 256 different ones, however many
  operations there are, a lookup of the key returns the entry stored.
\<close>

theorem policy_cache_lru:
  assumes "cache_wf c" and "finite K" and "card K < kPolicyCacheMaxEntries" and "k \<notin> K"
    and "op_key ` set ops \<subseteq> K"
  shows "fst (LookupPolicyCache (cache_run LookupPolicyCache StorePolicyCache
           (snd (StorePolicyCache c k v)) ops) k) = Some v"
  by (rule pc.survives [OF assms])

definition sample_key :: "string \<Rightarrow> PolicyCacheKey" where
  "sample_key t = \<lparr>key_topic = t, key_channel = kEvent, key_qos = kBestEffort\<rparr>"

definition sample_entry :: "PolicyCacheEntry" where
  "sample_entry = \<lparr>entry_policy = default_SlaPolicy, entry_override_applied = False, entry_conflict_detected = False\<rparr>"

theorem policy_cache_lru_witness:
  "fst (LookupPolicyCache (cache_run LookupPolicyCache StorePolicyCache
      (snd (StorePolicyCache empty_cache (sample_key ''a'') sample_entry))
      [CachePut (sample_key ''b'') sample_entry, CacheGet (sample_key ''b'')]) (sample_key ''a'')) = Some sample_entry"
  by (rule policy_cache_lru [where K = "{sample_key ''b''}"])
    (simp_all add: cache_wf_empty kPolicyCacheMaxEntries_def sample_key_def)

end
