(* ===== verification/Policy_Lint.thy ===== *)
theory Policy_Lint
  imports Policy_Resolution
begin

text \<open>
  The policy lint of \<^verbatim>\<open>interconnect/interconnect_bridge.cpp\<close>: the text of a rule, the pairs of rules of
  one layer that tie, the report with its issues and warnings, and the counts exported as metrics. The
  conflicts the lint reports are related to the conflicts that resolution meets at run time.
\<close>

section \<open>Printing rules\<close>

definition FormatRuleKey :: "PolicyRule \<Rightarrow> string" where
  "FormatRuleKey rule =
     (let c = (if match_any_channel rule then ''*'' else show_nat (unat (channel_value (rule_channel rule))));
          q = (if match_any_qos rule then ''*'' else show_nat (unat (qos_value (rule_qos rule))));
          s = (if match_any_source rule then ''*'' else rule_source rule);
          t = (if match_any_target rule then ''*'' else rule_target rule);
          tp = (if rule_topic rule = [] then ''*'' else rule_topic rule)
      in ''topic='' @ tp @ '',channel='' @ c @ '',qos='' @ q @ '',source='' @ s @ '',target='' @ t)"

definition FormatRuleSummary :: "PolicyRule \<Rightarrow> string" where
  "FormatRuleSummary rule =
     (let p = policy rule;
          sla = ''sla='' @ show_nat (unat (max_end_to_end_latency_ms p)) @
             ''ms,tx_to='' @ show_int (transport_send_timeout_ms p) @
             ''ms,rx_to='' @ show_int (transport_receive_timeout_ms p) @ ''ms'';
          bp = ''backpressure='' @ show_nat (unat (backpressure_value (backpressure_policy p)));
          dp = ''drop='' @ show_nat (unat (drop_value (drop_policy p)));
          rp = ''retry='' @ show_int (budget_max_retries (retry_budget p)) @ ''/'' @
             show_int (budget_initial_backoff_ms (retry_budget p)) @ ''/'' @
             show_int (budget_max_backoff_ms (retry_budget p))
      in ''priority='' @ show_nat (unat (priority rule)) @ '' {'' @ FormatRuleKey rule @
         '','' @ sla @ '','' @ bp @ '','' @ dp @ '','' @ rp @ ''}'')"

section \<open>Conflicts\<close>

definition rules_tie :: "PolicyRule \<Rightarrow> PolicyRule \<Rightarrow> bool" where
  "rules_tie lhs rhs \<longleftrightarrow> priority lhs = priority rhs \<and> RulesOverlap lhs rhs"

text \<open>The two nested loops of \<^verbatim>\<open>scan_rules\<close>, appending to the conflicts found so far.\<close>

fun scan_against :: "string \<Rightarrow> PolicyRule \<Rightarrow> PolicyRule list \<Rightarrow> string list \<Rightarrow> string list" where
  "scan_against label lhs [] conflicts = conflicts"
| "scan_against label lhs (rhs # rs) conflicts =
     scan_against label lhs rs
       (if rules_tie lhs rhs
        then conflicts @ [label @ '' conflict: '' @ FormatRuleSummary lhs @ '' vs '' @ FormatRuleSummary rhs]
        else conflicts)"

fun scan_rules :: "string \<Rightarrow> PolicyRule list \<Rightarrow> string list \<Rightarrow> string list" where
  "scan_rules label [] conflicts = conflicts"
| "scan_rules label (lhs # rs) conflicts = scan_rules label rs (scan_against label lhs rs conflicts)"

definition CollectPolicyConflicts :: "BridgePolicyTable \<Rightarrow> string list" where
  "CollectPolicyConflicts table =
     scan_rules ''overrides'' (runtime_overrides table)
       (scan_rules ''rules'' (rules table)
         (scan_rules ''template'' (template_rules table) []))"

section \<open>Issues and warnings\<close>

definition negative_timeout :: "BridgeSlaPolicy \<Rightarrow> bool" where
  "negative_timeout p \<longleftrightarrow> transport_receive_timeout_ms p < 0 \<or> transport_send_timeout_ms p < 0"

definition budget_invalid :: "BridgeSlaPolicy \<Rightarrow> bool" where
  "budget_invalid p \<longleftrightarrow> budget_max_retries (retry_budget p) < 0
     \<or> budget_initial_backoff_ms (retry_budget p) < 0
     \<or> budget_max_backoff_ms (retry_budget p) < budget_initial_backoff_ms (retry_budget p)"

definition drop_mismatch :: "BridgeSlaPolicy \<Rightarrow> bool" where
  "drop_mismatch p \<longleftrightarrow> drop_policy p = kDropOldest \<and> backpressure_policy p \<noteq> bp_kDropOldest"

text \<open>The issues and the warnings pushed so far.\<close>

record lint_state =
  issues :: "string list"
  warnings :: "string list"

definition push_issue :: "bool \<Rightarrow> string \<Rightarrow> lint_state \<Rightarrow> lint_state" where
  "push_issue b s l = (if b then l\<lparr>issues := issues l @ [s]\<rparr> else l)"

definition push_warning :: "bool \<Rightarrow> string \<Rightarrow> lint_state \<Rightarrow> lint_state" where
  "push_warning b s l = (if b then l\<lparr>warnings := warnings l @ [s]\<rparr> else l)"

definition validate_default :: "BridgeSlaPolicy \<Rightarrow> string \<Rightarrow> lint_state \<Rightarrow> lint_state" where
  "validate_default p label l =
     push_warning (drop_mismatch p) (label @ '': drop_oldest without backpressure drop_oldest'')
       (push_issue (budget_invalid p) (label @ '': retry budget invalid'')
         (push_issue (negative_timeout p) (label @ '': negative timeout'') l))"

fun collect_loop :: "string \<Rightarrow> nat \<Rightarrow> PolicyRule list \<Rightarrow> lint_state \<Rightarrow> lint_state" where
  "collect_loop label i [] l = l"
| "collect_loop label i (rule # rs) l =
     (let at = label @ '' rule['' @ show_nat i @ '']'';
          l1 = push_issue (rule_topic rule = []) (at @ '' missing topic'') l;
          l2 = push_issue (negative_timeout (policy rule)) (at @ '' has negative timeout'') l1;
          l3 = push_issue (budget_invalid (policy rule)) (at @ '' retry budget invalid'') l2
      in collect_loop label (Suc i) rs
           (push_warning (drop_mismatch (policy rule)) (at @ '' drop_oldest without backpressure drop_oldest'') l3))"

definition collect_issues :: "string \<Rightarrow> PolicyRule list \<Rightarrow> lint_state \<Rightarrow> lint_state" where
  "collect_issues label rs l =
     (if rs = [] then push_warning True (label @ '': empty rule set'') l else collect_loop label 0 rs l)"

definition lint_collect :: "BridgePolicyTable \<Rightarrow> lint_state" where
  "lint_collect table =
     (let l = collect_issues ''runtime_overrides'' (runtime_overrides table)
           (collect_issues ''rules'' (rules table)
             (collect_issues ''template_rules'' (template_rules table)
               (validate_default (default_policy table) ''default_policy'' \<lparr>issues = [], warnings = []\<rparr>)))
      in l\<lparr>issues := issues l @ CollectPolicyConflicts table\<rparr>)"

section \<open>Counts\<close>

definition inc_if :: "bool \<Rightarrow> u64 \<Rightarrow> u64" where
  "inc_if b n = (if b then n + 1 else n)"

definition count_policy :: "BridgeSlaPolicy \<Rightarrow> u64 \<times> u64 \<Rightarrow> u64 \<times> u64" where
  "count_policy p c =
     (inc_if (budget_invalid p) (inc_if (negative_timeout p) (fst c)), inc_if (drop_mismatch p) (snd c))"

fun count_rules :: "PolicyRule list \<Rightarrow> u64 \<times> u64 \<Rightarrow> u64 \<times> u64" where
  "count_rules [] c = c"
| "count_rules (rule # rs) c =
     count_rules rs (count_policy (policy rule) (inc_if (rule_topic rule = []) (fst c), snd c))"

definition GetPolicyLintCounts :: "BridgePolicyTable \<Rightarrow> u64 \<times> u64" where
  "GetPolicyLintCounts table =
     (let c = count_rules (runtime_overrides table)
           (count_rules (rules table)
             (count_rules (template_rules table) (count_policy (default_policy table) (0, 0))))
      in (fst c + of_nat (length (CollectPolicyConflicts table)), snd c))"

definition BuildPolicyLintSummary :: "BridgePolicyTable \<Rightarrow> string" where
  "BuildPolicyLintSummary table =
     (let counts = GetPolicyLintCounts table in
      ''issues='' @ show_nat (unat (fst counts)) @ '',warnings='' @ show_nat (unat (snd counts)))"

section \<open>The report\<close>

definition line_end :: string where
  "line_end = [CHR 0x0A]"

definition bullet_lines :: "string list \<Rightarrow> string" where
  "bullet_lines xs = concat (map (\<lambda>x. ''  - '' @ x @ line_end) xs)"

definition BuildPolicyLintReport :: "BridgePolicyTable \<Rightarrow> string" where
  "BuildPolicyLintReport table =
     (let l = lint_collect table in
      ''policy_lint:'' @ line_end @
      (if issues l = [] \<and> warnings l = [] then ''  status: ok'' @ line_end
       else
         (if issues l \<noteq> []
          then ''  status: issues('' @ show_nat (length (issues l)) @ '')'' @ line_end @ bullet_lines (issues l) else []) @
         (if warnings l \<noteq> []
          then ''  warnings('' @ show_nat (length (warnings l)) @ '')'' @ line_end @ bullet_lines (warnings l) else []) @
         ''  summary: '' @ BuildPolicyLintSummary table @ line_end))"

section \<open>Lemmas\<close>

lemma scan_against_length:
  "length (scan_against label lhs rs cs) = length cs + length (filter (rules_tie lhs) rs)"
  by (induction rs arbitrary: cs) auto

fun tie_count :: "PolicyRule list \<Rightarrow> nat" where
  "tie_count [] = 0"
| "tie_count (r # rs) = length (filter (rules_tie r) rs) + tie_count rs"

lemma scan_rules_length: "length (scan_rules label rs cs) = length cs + tie_count rs"
  by (induction rs arbitrary: cs) (auto simp: scan_against_length)

lemma conflicts_length:
  "length (CollectPolicyConflicts t) = tie_count (template_rules t) + tie_count (rules t) + tie_count (runtime_overrides t)"
  by (simp add: CollectPolicyConflicts_def scan_rules_length)

lemma tie_count_0: "tie_count rs = 0 \<longleftrightarrow> (\<forall>xs l ys r zs. rs = xs @ l # ys @ r # zs \<longrightarrow> \<not> rules_tie l r)"
proof (induction rs)
  case (Cons x rs)
  have "(\<forall>xs l ys r zs. x # rs = xs @ l # ys @ r # zs \<longrightarrow> \<not> rules_tie l r) \<longleftrightarrow>
      (\<forall>ys r zs. rs = ys @ r # zs \<longrightarrow> \<not> rules_tie x r) \<and>
      (\<forall>xs l ys r zs. rs = xs @ l # ys @ r # zs \<longrightarrow> \<not> rules_tie l r)"
    by (simp add: Cons_eq_append_conv) blast
  moreover have "(\<forall>ys r zs. rs = ys @ r # zs \<longrightarrow> \<not> rules_tie x r) \<longleftrightarrow> filter (rules_tie x) rs = []"
    unfolding filter_empty_conv by (metis in_set_conv_decomp)
  ultimately show ?case using Cons.IH by simp
qed simp

text \<open>What one rule contributes, the same for the report and for the counts.\<close>

definition rule_issues :: "PolicyRule \<Rightarrow> nat" where
  "rule_issues r = of_bool (rule_topic r = []) + of_bool (negative_timeout (policy r)) + of_bool (budget_invalid (policy r))"

definition rule_warnings :: "PolicyRule \<Rightarrow> nat" where
  "rule_warnings r = of_bool (drop_mismatch (policy r))"

lemma push_sizes [simp]:
  "length (issues (push_issue b s l)) = length (issues l) + of_bool b"
  "warnings (push_issue b s l) = warnings l"
  "length (warnings (push_warning b s l)) = length (warnings l) + of_bool b"
  "issues (push_warning b s l) = issues l"
  by (simp_all add: push_issue_def push_warning_def)

lemma inc_if_alt: "inc_if b n = n + of_bool b"
  by (simp add: inc_if_def)

lemma collect_loop_sizes:
  "length (issues (collect_loop label i rs l)) = length (issues l) + sum_list (map rule_issues rs)"
  "length (warnings (collect_loop label i rs l)) = length (warnings l) + sum_list (map rule_warnings rs)"
  by (induction rs arbitrary: i l) (simp_all add: Let_def rule_issues_def rule_warnings_def)

lemma collect_issues_sizes:
  "length (issues (collect_issues label rs l)) = length (issues l) + sum_list (map rule_issues rs)"
  "length (warnings (collect_issues label rs l)) =
     length (warnings l) + sum_list (map rule_warnings rs) + of_bool (rs = [])"
  by (simp_all add: collect_issues_def collect_loop_sizes)

lemma count_rules_sizes:
  "count_rules rs c = (fst c + of_nat (sum_list (map rule_issues rs)), snd c + of_nat (sum_list (map rule_warnings rs)))"
  by (induction rs arbitrary: c)
    (simp_all add: count_policy_def inc_if_alt rule_issues_def rule_warnings_def)

text \<open>
  The lint counters and the lint report agree on the issues, whatever the policy table: the issue
  counter is the number of issue lines of the report (modulo 64 bits), conflicts included. They differ
  on the warnings by exactly the number of empty layers, which the report warns about and the counter
  leaves out.
\<close>

theorem lint_counts_agree:
  "fst (GetPolicyLintCounts t) = of_nat (length (issues (lint_collect t))) \<and>
   snd (GetPolicyLintCounts t) + of_nat (length (filter (\<lambda>rs. rs = []) [template_rules t, rules t, runtime_overrides t])) =
     of_nat (length (warnings (lint_collect t)))"
  by (simp add: GetPolicyLintCounts_def lint_collect_def Let_def collect_issues_sizes count_rules_sizes
      validate_default_def count_policy_def inc_if_alt)

text \<open>Rules that match one envelope overlap.\<close>

lemma both_match_overlap: "RuleMatches l e \<Longrightarrow> RuleMatches r e \<Longrightarrow> RulesOverlap l r"
  unfolding RulesOverlap_iff RuleMatches_iff by (intro conjI; elim conjE) (metis, metis, metis, metis, metis)

lemma two_in_filter:
  "2 \<le> length (filter P xs) \<Longrightarrow> \<exists>as l bs r cs. xs = as @ l # bs @ r # cs \<and> P l \<and> P r"
proof (induction xs)
  case (Cons x xs)
  show ?case
  proof (cases "P x \<and> filter P xs \<noteq> []")
    case True
    then obtain r where "r \<in> set xs" "P r" by (auto simp: filter_empty_conv)
    then obtain bs cs where "xs = bs @ r # cs" by (auto dest: split_list)
    with True \<open>P r\<close> show ?thesis by (intro exI [of _ "[]"]) auto
  next
    case False
    then have "2 \<le> length (filter P xs)" using Cons.prems by (auto split: if_splits)
    with Cons.IH obtain as l bs r cs where "xs = as @ l # bs @ r # cs" "P l" "P r" by blast
    then show ?thesis by (intro exI [of _ "x # as"]) auto
  qed
qed simp

lemma filter_filter_candidates: "\<exists>Q. matching rs e = filter (\<lambda>r. Q r \<and> RuleMatches r e) rs"
proof -
  define Q where "Q = (\<lambda>r :: PolicyRule. \<not> wildcard_topic (topic e) \<and> topic e \<in> rule_topic ` set rs \<longrightarrow> rule_topic r = topic e)"
  have "matching rs e = filter (\<lambda>r. Q r \<and> RuleMatches r e) rs"
    by (auto simp: candidates_def Q_def intro!: filter_cong)
  then show ?thesis by blast
qed

lemma tied_conflict:
  assumes "tied (matching rs e)"
  shows "0 < tie_count rs"
proof -
  obtain Q where Q: "matching rs e = filter (\<lambda>r. Q r \<and> RuleMatches r e) rs"
    using filter_filter_candidates by blast
  define b where "b = best_priority_of (matching rs e)"
  have "2 \<le> length (filter (\<lambda>r. priority r = b) (filter (\<lambda>r. Q r \<and> RuleMatches r e) rs))"
    using assms unfolding tied_def b_def [symmetric] Q [symmetric] .
  then have "2 \<le> length (filter (\<lambda>r. (Q r \<and> RuleMatches r e) \<and> priority r = b) rs)"
    by (simp add: conj_commute)
  from two_in_filter [OF this] obtain as l bs r cs where
    "rs = as @ l # bs @ r # cs" "RuleMatches l e" "RuleMatches r e" "priority l = b" "priority r = b" by blast
  then have "rules_tie l r" "rs = as @ l # bs @ r # cs" by (auto simp: rules_tie_def intro: both_match_overlap)
  then show ?thesis using tie_count_0 [of rs] by (metis gr0I)
qed

text \<open>
  C24: the lint is sound for ties. If the report lists no conflict, then for no envelope does the
  resolution meet two matching rules of the best priority in one layer: on the rebuilt index,
  \<^verbatim>\<open>FindBestPolicyMatch\<close> never sets its conflict flag, on any of the three layers.
\<close>

theorem lint_clean_no_ties:
  assumes "CollectPolicyConflicts t = []"
    and "rs \<in> {template_rules t, rules t, runtime_overrides t}"
  shows "snd (snd (FindBestPolicyMatch rs (index_rules rs) e (Some p) (Some c))) = Some False"
proof -
  have "tie_count rs = 0" using assms conflicts_length [of t] by auto
  then have "\<not> tied (matching rs e)" using tied_conflict by force
  then show ?thesis by (simp add: FindBest_indexed)
qed

definition lint_table :: BridgePolicyTable where
  "lint_table = \<lparr>default_policy = default_SlaPolicy, template_rules = [control_rule FirstBody, telemetry_rule],
     rules = [], runtime_overrides = [], template_topic_rule_index = Map.empty, topic_rule_index = Map.empty,
     override_topic_rule_index = Map.empty\<rparr>"

lemma lint_table_clean: "CollectPolicyConflicts lint_table = []"
  by (simp add: CollectPolicyConflicts_def lint_table_def rules_tie_def control_rule_def telemetry_rule_def)

theorem lint_clean_no_ties_witness:
  "CollectPolicyConflicts lint_table = [] \<and>
   snd (snd (FindBestPolicyMatch (template_rules lint_table) (index_rules (template_rules lint_table))
      default_envelope (Some 0) (Some False))) = Some False"
  using lint_clean_no_ties [of lint_table "template_rules lint_table" default_envelope 0 False] lint_table_clean
  by simp

end
