(* ===== verification/Transport.thy ===== *)
theory Transport
  imports Error_Code "HOL-Library.Multiset"
begin

text \<open>
  \<^verbatim>\<open>interconnect/transport.hpp\<close>: the endpoint configuration, the capabilities and the interface
  \<^verbatim>\<open>ITransport\<close>, a record of operations over the state of an implementation, as the table of its
  virtual functions is. The bridge is written against this record; the message queue transport and
  the TCP transport provide it.
\<close>

record TransportEndpointConfig =
  name :: string
  max_messages :: int
  message_size :: int
  high_priority_threshold :: u32
  flow_limit_inflight :: u32
  params :: "string \<rightharpoonup> string"

definition default_endpoint :: TransportEndpointConfig where
  "default_endpoint = \<lparr>name = [], max_messages = 32, message_size = 1024, high_priority_threshold = 1,
     flow_limit_inflight = 256, params = Map.empty\<rparr>"

record TransportCapabilities =
  supports_priority :: bool
  supports_discard_oldest :: bool
  supports_unlink :: bool

text \<open>
  Receiving gets the text and the priority its output parameters hold on entry and returns what they
  hold on exit.
\<close>

record 't ITransport =
  Name :: string
  Caps :: TransportCapabilities
  Create :: "TransportEndpointConfig \<Rightarrow> 't \<Rightarrow> ErrorCode \<times> 't"
  SendWithTimeout :: "string \<Rightarrow> u32 \<Rightarrow> int \<Rightarrow> 't \<Rightarrow> ErrorCode \<times> 't"
  ReceiveWithTimeout :: "string \<Rightarrow> u32 \<Rightarrow> int \<Rightarrow> 't \<Rightarrow> (ErrorCode \<times> string \<times> u32) \<times> 't"
  DiscardOldest :: "'t \<Rightarrow> ErrorCode \<times> 't"
  Close :: "'t \<Rightarrow> 't"
  Unlink :: "'t \<Rightarrow> 't"

section \<open>The contract of a transport\<close>

text \<open>
  What the bridge relies on, over the multiset of the texts a transport holds: a send that reports
  success added its text once and one that reports an error added nothing; a receive that reports
  success took one text out (and returns it, if it has no null character) and a failed one took nothing;
  discarding takes out at most one text, and nothing when it fails.
\<close>

locale message_transport =
  fixes ops :: "'t ITransport"
    and contents :: "'t \<Rightarrow> string multiset"
  assumes send_ok: "SendWithTimeout ops m p t s = (kOk, s') \<Longrightarrow> contents s' = add_mset m (contents s)"
    and send_fail: "SendWithTimeout ops m p t s = (ec, s') \<Longrightarrow> ec \<noteq> kOk \<Longrightarrow> contents s' = contents s"
    and discard_ok: "DiscardOldest ops s = (kOk, s') \<Longrightarrow> \<exists>d. size d \<le> 1 \<and> contents s = contents s' + d"
    and discard_fail: "DiscardOldest ops s = (ec, s') \<Longrightarrow> ec \<noteq> kOk \<Longrightarrow> contents s' = contents s"
    and receive_ok: "ReceiveWithTimeout ops m0 p0 t s = ((kOk, m, p), s') \<Longrightarrow>
          \<exists>raw. contents s = add_mset raw (contents s') \<and> (CHR 0x00 \<notin> set raw \<longrightarrow> m = raw)"
    and receive_fail: "ReceiveWithTimeout ops m0 p0 t s = ((ec, m, p), s') \<Longrightarrow> ec \<noteq> kOk \<Longrightarrow> contents s' = contents s"
begin

lemma send_effect:
  assumes "SendWithTimeout ops m p t s = (ec, s')"
  shows "contents s' = contents s + (if ec = kOk then {#m#} else {#})"
  using assms send_ok send_fail by auto

lemma receive_alone:
  assumes "ReceiveWithTimeout ops m0 p0 t s = ((kOk, m, p), s')" "contents s = {#raw#}" "CHR 0x00 \<notin> set raw"
  shows "m = raw \<and> contents s' = {#}"
  using receive_ok [OF assms(1)] assms(2,3) by auto

end

end
