(* ===== verification/Transport_Orchestrator.thy ===== *)
theory Transport_Orchestrator
  imports Transport
begin

text \<open>
  \<^verbatim>\<open>interconnect/transport_orchestrator.cpp\<close>: the circuit breaker fed by the outcomes of sends on the
  primary transport, and the choice of the transport to fail over to.
\<close>

section \<open>State and operations\<close>

record OrchestratorPolicy =
  primary_weight :: u32
  secondary_weight :: u32
  circuit_break_threshold :: u32
  circuit_recover_threshold :: u32

definition default_OrchestratorPolicy :: OrchestratorPolicy where
  "default_OrchestratorPolicy = \<lparr>primary_weight = 100, secondary_weight = 0,
     circuit_break_threshold = 3, circuit_recover_threshold = 2\<rparr>"

record TransportOrchestrator =
  orch_policy :: OrchestratorPolicy
  primary_fail_streak :: u32
  primary_success_streak :: u32
  circuit_open :: bool

definition new_orchestrator :: TransportOrchestrator where
  "new_orchestrator = \<lparr>orch_policy = default_OrchestratorPolicy, primary_fail_streak = 0,
     primary_success_streak = 0, circuit_open = False\<rparr>"

text \<open>Transports are compared as pointers: \<open>None\<close> is \<^verbatim>\<open>nullptr\<close>.\<close>

definition ResolveFailover ::
  "TransportOrchestrator \<Rightarrow> 'p option \<Rightarrow> 'p option \<Rightarrow> 'p option \<Rightarrow> bool \<Rightarrow> bool \<Rightarrow> 'p option" where
  "ResolveFailover orch primary vehicle_to_robot robot_to_vehicle enable_v2r_failover enable_r2v_failover =
     (if circuit_open orch \<and> primary = vehicle_to_robot \<and> enable_v2r_failover then robot_to_vehicle
      else if circuit_open orch \<and> primary = robot_to_vehicle \<and> enable_r2v_failover then vehicle_to_robot
      else if secondary_weight (orch_policy orch) > 0 \<and> primary = vehicle_to_robot \<and> enable_v2r_failover
      then robot_to_vehicle
      else if secondary_weight (orch_policy orch) > 0 \<and> primary = robot_to_vehicle \<and> enable_r2v_failover
      then vehicle_to_robot
      else if primary = vehicle_to_robot \<and> enable_v2r_failover then robot_to_vehicle
      else if primary = robot_to_vehicle \<and> enable_r2v_failover then vehicle_to_robot
      else None)"

definition SetPolicy :: "TransportOrchestrator \<Rightarrow> OrchestratorPolicy \<Rightarrow> TransportOrchestrator" where
  "SetPolicy orch p = orch\<lparr>orch_policy := p\<rparr>"

definition OnPrimarySendFailure :: "TransportOrchestrator \<Rightarrow> TransportOrchestrator" where
  "OnPrimarySendFailure orch =
     (let o1 = orch\<lparr>primary_fail_streak := primary_fail_streak orch + 1, primary_success_streak := 0\<rparr> in
      if primary_fail_streak o1 \<ge> circuit_break_threshold (orch_policy o1) then o1\<lparr>circuit_open := True\<rparr> else o1)"

definition OnPrimarySendSuccess :: "TransportOrchestrator \<Rightarrow> TransportOrchestrator" where
  "OnPrimarySendSuccess orch =
     (let o1 = orch\<lparr>primary_fail_streak := 0, primary_success_streak := primary_success_streak orch + 1\<rparr> in
      if circuit_open o1 \<and> primary_success_streak o1 \<ge> circuit_recover_threshold (orch_policy o1)
      then o1\<lparr>circuit_open := False, primary_success_streak := 0\<rparr> else o1)"

definition IsCircuitOpen :: "TransportOrchestrator \<Rightarrow> bool" where
  "IsCircuitOpen orch = circuit_open orch"

text \<open>A history of outcomes, \<open>True\<close> for a success, in order.\<close>

fun observe :: "TransportOrchestrator \<Rightarrow> bool list \<Rightarrow> TransportOrchestrator" where
  "observe orch [] = orch"
| "observe orch (ok # oks) = observe (if ok then OnPrimarySendSuccess orch else OnPrimarySendFailure orch) oks"

section \<open>The breaker\<close>

lemma observe_append: "observe orch (xs @ ys) = observe (observe orch xs) ys"
  by (induction xs arbitrary: orch) auto

lemma failure_streaks [simp]:
  "orch_policy (OnPrimarySendFailure orch) = orch_policy orch"
  "primary_fail_streak (OnPrimarySendFailure orch) = primary_fail_streak orch + 1"
  "primary_success_streak (OnPrimarySendFailure orch) = 0"
  "circuit_open (OnPrimarySendFailure orch) \<longleftrightarrow>
     circuit_open orch \<or> circuit_break_threshold (orch_policy orch) \<le> primary_fail_streak orch + 1"
  by (simp_all add: OnPrimarySendFailure_def Let_def)

lemma success_streaks [simp]:
  "orch_policy (OnPrimarySendSuccess orch) = orch_policy orch"
  "primary_fail_streak (OnPrimarySendSuccess orch) = 0"
  "circuit_open (OnPrimarySendSuccess orch) \<longleftrightarrow>
     circuit_open orch \<and> primary_success_streak orch + 1 < circuit_recover_threshold (orch_policy orch)"
  "primary_success_streak (OnPrimarySendSuccess orch) =
     (if circuit_open orch \<and> circuit_recover_threshold (orch_policy orch) \<le> primary_success_streak orch + 1
      then 0 else primary_success_streak orch + 1)"
  by (auto simp: OnPrimarySendSuccess_def Let_def)

lemma observe_policy [simp]: "orch_policy (observe orch oks) = orch_policy orch"
  by (induction oks arbitrary: orch) auto

lemma unat_Suc_u32: "unat (w :: u32) + 1 < 2 ^ 32 \<Longrightarrow> unat (w + 1) = unat w + 1"
  by (simp add: unat_word_ariths)

text \<open>The number of equal outcomes at the end of a history.\<close>

definition trailing :: "bool \<Rightarrow> bool list \<Rightarrow> nat" where
  "trailing b oks = length (takeWhile (\<lambda>x. x = b) (rev oks))"

lemma trailing_simps [simp]:
  "trailing b [] = 0"
  "trailing b (oks @ [x]) = (if x = b then Suc (trailing b oks) else 0)"
  by (simp_all add: trailing_def)

lemma trailing_le: "trailing b oks \<le> length oks"
  using length_takeWhile_le [of "\<lambda>x. x = b" "rev oks"] by (simp add: trailing_def)

lemma trailing_decomp: "\<exists>xs. oks = xs @ replicate (trailing b oks) b"
proof -
  have "takeWhile (\<lambda>x. x = b) (rev oks) = replicate (trailing b oks) b"
    unfolding trailing_def by (rule replicate_eqI) (auto dest: set_takeWhileD)
  then have "rev oks = replicate (trailing b oks) b @ dropWhile (\<lambda>x. x = b) (rev oks)"
    by (metis takeWhile_dropWhile_id)
  then have "oks = rev (dropWhile (\<lambda>x. x = b) (rev oks)) @ replicate (trailing b oks) b"
    by (metis rev_append rev_replicate rev_rev_ident)
  then show ?thesis by blast
qed

lemma trailing_replicate: "n \<le> trailing b (xs @ replicate n b)"
  by (simp add: trailing_def takeWhile_append)

text \<open>The streak counters while fewer than \<open>2\<^sup>3\<^sup>2\<close> outcomes were seen.\<close>

lemma fail_streak:
  assumes "length oks < 2 ^ 32" "primary_fail_streak o0 = 0"
  shows "unat (primary_fail_streak (observe o0 oks)) = trailing False oks"
  using assms(1)
proof (induction oks rule: rev_induct)
  case (snoc x oks)
  then have IH: "unat (primary_fail_streak (observe o0 oks)) = trailing False oks" by simp
  have "trailing False oks + 1 < 2 ^ 32" using snoc.prems trailing_le [of False oks] by simp
  then show ?case using IH unat_Suc_u32 [of "primary_fail_streak (observe o0 oks)"]
    by (simp add: observe_append)
qed (simp add: assms(2))

lemma success_streak_open:
  assumes "length oks < 2 ^ 32" "primary_success_streak o0 = 0" "\<not> circuit_open o0"
    and "circuit_open (observe o0 oks)"
  shows "unat (primary_success_streak (observe o0 oks)) = trailing True oks"
  using assms(1,4)
proof (induction oks rule: rev_induct)
  case (snoc x oks)
  have "trailing True oks + 1 < 2 ^ 32" using snoc.prems trailing_le [of True oks] by simp
  with snoc show ?case using unat_Suc_u32 [of "primary_success_streak (observe o0 oks)"]
    by (auto simp: observe_append split: if_splits)
qed (simp add: assms)

lemma new_orchestrator_init:
  "primary_fail_streak (SetPolicy new_orchestrator p) = 0" "primary_success_streak (SetPolicy new_orchestrator p) = 0"
  "\<not> circuit_open (SetPolicy new_orchestrator p)" "orch_policy (SetPolicy new_orchestrator p) = p"
  by (simp_all add: SetPolicy_def new_orchestrator_def)

lemma breaker_opens:
  assumes "length oks < 2 ^ 32" "primary_fail_streak o0 = 0"
    and h: "max 1 (unat (circuit_break_threshold (orch_policy o0))) \<le> trailing False oks"
  shows "circuit_open (observe o0 oks)"
proof (cases oks rule: rev_cases)
  case (snoc ys y)
  with h have y: "\<not> y" by (auto split: if_splits)
  have "unat (primary_fail_streak (observe o0 oks)) = trailing False oks" by (rule fail_streak [OF assms(1,2)])
  with h have "circuit_break_threshold (orch_policy o0) \<le> primary_fail_streak (observe o0 oks)"
    by (simp add: word_le_nat_alt)
  with snoc y show ?thesis by (simp add: observe_append)
qed (use h in simp)

lemma breaker_closes:
  assumes "length oks < 2 ^ 32" "primary_success_streak o0 = 0" "\<not> circuit_open o0"
    and h: "max 1 (unat (circuit_recover_threshold (orch_policy o0))) \<le> trailing True oks"
  shows "\<not> circuit_open (observe o0 oks)"
proof
  assume op: "circuit_open (observe o0 oks)"
  obtain ys where snoc: "oks = ys @ [True]" using h by (cases oks rule: rev_cases) (auto split: if_splits)
  with op have "primary_success_streak (observe o0 ys) + 1 < circuit_recover_threshold (orch_policy o0)"
    by (simp add: observe_append)
  then have "primary_success_streak (observe o0 oks) < circuit_recover_threshold (orch_policy o0)"
    using snoc by (auto simp: observe_append)
  then show False using h success_streak_open [OF assms(1-3) op] by (simp add: word_less_nat_alt)
qed

lemma breaker_opens_only:
  assumes "length oks < 2 ^ 32" "primary_fail_streak o0 = 0" "\<not> circuit_open o0" "circuit_open (observe o0 oks)"
  shows "\<exists>xs ys. oks = xs @ replicate (max 1 (unat (circuit_break_threshold (orch_policy o0)))) False @ ys"
  using assms(1,4)
proof (induction oks rule: rev_induct)
  case (snoc z zs)
  let ?n = "max 1 (unat (circuit_break_threshold (orch_policy o0)))"
  show ?case
  proof (cases "circuit_open (observe o0 zs)")
    case True
    with snoc obtain xs ys where "zs = xs @ replicate ?n False @ ys" by auto
    then show ?thesis by (intro exI [of _ xs] exI [of _ "ys @ [z]"]) simp
  next
    case False
    with snoc.prems(2) have z: "\<not> z" by (auto simp: observe_append split: if_splits)
    have "circuit_break_threshold (orch_policy o0) \<le> primary_fail_streak (observe o0 (zs @ [z]))"
      using snoc.prems(2) False z by (simp add: observe_append)
    then have "?n \<le> trailing False (zs @ [z])"
      using fail_streak [OF snoc.prems(1) assms(2)] z by (simp add: word_le_nat_alt)
    then obtain d where d: "trailing False (zs @ [z]) = d + ?n" by (metis add.commute le_Suc_ex)
    obtain xs where "zs @ [z] = xs @ replicate (trailing False (zs @ [z])) False" using trailing_decomp by blast
    then have "zs @ [z] = (xs @ replicate d False) @ replicate ?n False @ []" unfolding d replicate_add by simp
    then show ?thesis by blast
  qed
qed (simp add: assms(3))

text \<open>
  The circuit breaker follows the history of the sends. From a new orchestrator with any policy,
  over any history of fewer than \<open>2\<^sup>3\<^sup>2\<close> outcomes: the circuit is open after as many consecutive
  failures as the break threshold (at least one); it is closed after as many consecutive successes as
  the recover threshold (at least one); and it never opens unless that many consecutive failures
  occurred.
\<close>

theorem circuit_breaker_spec:
  assumes "length oks < 2 ^ 32"
  shows "(max 1 (unat (circuit_break_threshold p)) \<le> trailing False oks \<longrightarrow>
            IsCircuitOpen (observe (SetPolicy new_orchestrator p) oks)) \<and>
         (max 1 (unat (circuit_recover_threshold p)) \<le> trailing True oks \<longrightarrow>
            \<not> IsCircuitOpen (observe (SetPolicy new_orchestrator p) oks)) \<and>
         (IsCircuitOpen (observe (SetPolicy new_orchestrator p) oks) \<longrightarrow>
            (\<exists>xs ys. oks = xs @ replicate (max 1 (unat (circuit_break_threshold p))) False @ ys))"
proof -
  note o0 = new_orchestrator_init [of p]
  show ?thesis unfolding IsCircuitOpen_def
    using breaker_opens [OF assms o0(1)] breaker_closes [OF assms o0(2,3)] breaker_opens_only [OF assms o0(1,3)] o0(4)
    by simp
qed

theorem circuit_breaker_spec_witness:
  "IsCircuitOpen (observe (SetPolicy new_orchestrator default_OrchestratorPolicy) [True, False, False, False]) \<and>
   \<not> IsCircuitOpen (observe (SetPolicy new_orchestrator default_OrchestratorPolicy) [False, False, False, True, True])"
  using circuit_breaker_spec [of "[True, False, False, False]" default_OrchestratorPolicy]
    circuit_breaker_spec [of "[False, False, False, True, True]" default_OrchestratorPolicy]
  by (simp add: trailing_def default_OrchestratorPolicy_def)

section \<open>Fail-over\<close>

lemma ResolveFailover_alt:
  "ResolveFailover orch primary v2r r2v en_v en_r =
     (if primary = v2r \<and> en_v then r2v else if primary = r2v \<and> en_r then v2r else None)"
  by (simp add: ResolveFailover_def)

text \<open>
  The choice of the fail-over transport ignores the circuit breaker and the weights: two
  orchestrators in any two states, with any two policies, choose alike. On two different transports the
  choice is never the primary one, it is the other one exactly when fail-over is enabled for the
  primary's direction, and nothing otherwise.
\<close>

theorem ResolveFailover_ignores_state:
  "ResolveFailover o1 primary v2r r2v en_v en_r = ResolveFailover o2 primary v2r r2v en_v en_r \<and>
   (v2r \<noteq> r2v \<longrightarrow> primary \<noteq> None \<longrightarrow>
      ResolveFailover o1 primary v2r r2v en_v en_r \<noteq> primary \<and>
      ResolveFailover o1 v2r v2r r2v en_v en_r = (if en_v then r2v else None) \<and>
      ResolveFailover o1 r2v v2r r2v en_v en_r = (if en_r then v2r else None))"
  by (auto simp: ResolveFailover_alt)

theorem ResolveFailover_ignores_state_witness:
  "ResolveFailover (new_orchestrator\<lparr>circuit_open := True\<rparr>) (Some True) (Some True) (Some False) True False = Some False"
  using ResolveFailover_ignores_state [of "new_orchestrator\<lparr>circuit_open := True\<rparr>" "Some True" "Some True" "Some False"
      True False new_orchestrator, THEN conjunct2]
  by simp

end
