(* ===== verification/Posix_Message_Queue.thy ===== *)
theory Posix_Message_Queue
  imports Transport
begin

text \<open>
  \<^verbatim>\<open>ipc/posix_message_queue.cpp\<close> and \<^verbatim>\<open>interconnect/posix_mq_transport.cpp\<close>: message queues of the
  operating system as a transport. The system calls are a parameter, a record of functions on the state of
  the kernel; the locale \<open>mq_kernel\<close> states what their documentation promises, and a reference kernel
  satisfies it.
\<close>

section \<open>System calls\<close>

datatype errno = ETIMEDOUT | EAGAIN | EOTHER

record timespec =
  tv_sec :: int
  tv_nsec :: int

text \<open>
  Sending and receiving with \<open>None\<close> for the deadline are \<^verbatim>\<open>mq_send\<close> and \<^verbatim>\<open>mq_receive\<close>, with a deadline
  \<^verbatim>\<open>mq_timedsend\<close> and \<^verbatim>\<open>mq_timedreceive\<close>. The flags of a descriptor are its non-blocking bit.
\<close>

record 'k mq_api =
  clock_gettime :: "'k \<Rightarrow> timespec"
  mq_open :: "string \<Rightarrow> (int \<times> int) option \<Rightarrow> 'k \<Rightarrow> int \<times> 'k"
  mq_send :: "int \<Rightarrow> string \<Rightarrow> u32 \<Rightarrow> timespec option \<Rightarrow> 'k \<Rightarrow> errno option \<times> 'k"
  mq_receive :: "int \<Rightarrow> nat \<Rightarrow> timespec option \<Rightarrow> 'k \<Rightarrow> (errno + string \<times> u32) \<times> 'k"
  mq_getattr :: "int \<Rightarrow> 'k \<Rightarrow> bool option"
  mq_setattr :: "int \<Rightarrow> bool \<Rightarrow> 'k \<Rightarrow> bool \<times> 'k"
  mq_close :: "int \<Rightarrow> 'k \<Rightarrow> 'k"
  mq_unlink :: "string \<Rightarrow> 'k \<Rightarrow> 'k"

section \<open>The queue\<close>

record QueueConfig =
  q_name :: string
  q_max_messages :: int
  q_message_size :: int

record 'k PosixMessageQueue =
  queue_name :: string
  mqd :: int
  mq_message_size :: int
  kernel :: 'k

definition new_queue :: "'k \<Rightarrow> 'k PosixMessageQueue" where
  "new_queue k = \<lparr>queue_name = [], mqd = -1, mq_message_size = 256, kernel = k\<rparr>"

text \<open>\<^verbatim>\<open>/\<close> and \<^verbatim>\<open>%\<close> on non-negative \<^verbatim>\<open>int64\<close> values.\<close>

definition MakeAbsTimeout :: "timespec \<Rightarrow> int \<Rightarrow> timespec" where
  "MakeAbsTimeout now timeout_ms =
     (let sec = timeout_ms div 1000; nsec = (timeout_ms mod 1000) * 1000000;
          ts = \<lparr>tv_sec = tv_sec now + sec, tv_nsec = tv_nsec now + nsec\<rparr>
      in if tv_nsec ts \<ge> 1000000000
         then \<lparr>tv_sec = tv_sec ts + 1, tv_nsec = tv_nsec ts - 1000000000\<rparr> else ts)"

text \<open>False when a system call failed; else the original flags.\<close>

definition SetQueueNonBlocking :: "'k mq_api \<Rightarrow> int \<Rightarrow> bool \<Rightarrow> 'k \<Rightarrow> bool option \<times> 'k" where
  "SetQueueNonBlocking api fd enable k =
     (case mq_getattr api fd k of
        None \<Rightarrow> (None, k)
      | Some flags \<Rightarrow> (case mq_setattr api fd enable k of (ok, k') \<Rightarrow> (if ok then Some flags else None, k')))"

definition RestoreQueueFlags :: "'k mq_api \<Rightarrow> int \<Rightarrow> bool \<Rightarrow> 'k \<Rightarrow> 'k" where
  "RestoreQueueFlags api fd original_flags k = snd (mq_setattr api fd original_flags k)"

abbreviation name_ok :: "string \<Rightarrow> bool" where
  "name_ok n \<equiv> n \<noteq> [] \<and> hd n = CHR ''/''"

definition mq_Create :: "'k mq_api \<Rightarrow> QueueConfig \<Rightarrow> 'k PosixMessageQueue \<Rightarrow> ErrorCode \<times> 'k PosixMessageQueue" where
  "mq_Create api cfg q =
     (if \<not> name_ok (q_name cfg) then (kInvalidParam, q)
      else case mq_open api (q_name cfg) (Some (q_max_messages cfg, q_message_size cfg)) (kernel q) of
        (fd, k) \<Rightarrow>
          let q' = \<lparr>queue_name = q_name cfg, mqd = fd, mq_message_size = q_message_size cfg, kernel = k\<rparr> in
          if fd < 0 then (kQueueCreateFailed, q') else (kOk, q'))"

definition mq_Open :: "'k mq_api \<Rightarrow> QueueConfig \<Rightarrow> 'k PosixMessageQueue \<Rightarrow> ErrorCode \<times> 'k PosixMessageQueue" where
  "mq_Open api cfg q =
     (if \<not> name_ok (q_name cfg) then (kInvalidParam, q)
      else case mq_open api (q_name cfg) None (kernel q) of
        (fd, k) \<Rightarrow>
          let q' = \<lparr>queue_name = q_name cfg, mqd = fd, mq_message_size = q_message_size cfg, kernel = k\<rparr> in
          if fd < 0 then (kQueueCreateFailed, q') else (kOk, q'))"

text \<open>\<^verbatim>\<open>message.size() >= static_cast<std::size_t>(message_size_)\<close>: a negative size wraps around.\<close>

definition too_long :: "string \<Rightarrow> int \<Rightarrow> bool" where
  "too_long m sz \<longleftrightarrow> int (length m) \<ge> sz mod 2 ^ 64"

text \<open>What is put in the queue: the characters and the terminating null.\<close>

definition c_bytes :: "string \<Rightarrow> string" where
  "c_bytes m = m @ [CHR 0x00]"

definition mq_SendNonBlocking ::
  "'k mq_api \<Rightarrow> string \<Rightarrow> u32 \<Rightarrow> 'k PosixMessageQueue \<Rightarrow> ErrorCode \<times> 'k PosixMessageQueue" where
  "mq_SendNonBlocking api m p q =
     (if mqd q < 0 \<or> too_long m (mq_message_size q) then (kInvalidParam, q)
      else case SetQueueNonBlocking api (mqd q) True (kernel q) of
        (None, k) \<Rightarrow> (kQueueSendFailed, q\<lparr>kernel := k\<rparr>)
      | (Some flags, k) \<Rightarrow>
          (case mq_send api (mqd q) (c_bytes m) p None k of
             (rc, k') \<Rightarrow>
               (case rc of None \<Rightarrow> kOk | Some e \<Rightarrow> if e = EAGAIN then kWouldBlock else kQueueSendFailed,
                q\<lparr>kernel := RestoreQueueFlags api (mqd q) flags k'\<rparr>)))"

definition mq_SendWithTimeout ::
  "'k mq_api \<Rightarrow> string \<Rightarrow> u32 \<Rightarrow> int \<Rightarrow> 'k PosixMessageQueue \<Rightarrow> ErrorCode \<times> 'k PosixMessageQueue" where
  "mq_SendWithTimeout api m p timeout_ms q =
     (if mqd q < 0 \<or> too_long m (mq_message_size q) then (kInvalidParam, q)
      else if timeout_ms < 0 then
        (case mq_send api (mqd q) (c_bytes m) p None (kernel q) of
           (rc, k) \<Rightarrow> (if rc = None then kOk else kQueueSendFailed, q\<lparr>kernel := k\<rparr>))
      else
        (case mq_send api (mqd q) (c_bytes m) p (Some (MakeAbsTimeout (clock_gettime api (kernel q)) timeout_ms)) (kernel q) of
           (rc, k) \<Rightarrow>
             (case rc of None \<Rightarrow> kOk
              | Some e \<Rightarrow> if e = ETIMEDOUT then kTimeout else if e = EAGAIN then kWouldBlock else kQueueSendFailed,
              q\<lparr>kernel := k\<rparr>)))"

definition mq_Send :: "'k mq_api \<Rightarrow> string \<Rightarrow> u32 \<Rightarrow> 'k PosixMessageQueue \<Rightarrow> ErrorCode \<times> 'k PosixMessageQueue" where
  "mq_Send api m p q = mq_SendWithTimeout api m p (-1) q"

text \<open>
  \<^verbatim>\<open>message->assign(buffer.data())\<close>: the characters up to the first null. The bytes every send of this
  class puts in a queue end in one.
\<close>

definition c_string :: "string \<Rightarrow> string" where
  "c_string bytes = takeWhile (\<lambda>c. c \<noteq> CHR 0x00) bytes"

text \<open>The output parameters are cells, \<open>None\<close> for a null pointer.\<close>

definition mq_ReceiveNonBlocking ::
  "'k mq_api \<Rightarrow> string option \<Rightarrow> u32 option \<Rightarrow> 'k PosixMessageQueue \<Rightarrow> (ErrorCode \<times> string option \<times> u32 option) \<times> 'k PosixMessageQueue" where
  "mq_ReceiveNonBlocking api m p q =
     (if mqd q < 0 \<or> m = None \<or> p = None then ((kInvalidParam, m, p), q)
      else case SetQueueNonBlocking api (mqd q) True (kernel q) of
        (None, k) \<Rightarrow> ((kQueueReceiveFailed, m, p), q\<lparr>kernel := k\<rparr>)
      | (Some flags, k) \<Rightarrow>
          (case mq_receive api (mqd q) (nat (mq_message_size q mod 2 ^ 64)) None k of
             (res, k') \<Rightarrow>
               (case res of
                  Inr (bytes, prio) \<Rightarrow> (kOk, Some (c_string bytes), Some prio)
                | Inl e \<Rightarrow> (if e = EAGAIN then kWouldBlock else kQueueReceiveFailed, m, p),
                q\<lparr>kernel := RestoreQueueFlags api (mqd q) flags k'\<rparr>)))"

definition mq_ReceiveWithTimeout ::
  "'k mq_api \<Rightarrow> string option \<Rightarrow> u32 option \<Rightarrow> int \<Rightarrow> 'k PosixMessageQueue
     \<Rightarrow> (ErrorCode \<times> string option \<times> u32 option) \<times> 'k PosixMessageQueue" where
  "mq_ReceiveWithTimeout api m p timeout_ms q =
     (if mqd q < 0 \<or> m = None \<or> p = None then ((kInvalidParam, m, p), q)
      else
        let size = nat (mq_message_size q mod 2 ^ 64) in
        if timeout_ms < 0 then
          (case mq_receive api (mqd q) size None (kernel q) of
             (res, k) \<Rightarrow>
               (case res of Inr (bytes, prio) \<Rightarrow> (kOk, Some (c_string bytes), Some prio)
                | Inl e \<Rightarrow> (kQueueReceiveFailed, m, p), q\<lparr>kernel := k\<rparr>))
        else
          (case mq_receive api (mqd q) size (Some (MakeAbsTimeout (clock_gettime api (kernel q)) timeout_ms)) (kernel q) of
             (res, k) \<Rightarrow>
               (case res of Inr (bytes, prio) \<Rightarrow> (kOk, Some (c_string bytes), Some prio)
                | Inl e \<Rightarrow> (if e = ETIMEDOUT then kTimeout else if e = EAGAIN then kWouldBlock else kQueueReceiveFailed, m, p),
                q\<lparr>kernel := k\<rparr>)))"

definition mq_Receive ::
  "'k mq_api \<Rightarrow> string option \<Rightarrow> u32 option \<Rightarrow> 'k PosixMessageQueue \<Rightarrow> (ErrorCode \<times> string option \<times> u32 option) \<times> 'k PosixMessageQueue" where
  "mq_Receive api m p q = mq_ReceiveWithTimeout api m p (-1) q"

definition mq_Close :: "'k mq_api \<Rightarrow> 'k PosixMessageQueue \<Rightarrow> 'k PosixMessageQueue" where
  "mq_Close api q = (if mqd q \<ge> 0 then q\<lparr>kernel := mq_close api (mqd q) (kernel q), mqd := -1\<rparr> else q)"

definition mq_Unlink :: "'k mq_api \<Rightarrow> 'k PosixMessageQueue \<Rightarrow> 'k PosixMessageQueue" where
  "mq_Unlink api q = (if queue_name q \<noteq> [] then q\<lparr>kernel := mq_unlink api (queue_name q) (kernel q)\<rparr> else q)"

section \<open>The transport\<close>

definition PosixMq_Create ::
  "'k mq_api \<Rightarrow> TransportEndpointConfig \<Rightarrow> 'k PosixMessageQueue \<Rightarrow> ErrorCode \<times> 'k PosixMessageQueue" where
  "PosixMq_Create api cfg q =
     mq_Create api \<lparr>q_name = name cfg, q_max_messages = max_messages cfg, q_message_size = message_size cfg\<rparr> q"

definition PosixMq_DiscardOldest :: "'k mq_api \<Rightarrow> 'k PosixMessageQueue \<Rightarrow> ErrorCode \<times> 'k PosixMessageQueue" where
  "PosixMq_DiscardOldest api q =
     (case mq_ReceiveNonBlocking api (Some []) (Some 0) q of
        ((ec, _, _), q') \<Rightarrow> (if ec = kWouldBlock then kOk else ec, q'))"

definition PosixMqTransport :: "'k mq_api \<Rightarrow> 'k PosixMessageQueue ITransport" where
  "PosixMqTransport api = \<lparr>Name = ''posix_mq'',
     Caps = \<lparr>supports_priority = True, supports_discard_oldest = True, supports_unlink = True\<rparr>,
     Create = PosixMq_Create api,
     SendWithTimeout = mq_SendWithTimeout api,
     ReceiveWithTimeout = (\<lambda>m p t q. case mq_ReceiveWithTimeout api (Some m) (Some p) t q of
        ((ec, m', p'), q') \<Rightarrow> ((ec, the m', the p'), q')),
     DiscardOldest = PosixMq_DiscardOldest api,
     Close = mq_Close api, Unlink = mq_Unlink api\<rparr>"

section \<open>What the kernel promises\<close>

text \<open>A message goes behind those of its priority or a higher one.\<close>

definition enqueue_prio :: "'a \<times> u32 \<Rightarrow> ('a \<times> u32) list \<Rightarrow> ('a \<times> u32) list" where
  "enqueue_prio x q = takeWhile (\<lambda>y. snd x \<le> snd y) q @ x # dropWhile (\<lambda>y. snd x \<le> snd y) q"

text \<open>\<open>queue fd k\<close>: the messages of the queue open as \<open>fd\<close>, in the order they will be received.\<close>

locale mq_kernel =
  fixes api :: "'k mq_api"
    and queue :: "int \<Rightarrow> 'k \<Rightarrow> (string \<times> u32) list"
  assumes mq_send_ok: "mq_send api fd m p dl k = (None, k') \<Longrightarrow> queue fd k' = enqueue_prio (m, p) (queue fd k)"
    and mq_send_error: "mq_send api fd m p dl k = (Some e, k') \<Longrightarrow> queue fd k' = queue fd k"
    and mq_receive_ok: "mq_receive api fd n dl k = (Inr x, k') \<Longrightarrow> queue fd k = x # queue fd k'"
    and mq_receive_error: "mq_receive api fd n dl k = (Inl e, k') \<Longrightarrow> queue fd k' = queue fd k"
    and mq_setattr_queue: "queue fd (snd (mq_setattr api fd flags k)) = queue fd k"

text \<open>The text of the bytes in a queue: without the terminating null.\<close>

definition strip_null :: "string \<Rightarrow> string" where
  "strip_null bytes = (if bytes \<noteq> [] \<and> last bytes = CHR 0x00 then butlast bytes else bytes)"

definition mq_contents :: "(int \<Rightarrow> 'k \<Rightarrow> (string \<times> u32) list) \<Rightarrow> 'k PosixMessageQueue \<Rightarrow> string multiset" where
  "mq_contents queue q = image_mset (\<lambda>x. strip_null (fst x)) (mset (queue (mqd q) (kernel q)))"

lemma strip_null_c_bytes [simp]: "strip_null (c_bytes m) = m"
  by (simp add: strip_null_def c_bytes_def)

lemma mset_enqueue_prio [simp]: "mset (enqueue_prio x q) = add_mset x (mset q)"
proof -
  have "mset (enqueue_prio x q) = add_mset x (mset (takeWhile (\<lambda>y. snd x \<le> snd y) q) + mset (dropWhile (\<lambda>y. snd x \<le> snd y) q))"
    by (simp add: enqueue_prio_def)
  also have "mset (takeWhile (\<lambda>y. snd x \<le> snd y) q) + mset (dropWhile (\<lambda>y. snd x \<le> snd y) q) = mset q"
    by (metis mset_append takeWhile_dropWhile_id)
  finally show ?thesis .
qed

lemma takeWhile_upto: "c \<notin> set m \<Longrightarrow> takeWhile (\<lambda>x. x \<noteq> c) (m @ [c]) = m"
  by (induction m) auto

lemma c_string_strip:
  assumes "CHR 0x00 \<notin> set (strip_null bytes)"
  shows "c_string bytes = strip_null bytes"
proof (cases "bytes \<noteq> [] \<and> last bytes = CHR 0x00")
  case True
  then obtain m where "bytes = m @ [CHR 0x00]" by (metis append_butlast_last_id)
  then show ?thesis using assms takeWhile_upto [of "CHR 0x00" m] by (simp add: strip_null_def c_string_def)
next
  case False
  then have "strip_null bytes = bytes" by (auto simp: strip_null_def)
  moreover have "takeWhile (\<lambda>c. c \<noteq> CHR 0x00) bytes = bytes"
    using assms calculation by (auto simp: takeWhile_eq_all_conv)
  ultimately show ?thesis by (simp add: c_string_def)
qed

lemma c_string_c_bytes: "CHR 0x00 \<notin> set m \<Longrightarrow> c_string (c_bytes m) = m"
  using c_string_strip [of "c_bytes m"] by simp

lemma SetQueueNonBlocking_kernel:
  "SetQueueNonBlocking api fd en k = (r, k') \<Longrightarrow> k' = k \<or> k' = snd (mq_setattr api fd en k)"
  by (auto simp: SetQueueNonBlocking_def split: option.splits prod.splits)

context mq_kernel
begin

lemma SetQueueNonBlocking_queue: "SetQueueNonBlocking api fd en k = (r, k') \<Longrightarrow> queue fd k' = queue fd k"
  by (auto dest!: SetQueueNonBlocking_kernel simp: mq_setattr_queue)

lemma Send_queue:
  assumes "mq_SendWithTimeout api m p t q = (ec, q')"
  shows "mqd q' = mqd q \<and> mq_message_size q' = mq_message_size q \<and>
     queue (mqd q') (kernel q') = (if ec = kOk then enqueue_prio (c_bytes m, p) (queue (mqd q) (kernel q)) else queue (mqd q) (kernel q))"
  using assms mq_send_ok mq_send_error
  by (auto simp: mq_SendWithTimeout_def split: if_splits prod.splits option.splits)

lemma Receive_queue:
  assumes "mq_ReceiveWithTimeout api (Some m0) (Some p0) t q = ((ec, m, p), q')"
  shows "mqd q' = mqd q \<and>
     (if ec = kOk then \<exists>bytes pr. queue (mqd q) (kernel q) = (bytes, pr) # queue (mqd q') (kernel q') \<and> m = Some (c_string bytes) \<and> p = Some pr
      else queue (mqd q') (kernel q') = queue (mqd q) (kernel q) \<and> m = Some m0 \<and> p = Some p0)"
  using assms mq_receive_ok mq_receive_error
  by (auto simp: mq_ReceiveWithTimeout_def Let_def split: if_splits prod.splits sum.splits)

lemma ReceiveNonBlocking_queue:
  assumes "mq_ReceiveNonBlocking api (Some m0) (Some p0) q = ((ec, m, p), q')"
  shows "mqd q' = mqd q \<and>
     (if ec = kOk then \<exists>bytes pr. queue (mqd q) (kernel q) = (bytes, pr) # queue (mqd q') (kernel q')
      else queue (mqd q') (kernel q') = queue (mqd q) (kernel q))"
proof (cases "mqd q < 0")
  case True
  then show ?thesis using assms by (simp add: mq_ReceiveNonBlocking_def)
next
  case False
  obtain fl k where s: "SetQueueNonBlocking api (mqd q) True (kernel q) = (fl, k)" by fastforce
  then have k: "queue (mqd q) k = queue (mqd q) (kernel q)" by (rule SetQueueNonBlocking_queue)
  obtain res k' where r: "mq_receive api (mqd q) (nat (mq_message_size q mod 2 ^ 64)) None k = (res, k')" by fastforce
  show ?thesis
  proof (cases fl)
    case None
    then show ?thesis using assms False s k by (auto simp: mq_ReceiveNonBlocking_def)
  next
    case (Some flags)
    show ?thesis
    proof (cases res)
      case (Inl e)
      with mq_receive_error [of "mqd q" _ None k] r have "queue (mqd q) k' = queue (mqd q) k" by blast
      with Inl Some assms False s r k show ?thesis
        by (auto simp: mq_ReceiveNonBlocking_def RestoreQueueFlags_def mq_setattr_queue split: if_splits)
    next
      case (Inr x)
      with mq_receive_ok [of "mqd q" _ None k] r have "queue (mqd q) k = x # queue (mqd q) k'" by blast
      with k have "queue (mqd q) (kernel q) = x # queue (mqd q) k'" by simp
      with Inr Some assms False s r show ?thesis
        by (cases x) (auto simp: mq_ReceiveNonBlocking_def RestoreQueueFlags_def mq_setattr_queue)
    qed
  qed
qed

lemma Discard_queue:
  assumes "PosixMq_DiscardOldest api q = (ec, q')"
  shows "mqd q' = mqd q \<and>
     (queue (mqd q') (kernel q') = queue (mqd q) (kernel q) \<or>
      ec = kOk \<and> (\<exists>x. queue (mqd q) (kernel q) = x # queue (mqd q') (kernel q')))"
proof -
  obtain ec0 m p where "mq_ReceiveNonBlocking api (Some []) (Some 0) q = ((ec0, m, p), q')" "ec = (if ec0 = kWouldBlock then kOk else ec0)"
    using assms by (auto simp: PosixMq_DiscardOldest_def split: prod.splits)
  with ReceiveNonBlocking_queue show ?thesis by (metis (full_types) ErrorCode.distinct(5))
qed

end

sublocale mq_kernel \<subseteq> mq: message_transport "PosixMqTransport api" "mq_contents queue"
proof
  fix m p t s s' ec
  assume "ITransport.SendWithTimeout (PosixMqTransport api) m p t s = (kOk, s')"
  then show "mq_contents queue s' = add_mset m (mq_contents queue s)"
    using Send_queue [of m p t s kOk s', THEN conjunct2, THEN conjunct2] by (simp add: PosixMqTransport_def mq_contents_def)
next
  fix m p t s s' ec
  assume "ITransport.SendWithTimeout (PosixMqTransport api) m p t s = (ec, s')" "ec \<noteq> kOk"
  then show "mq_contents queue s' = mq_contents queue s"
    using Send_queue [of m p t s ec s', THEN conjunct2, THEN conjunct2] by (simp add: PosixMqTransport_def mq_contents_def)
next
  fix s s'
  assume "ITransport.DiscardOldest (PosixMqTransport api) s = (kOk, s')"
  then have "PosixMq_DiscardOldest api s = (kOk, s')" by (simp add: PosixMqTransport_def)
  from Discard_queue [OF this] consider "mq_contents queue s' = mq_contents queue s"
    | x where "mq_contents queue s = add_mset x (mq_contents queue s')" by (auto simp: mq_contents_def)
  then show "\<exists>d. size d \<le> 1 \<and> mq_contents queue s = mq_contents queue s' + d"
  proof cases
    case 1
    then show ?thesis by (intro exI [of _ "{#}"]) simp
  next
    case (2 x)
    then show ?thesis by (intro exI [of _ "{#x#}"]) simp
  qed
next
  fix s s' ec
  assume "ITransport.DiscardOldest (PosixMqTransport api) s = (ec, s')" "ec \<noteq> kOk"
  then show "mq_contents queue s' = mq_contents queue s"
    using Discard_queue [of s ec s', THEN conjunct2] by (auto simp: PosixMqTransport_def mq_contents_def)
next
  fix m0 p0 t s m p s'
  assume "ITransport.ReceiveWithTimeout (PosixMqTransport api) m0 p0 t s = ((kOk, m, p), s')"
  then obtain bytes pr where "mqd s' = mqd s" "queue (mqd s) (kernel s) = (bytes, pr) # queue (mqd s') (kernel s')" "m = c_string bytes"
    using Receive_queue by (fastforce simp: PosixMqTransport_def split: prod.splits)
  then show "\<exists>raw. mq_contents queue s = add_mset raw (mq_contents queue s') \<and> (CHR 0x00 \<notin> set raw \<longrightarrow> m = raw)"
    using c_string_strip [of bytes] by (intro exI [of _ "strip_null bytes"]) (simp add: mq_contents_def)
next
  fix m0 p0 t s ec m p s'
  assume "ITransport.ReceiveWithTimeout (PosixMqTransport api) m0 p0 t s = ((ec, m, p), s')" "ec \<noteq> kOk"
  then show "mq_contents queue s' = mq_contents queue s"
    using Receive_queue by (fastforce simp: PosixMqTransport_def mq_contents_def split: prod.splits)
qed

context mq_kernel
begin

lemma contract: "message_transport (PosixMqTransport api) (mq_contents queue)"
  by unfold_locales

lemma send_then_receive:
  assumes "mq_SendWithTimeout api m p t q = (kOk, q1)" "queue (mqd q) (kernel q) = []"
    and "mq_ReceiveWithTimeout api (Some m0) (Some p0) t' q1 = ((kOk, out, pr), q2)"
  shows "out = Some (takeWhile (\<lambda>c. c \<noteq> CHR 0x00) m) \<and> pr = Some p \<and> queue (mqd q2) (kernel q2) = []"
proof -
  have q1: "queue (mqd q1) (kernel q1) = [(c_bytes m, p)]"
    using Send_queue [OF assms(1), THEN conjunct2, THEN conjunct2] assms(2) by (simp add: enqueue_prio_def)
  have "c_string (c_bytes m) = takeWhile (\<lambda>c. c \<noteq> CHR 0x00) m"
    unfolding c_string_def c_bytes_def by (induction m) auto
  with Receive_queue [OF assms(3), THEN conjunct2] q1 show ?thesis by auto
qed

lemma discard_head:
  assumes "PosixMq_DiscardOldest api q = (ec, q')" "queue (mqd q') (kernel q') \<noteq> queue (mqd q) (kernel q)"
  shows "queue (mqd q') (kernel q') = tl (queue (mqd q) (kernel q))" "queue (mqd q) (kernel q) \<noteq> []"
  using Discard_queue [OF assms(1), THEN conjunct2] assms(2) by auto

end

text \<open>Sending keeps the order of delivery: no message before one of a higher priority.\<close>

definition by_priority :: "(string \<times> u32) list \<Rightarrow> bool" where
  "by_priority = sorted_wrt (\<lambda>x y. snd y \<le> snd x)"

lemma enqueue_prio_sorted: "by_priority q \<Longrightarrow> by_priority (enqueue_prio x q)"
proof (induction q)
  case (Cons y q)
  have hi: "\<forall>z \<in> set q. snd z \<le> snd y" and srt: "by_priority q" using Cons.prems by (auto simp: by_priority_def)
  show ?case
  proof (cases "snd x \<le> snd y")
    case True
    then have "enqueue_prio x (y # q) = y # enqueue_prio x q" by (simp add: enqueue_prio_def)
    moreover have "set (enqueue_prio x q) = insert x (set q)"
      using mset_enqueue_prio [of x q] by (metis set_mset_add_mset_insert set_mset_mset)
    ultimately show ?thesis using Cons.IH [OF srt] hi True by (simp add: by_priority_def)
  next
    case False
    then have "enqueue_prio x (y # q) = x # y # q" by (simp add: enqueue_prio_def)
    then show ?thesis using False hi Cons.prems by (auto simp: by_priority_def)
  qed
qed (simp add: by_priority_def enqueue_prio_def)

section \<open>A reference kernel\<close>

text \<open>One bounded queue; a full queue refuses, at the deadline or at once.\<close>

record ref_state =
  ref_msgs :: "(string \<times> u32) list"
  ref_max :: nat
  ref_nonblock :: bool

definition ref_api :: "ref_state mq_api" where
  "ref_api = \<lparr>clock_gettime = (\<lambda>k. \<lparr>tv_sec = 0, tv_nsec = 0\<rparr>),
     mq_open = (\<lambda>n attr k. (3, case attr of None \<Rightarrow> k | Some (mx, sz) \<Rightarrow> k\<lparr>ref_max := nat mx\<rparr>)),
     mq_send = (\<lambda>fd m p dl k. if length (ref_msgs k) < ref_max k then (None, k\<lparr>ref_msgs := enqueue_prio (m, p) (ref_msgs k)\<rparr>)
        else (Some (if ref_nonblock k then EAGAIN else if dl = None then EOTHER else ETIMEDOUT), k)),
     mq_receive = (\<lambda>fd n dl k. case ref_msgs k of
          [] \<Rightarrow> (Inl (if ref_nonblock k then EAGAIN else if dl = None then EOTHER else ETIMEDOUT), k)
        | x # xs \<Rightarrow> (Inr x, k\<lparr>ref_msgs := xs\<rparr>)),
     mq_getattr = (\<lambda>fd k. Some (ref_nonblock k)),
     mq_setattr = (\<lambda>fd fl k. (True, k\<lparr>ref_nonblock := fl\<rparr>)),
     mq_close = (\<lambda>fd k. k), mq_unlink = (\<lambda>n k. k)\<rparr>"

definition ref_queue :: "int \<Rightarrow> ref_state \<Rightarrow> (string \<times> u32) list" where
  "ref_queue fd k = ref_msgs k"

interpretation ref: mq_kernel ref_api ref_queue
  by unfold_locales (auto simp: ref_api_def ref_queue_def split: if_splits list.splits)

definition ref_transport_queue :: "(string \<times> u32) list \<Rightarrow> ref_state PosixMessageQueue" where
  "ref_transport_queue ms = \<lparr>queue_name = ''/q'', mqd = 3, mq_message_size = 64,
     kernel = \<lparr>ref_msgs = ms, ref_max = 4, ref_nonblock = False\<rparr>\<rparr>"

section \<open>Properties\<close>

text \<open>
  C26: the message queue transport keeps the contract of a transport, on every kernel that behaves as
  documented: each successful send adds its text exactly once, failures add and remove nothing, a receive
  takes out one text and returns it unless it contains a null character, a discard removes at most one.
\<close>

theorem posix_mq_keeps_contract:
  "mq_kernel api queue \<Longrightarrow> message_transport (PosixMqTransport api) (mq_contents queue)"
  by (rule mq_kernel.contract)

theorem posix_mq_keeps_contract_witness: "message_transport (PosixMqTransport ref_api) (mq_contents ref_queue)"
  by (rule posix_mq_keeps_contract [OF ref.mq_kernel_axioms])

text \<open>
  A message sent through a queue that was empty comes back with its priority, cut at its first null
  character (whole, when it has none), and leaves the queue empty.
\<close>

theorem mq_send_receive:
  assumes "mq_kernel api queue" and "mq_SendWithTimeout api m p t q = (kOk, q1)" and "queue (mqd q) (kernel q) = []"
    and "mq_ReceiveWithTimeout api (Some m0) (Some p0) t' q1 = ((kOk, out, pr), q2)"
  shows "out = Some (takeWhile (\<lambda>c. c \<noteq> CHR 0x00) m) \<and> pr = Some p \<and> queue (mqd q2) (kernel q2) = []"
  by (rule mq_kernel.send_then_receive [OF assms])

theorem mq_send_receive_witness:
  "\<exists>q1 q2. mq_SendWithTimeout ref_api ''abc'' 7 50 (ref_transport_queue []) = (kOk, q1) \<and>
     mq_ReceiveWithTimeout ref_api (Some []) (Some 0) 50 q1 = ((kOk, Some ''abc'', Some 7), q2)"
proof -
  have s: "mq_SendWithTimeout ref_api ''abc'' 7 50 (ref_transport_queue []) = (kOk, ref_transport_queue [(c_bytes ''abc'', 7)])"
    by (simp add: mq_SendWithTimeout_def ref_transport_queue_def ref_api_def too_long_def enqueue_prio_def)
  obtain out pr q2 where r: "mq_ReceiveWithTimeout ref_api (Some []) (Some 0) 50 (ref_transport_queue [(c_bytes ''abc'', 7)]) = ((kOk, out, pr), q2)"
    by (simp add: mq_ReceiveWithTimeout_def ref_transport_queue_def ref_api_def)
  have "out = Some ''abc'' \<and> pr = Some 7"
    using mq_send_receive [OF ref.mq_kernel_axioms s _ r] by (simp add: ref_queue_def ref_transport_queue_def)
  with s r show ?thesis by blast
qed

text \<open>
  \<^verbatim>\<open>DiscardOldest\<close> of the message queue transport discards the most urgent message, not the oldest
  one. On every documented kernel and a queue in delivery order, if it removes a message then that message
  has at least the priority of every message it leaves, however long those have been waiting.
\<close>

theorem DiscardOldest_drops_most_urgent:
  assumes "mq_kernel api queue" and "by_priority (queue (mqd q) (kernel q))"
    and "PosixMq_DiscardOldest api q = (ec, q')" and "queue (mqd q') (kernel q') \<noteq> queue (mqd q) (kernel q)"
  shows "\<exists>x. queue (mqd q) (kernel q) = x # queue (mqd q') (kernel q') \<and> (\<forall>y \<in> set (queue (mqd q') (kernel q')). snd y \<le> snd x)"
proof -
  note d = mq_kernel.discard_head [OF assms(1,3,4)]
  then obtain x where x: "queue (mqd q) (kernel q) = x # queue (mqd q') (kernel q')" by (cases "queue (mqd q) (kernel q)") auto
  with assms(2) show ?thesis by (auto simp: by_priority_def)
qed

theorem DiscardOldest_drops_most_urgent_witness:
  "\<exists>x. [(c_bytes ''urgent'', 9), (c_bytes ''waiting longer'', 0)] = x # [(c_bytes ''waiting longer'', 0 :: u32)] \<and>
     ref_queue 3 (kernel (snd (PosixMq_DiscardOldest ref_api
       (ref_transport_queue [(c_bytes ''urgent'', 9), (c_bytes ''waiting longer'', 0)])))) = [(c_bytes ''waiting longer'', 0)] \<and> 0 \<le> snd x"
proof -
  let ?q = "ref_transport_queue [(c_bytes ''urgent'', 9), (c_bytes ''waiting longer'', 0)]"
  have q': "PosixMq_DiscardOldest ref_api ?q = (kOk, ref_transport_queue [(c_bytes ''waiting longer'', 0)])"
    by (simp add: PosixMq_DiscardOldest_def mq_ReceiveNonBlocking_def SetQueueNonBlocking_def RestoreQueueFlags_def
        ref_transport_queue_def ref_api_def)
  have "\<exists>x. ref_queue (mqd ?q) (kernel ?q) = x # ref_queue 3 (kernel (ref_transport_queue [(c_bytes ''waiting longer'', 0)])) \<and>
      (\<forall>y \<in> set (ref_queue 3 (kernel (ref_transport_queue [(c_bytes ''waiting longer'', 0)]))). snd y \<le> snd x)"
    using DiscardOldest_drops_most_urgent [OF ref.mq_kernel_axioms _ q']
    by (simp add: ref_queue_def ref_transport_queue_def by_priority_def)
  then show ?thesis using q' by (simp add: ref_queue_def ref_transport_queue_def)
qed

text \<open>
  The deadline of a timed call is exact. From a normalised time and a timeout that is not negative,
  \<^verbatim>\<open>MakeAbsTimeout\<close> gives a normalised time that lies exactly the timeout later: no carry is lost.
\<close>

theorem MakeAbsTimeout_exact:
  assumes "0 \<le> tv_nsec now" and "tv_nsec now < 1000000000" and "0 \<le> timeout_ms"
  shows "0 \<le> tv_nsec (MakeAbsTimeout now timeout_ms) \<and> tv_nsec (MakeAbsTimeout now timeout_ms) < 1000000000 \<and>
     tv_sec (MakeAbsTimeout now timeout_ms) * 1000000000 + tv_nsec (MakeAbsTimeout now timeout_ms) =
       tv_sec now * 1000000000 + tv_nsec now + timeout_ms * 1000000"
proof -
  have "timeout_ms div 1000 * 1000 + timeout_ms mod 1000 = timeout_ms" by (rule div_mult_mod_eq)
  then have "timeout_ms div 1000 * 1000000000 + timeout_ms mod 1000 * 1000000 = timeout_ms * 1000000" by linarith
  moreover have "0 \<le> timeout_ms mod 1000" "timeout_ms mod 1000 < 1000" by simp_all
  ultimately show ?thesis using assms by (auto simp: MakeAbsTimeout_def Let_def)
qed

theorem MakeAbsTimeout_exact_witness:
  "MakeAbsTimeout \<lparr>tv_sec = 5, tv_nsec = 999000000\<rparr> 1250 = \<lparr>tv_sec = 7, tv_nsec = 249000000\<rparr> \<and>
   tv_nsec (MakeAbsTimeout \<lparr>tv_sec = 5, tv_nsec = 999000000\<rparr> 1250) < 1000000000"
  using MakeAbsTimeout_exact [of "\<lparr>tv_sec = 5, tv_nsec = 999000000\<rparr>" 1250]
  by (simp add: MakeAbsTimeout_def)

end
