(* ===== verification/Tcp_Transport.thy ===== *)
theory Tcp_Transport
  imports Transport
begin

text \<open>
  \<^verbatim>\<open>interconnect/tcp_transport.cpp\<close>, the POSIX branch: messages as length-prefixed frames on a connected
  stream socket. The socket calls are a parameter, a record of functions on the state of the kernel; the
  locales \<open>stream_socket\<close> and \<open>descriptor_table\<close> state what their documentation promises, and a
  reference kernel that moves any number of bytes per call satisfies them. The loops that move all bytes
  may run for ever (a call may be interrupted again and again), so they are partial functions and \<open>None\<close>
  stands for not returning.
\<close>

unbundle bit_operations_syntax

section \<open>Socket calls\<close>

datatype sock_errno = S_EINTR | S_EINPROGRESS | S_OTHER

datatype sock_option = TCP_NODELAY | SO_KEEPALIVE

record timeval =
  tvl_sec :: int
  tvl_usec :: int

text \<open>
  \<^verbatim>\<open>inet_pton\<close> gives its return value and the address it stored, \<^verbatim>\<open>select\<close> is told whether the descriptor is
  in the set of writers or of readers, \<^verbatim>\<open>recv\<close> gives the bytes it stored (none at the end of the stream),
  \<^verbatim>\<open>getsockopt\<close> its return value and the pending error. Descriptors are below \<^verbatim>\<open>FD_SETSIZE\<close>.
\<close>

record 'k socket_api =
  sys_socket :: "'k \<Rightarrow> int \<times> 'k"
  fcntl_getfl :: "int \<Rightarrow> 'k \<Rightarrow> int"
  fcntl_setfl :: "int \<Rightarrow> int \<Rightarrow> 'k \<Rightarrow> int \<times> 'k"
  inet_pton :: "string \<Rightarrow> int \<times> u32"
  sys_connect :: "int \<Rightarrow> u32 \<Rightarrow> u16 \<Rightarrow> 'k \<Rightarrow> sock_errno option \<times> 'k"
  sys_select :: "int \<Rightarrow> bool \<Rightarrow> timeval option \<Rightarrow> 'k \<Rightarrow> int \<times> 'k"
  sys_send :: "int \<Rightarrow> string \<Rightarrow> 'k \<Rightarrow> (sock_errno + nat) \<times> 'k"
  sys_recv :: "int \<Rightarrow> nat \<Rightarrow> 'k \<Rightarrow> (sock_errno + string) \<times> 'k"
  get_so_error :: "int \<Rightarrow> 'k \<Rightarrow> (int \<times> int) \<times> 'k"
  sys_setsockopt :: "int \<Rightarrow> sock_option \<Rightarrow> int \<Rightarrow> 'k \<Rightarrow> 'k"
  sys_close :: "int \<Rightarrow> 'k \<Rightarrow> 'k"

definition O_NONBLOCK :: int where
  "O_NONBLOCK = 2048"

record 'k TcpTransport =
  socket_fd :: int
  net :: 'k

definition new_tcp :: "'k \<Rightarrow> 'k TcpTransport" where
  "new_tcp k = \<lparr>socket_fd = -1, net = k\<rparr>"

section \<open>Parsing the endpoint\<close>

definition MapSocketError :: ErrorCode where
  "MapSocketError = kQueueSendFailed"

text \<open>The characters a C function sees of \<^verbatim>\<open>c_str()\<close>.\<close>

definition c_str :: "string \<Rightarrow> string" where
  "c_str s = takeWhile (\<lambda>c. c \<noteq> CHR 0x00) s"

text \<open>
  \<^verbatim>\<open>strtol\<close> in base 10 with a 64-bit \<^verbatim>\<open>long\<close>: the value, clamped to the range of the type, and what is left
  from the position it stored in \<^verbatim>\<open>end\<close> on; all of the text when there is no digit.
\<close>

definition strtol :: "string \<Rightarrow> int \<times> string" where
  "strtol s =
     (let s1 = dropWhile is_space s;
          neg = (case s1 of c # _ \<Rightarrow> c = CHR ''-'' | [] \<Rightarrow> False);
          s2 = (case s1 of c # r \<Rightarrow> if c = CHR ''-'' \<or> c = CHR ''+'' then r else s1 | [] \<Rightarrow> []);
          ds = takeWhile is_digit s2;
          v = (if neg then - int (digits_val ds) else int (digits_val ds))
      in if ds = [] then (0, s)
         else (max (- (2 ^ 63)) (min (2 ^ 63 - 1) v), dropWhile is_digit s2))"

text \<open>The port is a cell, \<open>None\<close> for a null pointer.\<close>

definition ParsePort :: "string \<Rightarrow> u16 option \<Rightarrow> bool \<times> u16 option" where
  "ParsePort value port =
     (if port = None then (False, port)
      else case strtol (c_str value) of (parsed, rest) \<Rightarrow>
        if rest = c_str value \<or> rest \<noteq> [] \<or> parsed \<le> 0 \<or> parsed > 65535 then (False, port)
        else (True, Some (word_of_int parsed)))"

definition ParseHostPort ::
  "TransportEndpointConfig \<Rightarrow> string option \<Rightarrow> u16 option \<Rightarrow> bool \<times> string option \<times> u16 option" where
  "ParseHostPort config host port =
     (if host = None \<or> port = None then (False, host, port)
      else case (params config ''host'', params config ''port'') of
        (Some h, Some p) \<Rightarrow> (case ParsePort p port of (ok, port') \<Rightarrow> (ok, Some h, port'))
      | _ \<Rightarrow> (False, host, port))"

section \<open>Waiting and moving bytes\<close>

definition SetNonBlocking :: "'k socket_api \<Rightarrow> int \<Rightarrow> bool \<Rightarrow> 'k \<Rightarrow> int \<times> 'k" where
  "SetNonBlocking api fd enable k =
     (let flags = fcntl_getfl api fd k in
      if flags = -1 then (-1, k)
      else if enable then fcntl_setfl api fd (flags OR O_NONBLOCK) k
      else fcntl_setfl api fd (flags AND NOT O_NONBLOCK) k)"

definition WaitForSocket :: "'k socket_api \<Rightarrow> int \<Rightarrow> bool \<Rightarrow> int \<Rightarrow> 'k \<Rightarrow> ErrorCode \<times> 'k" where
  "WaitForSocket api fd write_ready timeout_ms k =
     (let tv = (if timeout_ms \<ge> 0
                then Some \<lparr>tvl_sec = timeout_ms div 1000, tvl_usec = (timeout_ms mod 1000) * 1000\<rparr> else None)
      in case sys_select api fd write_ready tv k of (res, k') \<Rightarrow>
           (if res = 0 then kTimeout else if res < 0 then MapSocketError else kOk, k'))"

text \<open>
  One pass of the loop of \<^verbatim>\<open>SendAll\<close> and of \<^verbatim>\<open>RecvAll\<close>: \<open>Inl\<close> is a \<^verbatim>\<open>return\<close>, \<open>Inr\<close> the state of
  the next pass.
\<close>

definition send_pass ::
  "'k socket_api \<Rightarrow> int \<Rightarrow> string \<Rightarrow> int \<Rightarrow> nat \<Rightarrow> 'k \<Rightarrow> ErrorCode \<times> 'k + nat \<times> 'k" where
  "send_pass api fd data timeout_ms tot k =
     (case WaitForSocket api fd True timeout_ms k of (wait_ec, k1) \<Rightarrow>
        if wait_ec \<noteq> kOk then Inl (wait_ec, k1)
        else (case sys_send api fd (drop tot data) k1 of (res, k2) \<Rightarrow>
          (case res of
             Inl e \<Rightarrow> if e = S_EINTR then Inr (tot, k2) else Inl (MapSocketError, k2)
           | Inr sent \<Rightarrow> Inr (tot + sent, k2))))"

partial_function (option) send_loop ::
  "'k socket_api \<Rightarrow> int \<Rightarrow> string \<Rightarrow> int \<Rightarrow> nat \<Rightarrow> 'k \<Rightarrow> (ErrorCode \<times> 'k) option" where
  [code]: "send_loop api fd data timeout_ms tot k =
     (if tot < length data then
        (case send_pass api fd data timeout_ms tot k of
           Inl r \<Rightarrow> Some r
         | Inr (tot', k') \<Rightarrow> send_loop api fd data timeout_ms tot' k')
      else Some (kOk, k))"

definition SendAll :: "'k socket_api \<Rightarrow> int \<Rightarrow> string \<Rightarrow> int \<Rightarrow> 'k \<Rightarrow> (ErrorCode \<times> 'k) option" where
  "SendAll api fd data timeout_ms k = send_loop api fd data timeout_ms 0 k"

text \<open>The bytes received are written over the buffer from position \<open>tot\<close> on.\<close>

definition overwrite :: "string \<Rightarrow> nat \<Rightarrow> string \<Rightarrow> string" where
  "overwrite buf tot bytes = take tot buf @ bytes @ drop (tot + length bytes) buf"

definition recv_pass ::
  "'k socket_api \<Rightarrow> int \<Rightarrow> string \<Rightarrow> int \<Rightarrow> nat \<Rightarrow> 'k \<Rightarrow> ErrorCode \<times> string \<times> 'k + string \<times> nat \<times> 'k" where
  "recv_pass api fd buf timeout_ms tot k =
     (case WaitForSocket api fd False timeout_ms k of (wait_ec, k1) \<Rightarrow>
        if wait_ec \<noteq> kOk then Inl (wait_ec, buf, k1)
        else (case sys_recv api fd (length buf - tot) k1 of (res, k2) \<Rightarrow>
          (case res of
             Inl e \<Rightarrow> if e = S_EINTR then Inr (buf, tot, k2) else Inl (MapSocketError, buf, k2)
           | Inr bytes \<Rightarrow>
               if bytes = [] then Inl (kQueueReceiveFailed, buf, k2)
               else Inr (overwrite buf tot bytes, tot + length bytes, k2))))"

partial_function (option) recv_loop ::
  "'k socket_api \<Rightarrow> int \<Rightarrow> string \<Rightarrow> int \<Rightarrow> nat \<Rightarrow> 'k \<Rightarrow> (ErrorCode \<times> string \<times> 'k) option" where
  [code]: "recv_loop api fd buf timeout_ms tot k =
     (if tot < length buf then
        (case recv_pass api fd buf timeout_ms tot k of
           Inl r \<Rightarrow> Some r
         | Inr (buf', tot', k') \<Rightarrow> recv_loop api fd buf' timeout_ms tot' k')
      else Some (kOk, buf, k))"

definition RecvAll :: "'k socket_api \<Rightarrow> int \<Rightarrow> string \<Rightarrow> int \<Rightarrow> 'k \<Rightarrow> (ErrorCode \<times> string \<times> 'k) option" where
  "RecvAll api fd buf timeout_ms k = recv_loop api fd buf timeout_ms 0 k"

section \<open>The transport\<close>

definition tcp_CloseSocket :: "'k socket_api \<Rightarrow> 'k TcpTransport \<Rightarrow> 'k TcpTransport" where
  "tcp_CloseSocket api t =
     (if socket_fd t \<ge> 0 then t\<lparr>net := sys_close api (socket_fd t) (net t), socket_fd := -1\<rparr> else t)"

text \<open>A failing path of \<^verbatim>\<open>Connect\<close>: close the descriptor and return.\<close>

abbreviation close_with :: "'k socket_api \<Rightarrow> int \<Rightarrow> 'k TcpTransport \<Rightarrow> ErrorCode \<Rightarrow> 'k \<Rightarrow> ErrorCode \<times> 'k TcpTransport" where
  "close_with api fd t ec k \<equiv> (ec, t\<lparr>net := sys_close api fd k\<rparr>)"

text \<open>The part of \<^verbatim>\<open>Connect\<close> after the wait: the pending error, the options and blocking mode.\<close>

definition finish_connect ::
  "'k socket_api \<Rightarrow> int \<Rightarrow> bool \<Rightarrow> bool \<Rightarrow> 'k TcpTransport \<Rightarrow> 'k \<Rightarrow> ErrorCode \<times> 'k TcpTransport" where
  "finish_connect api fd enable_nodelay enable_keepalive t k =
     (case get_so_error api fd k of ((rc, socket_error), k1) \<Rightarrow>
        if rc \<noteq> 0 \<or> socket_error \<noteq> 0 then close_with api fd t kQueueCreateFailed k1
        else
          let k2 = sys_setsockopt api fd TCP_NODELAY (if enable_nodelay then 1 else 0) k1;
              k3 = sys_setsockopt api fd SO_KEEPALIVE (if enable_keepalive then 1 else 0) k2
          in (case SetNonBlocking api fd False k3 of (rc, k4) \<Rightarrow>
                if rc \<noteq> 0 then close_with api fd t kQueueCreateFailed k4
                else (kOk, t\<lparr>net := k4, socket_fd := fd\<rparr>)))"

definition tcp_Connect ::
  "'k socket_api \<Rightarrow> string \<Rightarrow> u16 \<Rightarrow> int \<Rightarrow> bool \<Rightarrow> bool \<Rightarrow> 'k TcpTransport \<Rightarrow> ErrorCode \<times> 'k TcpTransport" where
  "tcp_Connect api host port timeout_ms enable_nodelay enable_keepalive t0 =
     (let t = tcp_CloseSocket api t0 in
      case sys_socket api (net t) of (fd, k1) \<Rightarrow>
        if fd < 0 then (kQueueCreateFailed, t\<lparr>net := k1\<rparr>)
        else case SetNonBlocking api fd True k1 of (rc, k2) \<Rightarrow>
          if rc \<noteq> 0 then close_with api fd t kQueueCreateFailed k2
          else case inet_pton api (c_str host) of (found, addr) \<Rightarrow>
            if found \<le> 0 then close_with api fd t kInvalidParam k2
            else case sys_connect api fd addr port k2 of (res, k3) \<Rightarrow>
              if res \<noteq> None \<and> res \<noteq> Some S_EINPROGRESS then close_with api fd t kQueueCreateFailed k3
              else case WaitForSocket api fd True timeout_ms k3 of (wait_ec, k4) \<Rightarrow>
                if wait_ec \<noteq> kOk then close_with api fd t wait_ec k4
                else finish_connect api fd enable_nodelay enable_keepalive t k4)"

definition flag_on :: "TransportEndpointConfig \<Rightarrow> string \<Rightarrow> bool" where
  "flag_on config key =
     (case params config key of
        None \<Rightarrow> True
      | Some v \<Rightarrow> v = ''1'' \<or> v = ''true'' \<or> v = ''on'')"

definition tcp_Create :: "'k socket_api \<Rightarrow> TransportEndpointConfig \<Rightarrow> 'k TcpTransport \<Rightarrow> ErrorCode \<times> 'k TcpTransport" where
  "tcp_Create api config t =
     (case ParseHostPort config (Some []) (Some 0) of (ok, host, port) \<Rightarrow>
        if \<not> ok then (kInvalidParam, t)
        else tcp_Connect api (the host) (the port) 2000 (flag_on config ''tcp_nodelay'') (flag_on config ''tcp_keepalive'') t)"

text \<open>\<^verbatim>\<open>htonl\<close> and \<^verbatim>\<open>ntohl\<close> on the four bytes of the length: the most significant byte comes first.\<close>

definition be32 :: "u32 \<Rightarrow> string" where
  "be32 w = (let n = unat w in [char_of (n div 16777216), char_of (n div 65536), char_of (n div 256), char_of n])"

definition from_be32 :: "string \<Rightarrow> u32" where
  "from_be32 bs = of_nat (foldl (\<lambda>a c. a * 256 + of_char c) 0 bs)"

definition tcp_SendWithTimeout ::
  "'k socket_api \<Rightarrow> string \<Rightarrow> u32 \<Rightarrow> int \<Rightarrow> 'k TcpTransport \<Rightarrow> (ErrorCode \<times> 'k TcpTransport) option" where
  "tcp_SendWithTimeout api message priority timeout_ms t =
     (if socket_fd t < 0 then Some (kQueueSendFailed, t)
      else
        let len = of_nat (length message) :: u32 in
        case SendAll api (socket_fd t) (be32 len) timeout_ms (net t) of
          None \<Rightarrow> None
        | Some (len_ec, k) \<Rightarrow>
            if len_ec \<noteq> kOk then Some (len_ec, t\<lparr>net := k\<rparr>)
            else if len = 0 then Some (kOk, t\<lparr>net := k\<rparr>)
            else map_option (\<lambda>(ec, k'). (ec, t\<lparr>net := k'\<rparr>)) (SendAll api (socket_fd t) message timeout_ms k))"

definition tcp_ReceiveWithTimeout ::
  "'k socket_api \<Rightarrow> string option \<Rightarrow> u32 option \<Rightarrow> int \<Rightarrow> 'k TcpTransport
     \<Rightarrow> ((ErrorCode \<times> string option \<times> u32 option) \<times> 'k TcpTransport) option" where
  "tcp_ReceiveWithTimeout api message priority timeout_ms t =
     (if message = None \<or> priority = None then Some ((kInvalidParam, message, priority), t)
      else if socket_fd t < 0 then Some ((kQueueReceiveFailed, message, priority), t)
      else
        case RecvAll api (socket_fd t) (replicate 4 (CHR 0x00)) timeout_ms (net t) of
          None \<Rightarrow> None
        | Some (len_ec, net_len, k) \<Rightarrow>
            if len_ec \<noteq> kOk then Some ((len_ec, message, priority), t\<lparr>net := k\<rparr>)
            else
              let len = unat (from_be32 net_len) in
              if len = 0 then Some ((kOk, Some [], Some 0), t\<lparr>net := k\<rparr>)
              else case RecvAll api (socket_fd t) (replicate len (CHR 0x00)) timeout_ms k of
                None \<Rightarrow> None
              | Some (ec, body, k') \<Rightarrow>
                  if ec \<noteq> kOk then Some ((ec, Some body, priority), t\<lparr>net := k'\<rparr>)
                  else Some ((kOk, Some body, Some 0), t\<lparr>net := k'\<rparr>))"

definition tcp_DiscardOldest :: "'k TcpTransport \<Rightarrow> ErrorCode \<times> 'k TcpTransport" where
  "tcp_DiscardOldest t = (kOk, t)"

definition tcp_Close :: "'k socket_api \<Rightarrow> 'k TcpTransport \<Rightarrow> 'k TcpTransport" where
  "tcp_Close api t = tcp_CloseSocket api t"

definition tcp_Unlink :: "'k TcpTransport \<Rightarrow> 'k TcpTransport" where
  "tcp_Unlink t = t"

definition tcp_Caps :: TransportCapabilities where
  "tcp_Caps = \<lparr>supports_priority = False, supports_discard_oldest = False, supports_unlink = False\<rparr>"

section \<open>What the kernel promises\<close>

text \<open>
  \<open>written fd k\<close> are the bytes the kernel has accepted on the socket so far and \<open>taken fd k\<close> those it has
  handed out: sending accepts some of the bytes from the front, receiving hands out at most as many as asked.
\<close>

locale stream_socket =
  fixes api :: "'k socket_api"
    and written :: "int \<Rightarrow> 'k \<Rightarrow> string"
    and taken :: "int \<Rightarrow> 'k \<Rightarrow> string"
  assumes select_still: "sys_select api fd w tv k = (r, k') \<Longrightarrow> written fd k' = written fd k \<and> taken fd k' = taken fd k"
    and send_some: "sys_send api fd data k = (Inr n, k') \<Longrightarrow>
          n \<le> length data \<and> written fd k' = written fd k @ take n data \<and> taken fd k' = taken fd k"
    and send_none: "sys_send api fd data k = (Inl e, k') \<Longrightarrow> written fd k' = written fd k \<and> taken fd k' = taken fd k"
    and recv_some: "sys_recv api fd n k = (Inr bytes, k') \<Longrightarrow>
          length bytes \<le> n \<and> taken fd k' = taken fd k @ bytes \<and> written fd k' = written fd k"
    and recv_none: "sys_recv api fd n k = (Inl e, k') \<Longrightarrow> written fd k' = written fd k \<and> taken fd k' = taken fd k"

text \<open>Calls are interrupted, or accept nothing, only finitely often.\<close>

locale live_socket = stream_socket +
  fixes interrupts :: "int \<Rightarrow> 'k \<Rightarrow> nat"
  assumes select_interrupts: "sys_select api fd w tv k = (r, k') \<Longrightarrow> interrupts fd k' \<le> interrupts fd k"
    and send_interrupts: "sys_send api fd data k = (Inr n, k') \<Longrightarrow> data \<noteq> [] \<Longrightarrow>
          interrupts fd k' \<le> interrupts fd k \<and> (n = 0 \<longrightarrow> interrupts fd k' < interrupts fd k)"
    and send_interrupted: "sys_send api fd data k = (Inl S_EINTR, k') \<Longrightarrow> interrupts fd k' < interrupts fd k"
    and recv_interrupts: "sys_recv api fd n k = (Inr bytes, k') \<Longrightarrow> interrupts fd k' \<le> interrupts fd k"
    and recv_interrupted: "sys_recv api fd n k = (Inl S_EINTR, k') \<Longrightarrow> interrupts fd k' < interrupts fd k"

text \<open>\<open>opened k\<close> are the descriptors in use.\<close>

locale descriptor_table =
  fixes api :: "'k socket_api"
    and opened :: "'k \<Rightarrow> int set"
  assumes socket_opens: "sys_socket api k = (fd, k') \<Longrightarrow>
          (if fd < 0 then opened k' = opened k else fd \<notin> opened k \<and> opened k' = insert fd (opened k))"
    and close_closes [simp]: "opened (sys_close api fd k) = opened k - {fd}"
    and setfl_opened [simp]: "opened (snd (fcntl_setfl api fd fl k)) = opened k"
    and connect_opened [simp]: "opened (snd (sys_connect api fd a p k)) = opened k"
    and select_opened [simp]: "opened (snd (sys_select api fd w tv k)) = opened k"
    and so_error_opened [simp]: "opened (snd (get_so_error api fd k)) = opened k"
    and setsockopt_opened [simp]: "opened (sys_setsockopt api fd opt v k) = opened k"

section \<open>The frames on the stream\<close>

definition frame :: "string \<Rightarrow> string" where
  "frame m = be32 (of_nat (length m)) @ m"

text \<open>What \<^verbatim>\<open>SendWithTimeout\<close> puts on the stream: no body when the length is zero in 32 bits.\<close>

definition wire :: "string \<Rightarrow> string" where
  "wire m = be32 (of_nat (length m)) @ (if (of_nat (length m) :: u32) = 0 then [] else m)"

lemma length_be32 [simp]: "length (be32 w) = 4"
  by (simp add: be32_def Let_def)

lemma bytes_value:
  "((n div 16777216 * 256 + n div 65536 mod 256) * 256 + n div 256 mod 256) * 256 + n mod 256 = (n :: nat)"
proof -
  have d: "n div 65536 = n div 256 div 256" "n div 16777216 = n div 256 div 256 div 256"
    by (simp_all add: div_mult2_eq [symmetric])
  show ?thesis unfolding d by (simp only: div_mult_mod_eq)
qed

lemma from_be32_be32 [simp]: "from_be32 (be32 w) = w"
proof -
  have "foldl (\<lambda>a c. a * 256 + of_char c) 0 (be32 w) = unat w"
    using bytes_value [of "unat w"] unat_u32_less [of w] by (simp add: be32_def Let_def)
  then show ?thesis by (simp add: from_be32_def)
qed

lemma of_char_less_256: "(of_char c :: nat) < 256"
  by (metis of_char_mod_256 mod_less_divisor zero_less_numeral)

lemma split_bytes:
  fixes a b c d :: nat
  assumes "a < 256" "b < 256" "c < 256" "d < 256" "x = ((a * 256 + b) * 256 + c) * 256 + d"
  shows "x < 4294967296" "x div 16777216 = a" "x div 65536 mod 256 = b" "x div 256 mod 256 = c" "x mod 256 = d"
proof -
  have d: "x div 65536 = x div 256 div 256" "x div 16777216 = x div 256 div 256 div 256"
    by (simp_all add: div_mult2_eq [symmetric])
  have "\<And>q r :: nat. r < 256 \<Longrightarrow> (q * 256 + r) div 256 = q \<and> (q * 256 + r) mod 256 = r" by simp
  from this [OF assms(1)] this [OF assms(2)] this [OF assms(3)] this [OF assms(4)]
  have q: "(q * 256 + b) div 256 = q" "(q * 256 + c) div 256 = q" "(q * 256 + d) div 256 = q"
    "(q * 256 + b) mod 256 = b" "(q * 256 + c) mod 256 = c" "(q * 256 + d) mod 256 = d" for q
    by blast+
  show "x div 16777216 = a" "x div 65536 mod 256 = b" "x div 256 mod 256 = c" "x mod 256 = d"
    unfolding d unfolding assms(5) by (simp_all only: q)
  have step: "q * 256 + r \<le> 256 * n + 255" if "q \<le> n" "r < 256" for q r n :: nat
    using mult_le_mono1 [OF that(1), of 256] that(2) by linarith
  have "((a * 256 + b) * 256 + c) * 256 + d \<le> 256 * (256 * (256 * 255 + 255) + 255) + 255"
    using assms(1-4) by (intro step) simp_all
  then show "x < 4294967296" using assms(5) by simp
qed

lemma be32_from_be32:
  assumes "length bs = 4"
  shows "be32 (from_be32 bs) = bs"
proof -
  obtain a b c d where bs: "bs = [a, b, c, d]"
    using assms by (auto simp: numeral_eq_Suc length_Suc_conv)
  define x where x: "x = ((of_char a * 256 + of_char b) * 256 + of_char c) * 256 + (of_char d :: nat)"
  note s = split_bytes [OF of_char_less_256 of_char_less_256 of_char_less_256 of_char_less_256 x]
  have u: "unat (of_nat x :: u32) = x" using s(1) by (simp add: unat_of_nat take_bit_nat_eq_self)
  have "char_of (x div 16777216) = a" "char_of (x div 65536) = b" "char_of (x div 256) = c" "char_of x = d"
    using s(2-5) by (metis char_of_char char_of_mod_256)+
  moreover have "from_be32 bs = of_nat x" by (simp add: bs from_be32_def x)
  ultimately show ?thesis using u by (simp add: bs be32_def Let_def)
qed

lemma unat_len: "length m < 2 ^ 32 \<Longrightarrow> unat (of_nat (length m) :: u32) = length m"
  by (simp add: unat_of_nat take_bit_nat_eq_self)

lemma wire_frame:
  assumes "length m < 2 ^ 32"
  shows "wire m = frame m"
  using unat_len [OF assms] by (auto simp: wire_def frame_def)

lemma frame_prefix:
  assumes "prefix (frame r @ xs) (frame m @ ys)" "length r < 2 ^ 32" "length m < 2 ^ 32"
  shows "r = m \<and> prefix xs ys"
proof -
  from assms(1) obtain zs where z: "frame m @ ys = frame r @ xs @ zs" by (auto simp: prefix_def)
  then have "be32 (of_nat (length m)) = be32 (of_nat (length r))" and b: "m @ ys = r @ xs @ zs"
    by (simp_all add: frame_def)
  then have "(of_nat (length m) :: u32) = of_nat (length r)" by (metis from_be32_be32)
  then have "length m = length r" using unat_len [OF assms(2)] unat_len [OF assms(3)] by simp
  with b show ?thesis by (simp add: prefix_def)
qed

lemma frames_prefix:
  assumes "prefix (concat (map frame rs)) (concat (map frame ms))"
    and "\<forall>r \<in> set rs. length r < 2 ^ 32" "\<forall>m \<in> set ms. length m < 2 ^ 32"
  shows "prefix rs ms"
  using assms
proof (induction rs arbitrary: ms)
  case (Cons r rs)
  then obtain m ms' where ms: "ms = m # ms'"
    by (cases ms) (auto simp: frame_def be32_def Let_def)
  then have "r = m \<and> prefix (concat (map frame rs)) (concat (map frame ms'))"
    using Cons.prems by (intro frame_prefix) auto
  then show ?case using Cons ms by simp
qed simp

section \<open>The loops move all bytes or report an error\<close>

lemma send_loop_done: "\<not> tot < length data \<Longrightarrow> send_loop api fd data t tot k = Some (kOk, k)"
  by (simp add: send_loop.simps)

lemma send_loop_return: "tot < length data \<Longrightarrow> send_pass api fd data t tot k = Inl r \<Longrightarrow> send_loop api fd data t tot k = Some r"
  by (simp add: send_loop.simps)

lemma send_loop_next:
  "tot < length data \<Longrightarrow> send_pass api fd data t tot k = Inr (tot', k') \<Longrightarrow>
     send_loop api fd data t tot k = send_loop api fd data t tot' k'"
  by (subst send_loop.simps) simp

lemma recv_loop_done: "\<not> tot < length buf \<Longrightarrow> recv_loop api fd buf t tot k = Some (kOk, buf, k)"
  by (simp add: recv_loop.simps)

lemma recv_loop_return: "tot < length buf \<Longrightarrow> recv_pass api fd buf t tot k = Inl r \<Longrightarrow> recv_loop api fd buf t tot k = Some r"
  by (simp add: recv_loop.simps)

lemma recv_loop_next:
  "tot < length buf \<Longrightarrow> recv_pass api fd buf t tot k = Inr (buf', tot', k') \<Longrightarrow>
     recv_loop api fd buf t tot k = recv_loop api fd buf' t tot' k'"
  by (subst recv_loop.simps) simp

lemmas loop_steps = send_loop_done send_loop_return send_loop_next recv_loop_done recv_loop_return recv_loop_next

lemma length_overwrite: "tot + length bytes \<le> length buf \<Longrightarrow> length (overwrite buf tot bytes) = length buf"
  by (simp add: overwrite_def)

lemma take_overwrite:
  "tot + length bytes \<le> length buf \<Longrightarrow> take (tot + length bytes) (overwrite buf tot bytes) = take tot buf @ bytes"
  by (simp add: overwrite_def)

context stream_socket
begin

lemma wait_still:
  assumes "WaitForSocket api fd w t k = (ec, k')"
  shows "written fd k' = written fd k \<and> taken fd k' = taken fd k"
  using assms select_still by (auto simp: WaitForSocket_def Let_def split: prod.splits)

lemma send_pass_return:
  assumes "send_pass api fd data t tot k = Inl (ec, k')"
  shows "ec \<noteq> kOk \<and> written fd k' = written fd k \<and> taken fd k' = taken fd k"
  using assms wait_still [of fd True t k] send_none [of fd "drop tot data"]
  by (auto simp: send_pass_def MapSocketError_def split: prod.splits sum.splits if_splits)

lemma send_pass_next:
  assumes "send_pass api fd data t tot k = Inr (tot', k')"
  shows "\<exists>m \<le> length data - tot. tot' = tot + m \<and> written fd k' = written fd k @ take m (drop tot data)
           \<and> taken fd k' = taken fd k"
  using assms wait_still [of fd True t k] send_none [of fd "drop tot data"] send_some [of fd "drop tot data"]
  by (auto simp: send_pass_def split: prod.splits sum.splits if_splits)

lemma send_loop_written:
  assumes "send_loop api fd data t tot k = Some (ec, k')" "tot \<le> length data"
  shows "\<exists>n \<le> length data - tot. written fd k' = written fd k @ take n (drop tot data) \<and> taken fd k' = taken fd k
           \<and> (ec = kOk \<longleftrightarrow> n = length data - tot)"
proof -
  have "api' = api \<longrightarrow> tot \<le> length data \<longrightarrow> (\<exists>n \<le> length data - tot. written fd (snd r) = written fd k @ take n (drop tot data)
          \<and> taken fd (snd r) = taken fd k \<and> (fst r = kOk \<longleftrightarrow> n = length data - tot))"
    if "send_loop api' fd data t tot k = Some r" for api' data tot k r
    using that
  proof (induction rule: send_loop.raw_induct [rotated 1, consumes 1, case_names step])
    case (step rec api' fd data t tot k r)
    note IH = step(1) and eq = step(2)
    consider "tot \<ge> length data" "r = (kOk, k)"
      | "send_pass api' fd data t tot k = Inl r"
      | tot' k' where "send_pass api' fd data t tot k = Inr (tot', k')" "rec api' fd data t tot' k' = Some r" "tot < length data"
      using eq by (auto split: if_splits sum.splits)
    then show ?case
    proof cases
      case 2
      then show ?thesis using eq send_pass_return [of fd data t tot k "fst r" "snd r"]
        by (auto split: if_splits intro!: exI [of _ 0])
    next
      case 3
      show ?thesis
      proof (intro impI)
        assume api': "api' = api" and "tot \<le> length data"
        from send_pass_next 3(1) api' obtain m where m: "m \<le> length data - tot" "tot' = tot + m"
            "written fd k' = written fd k @ take m (drop tot data)" "taken fd k' = taken fd k"
          by blast
        with IH [OF 3(2)] 3(3) api' obtain n where n: "n \<le> length data - (tot + m)"
            "written fd (snd r) = written fd k' @ take n (drop (tot + m) data)" "taken fd (snd r) = taken fd k'"
            "fst r = kOk \<longleftrightarrow> n = length data - (tot + m)"
          by auto
        have "take (m + n) (drop tot data) = take m (drop tot data) @ take n (drop (tot + m) data)"
          by (simp add: take_add add.commute)
        with m n 3(3) show "\<exists>n \<le> length data - tot. written fd (snd r) = written fd k @ take n (drop tot data)
          \<and> taken fd (snd r) = taken fd k \<and> (fst r = kOk \<longleftrightarrow> n = length data - tot)"
          by (intro exI [of _ "m + n"]) auto
      qed
    qed auto
  qed
  from this [OF assms(1)] assms(2) show ?thesis by simp
qed

lemma recv_pass_return:
  assumes "recv_pass api fd buf t tot k = Inl (ec, buf', k')"
  shows "ec \<noteq> kOk \<and> buf' = buf \<and> written fd k' = written fd k \<and> taken fd k' = taken fd k"
  using assms wait_still [of fd False t k] recv_none [of fd "length buf - tot"] recv_some [of fd "length buf - tot"]
  by (auto simp: recv_pass_def MapSocketError_def split: prod.splits sum.splits if_splits)

lemma recv_pass_next:
  assumes "recv_pass api fd buf t tot k = Inr (buf', tot', k')" "tot < length buf"
  shows "\<exists>bytes. length bytes \<le> length buf - tot \<and> tot' = tot + length bytes \<and> length buf' = length buf
           \<and> take tot' buf' = take tot buf @ bytes \<and> taken fd k' = taken fd k @ bytes \<and> written fd k' = written fd k"
proof -
  obtain wec k1 where w: "WaitForSocket api fd False t k = (wec, k1)" by fastforce
  obtain res k2 where r: "sys_recv api fd (length buf - tot) k1 = (res, k2)" by fastforce
  show ?thesis
  proof (cases res)
    case (Inl e)
    with assms w r recv_none [OF r [unfolded Inl]] wait_still [OF w] show ?thesis
      by (intro exI [of _ "[]"]) (auto simp: recv_pass_def split: if_splits)
  next
    case (Inr bytes)
    with assms w r recv_some [OF r [unfolded Inr]] wait_still [OF w] show ?thesis
      by (intro exI [of _ bytes]) (auto simp: recv_pass_def length_overwrite take_overwrite split: if_splits)
  qed
qed

lemma recv_loop_taken:
  assumes "recv_loop api fd buf t tot k = Some (ec, buf', k')" "tot \<le> length buf"
  shows "\<exists>bytes. length bytes \<le> length buf - tot \<and> taken fd k' = taken fd k @ bytes \<and> written fd k' = written fd k
           \<and> length buf' = length buf \<and> take (tot + length bytes) buf' = take tot buf @ bytes
           \<and> (ec = kOk \<longleftrightarrow> length bytes = length buf - tot)"
proof -
  have "api' = api \<longrightarrow> tot \<le> length buf \<longrightarrow> (\<exists>bytes. length bytes \<le> length buf - tot \<and> taken fd (snd (snd r)) = taken fd k @ bytes
          \<and> written fd (snd (snd r)) = written fd k \<and> length (fst (snd r)) = length buf
          \<and> take (tot + length bytes) (fst (snd r)) = take tot buf @ bytes
          \<and> (fst r = kOk \<longleftrightarrow> length bytes = length buf - tot))"
    if "recv_loop api' fd buf t tot k = Some r" for api' buf tot k r
    using that
  proof (induction rule: recv_loop.raw_induct [rotated 1, consumes 1, case_names step])
    case (step rec api' fd buf t tot k r)
    note IH = step(1) and eq = step(2)
    consider "tot \<ge> length buf" "r = (kOk, buf, k)"
      | "recv_pass api' fd buf t tot k = Inl r" "tot < length buf"
      | buf' tot' k' where "recv_pass api' fd buf t tot k = Inr (buf', tot', k')" "rec api' fd buf' t tot' k' = Some r" "tot < length buf"
      using eq by (auto split: if_splits sum.splits)
    then show ?case
    proof cases
      case 2
      then show ?thesis using recv_pass_return [of fd buf t tot k "fst r" "fst (snd r)" "snd (snd r)"]
        by (auto intro!: exI [of _ "[]"])
    next
      case 3
      show ?thesis
      proof (intro impI)
        assume api': "api' = api" and "tot \<le> length buf"
        from recv_pass_next 3(1,3) api' obtain b1 where m: "length b1 \<le> length buf - tot" "tot' = tot + length b1"
            "length buf' = length buf" "take tot' buf' = take tot buf @ b1"
            "taken fd k' = taken fd k @ b1" "written fd k' = written fd k"
          by blast
        with IH [OF 3(2)] 3(3) api' obtain b2 where n: "length b2 \<le> length buf - (tot + length b1)"
            "taken fd (snd (snd r)) = taken fd k' @ b2" "written fd (snd (snd r)) = written fd k'"
            "length (fst (snd r)) = length buf" "take (tot + length b1 + length b2) (fst (snd r)) = take tot buf @ b1 @ b2"
            "fst r = kOk \<longleftrightarrow> length b2 = length buf - (tot + length b1)"
          by auto
        with m 3(3) show "\<exists>bytes. length bytes \<le> length buf - tot \<and> taken fd (snd (snd r)) = taken fd k @ bytes
          \<and> written fd (snd (snd r)) = written fd k \<and> length (fst (snd r)) = length buf
          \<and> take (tot + length bytes) (fst (snd r)) = take tot buf @ bytes
          \<and> (fst r = kOk \<longleftrightarrow> length bytes = length buf - tot)"
          by (intro exI [of _ "b1 @ b2"]) (auto simp: add.assoc)
      qed
    qed auto
  qed
  from this [OF assms(1)] assms(2) show ?thesis by simp
qed

lemma SendAll_written:
  assumes "SendAll api fd data t k = Some (ec, k')"
  shows "\<exists>n \<le> length data. written fd k' = written fd k @ take n data \<and> taken fd k' = taken fd k \<and> (ec = kOk \<longleftrightarrow> n = length data)"
  using send_loop_written [of fd data t 0 k ec k'] assms by (auto simp: SendAll_def)

lemma RecvAll_taken:
  assumes "RecvAll api fd buf t k = Some (ec, buf', k')"
  shows "\<exists>n \<le> length buf. taken fd k' = taken fd k @ take n buf' \<and> written fd k' = written fd k
           \<and> length buf' = length buf \<and> (ec = kOk \<longleftrightarrow> n = length buf)"
proof -
  from recv_loop_taken [of fd buf t 0 k ec buf' k'] assms obtain bytes where "length bytes \<le> length buf"
    "taken fd k' = taken fd k @ bytes" "written fd k' = written fd k" "length buf' = length buf"
    "take (length bytes) buf' = bytes" "ec = kOk \<longleftrightarrow> length bytes = length buf"
    by (auto simp: RecvAll_def)
  then show ?thesis by (intro exI [of _ "length bytes"]) auto
qed

text \<open>A send that reports success wrote the whole frame, any other a proper part of it, from the front.\<close>

lemma tcp_send_written:
  assumes "tcp_SendWithTimeout api m p t s = Some (ec, s')" "socket_fd s \<ge> 0"
  shows "socket_fd s' = socket_fd s \<and> taken (socket_fd s) (net s') = taken (socket_fd s) (net s) \<and>
     (\<exists>n \<le> length (wire m). written (socket_fd s) (net s') = written (socket_fd s) (net s) @ take n (wire m)
        \<and> (ec = kOk \<longleftrightarrow> n = length (wire m)))"
proof -
  define len :: u32 where "len = of_nat (length m)"
  from assms obtain ec1 k1 where h: "SendAll api (socket_fd s) (be32 len) t (net s) = Some (ec1, k1)"
    by (auto simp: tcp_SendWithTimeout_def len_def Let_def split: option.splits)
  from SendAll_written [OF h] obtain n where n: "n \<le> 4"
      "written (socket_fd s) k1 = written (socket_fd s) (net s) @ take n (be32 len)"
      "taken (socket_fd s) k1 = taken (socket_fd s) (net s)" "ec1 = kOk \<longleftrightarrow> n = 4"
    by auto
  consider "ec1 \<noteq> kOk \<or> len = 0" | "ec1 = kOk" "len \<noteq> 0" by blast
  then show ?thesis
  proof cases
    case 1
    then show ?thesis using assms h n
      by (auto simp: tcp_SendWithTimeout_def len_def [symmetric] wire_def Let_def intro!: exI [of _ n] split: if_splits)
  next
    case 2
    then obtain k2 where b: "SendAll api (socket_fd s) m t k1 = Some (ec, k2)" "s' = s\<lparr>net := k2\<rparr>"
      using assms h by (auto simp: tcp_SendWithTimeout_def len_def [symmetric] Let_def)
    from SendAll_written [OF b(1)] obtain j where "j \<le> length m"
      "written (socket_fd s) k2 = written (socket_fd s) k1 @ take j m"
      "taken (socket_fd s) k2 = taken (socket_fd s) k1" "ec = kOk \<longleftrightarrow> j = length m"
      by auto
    then show ?thesis using 2 n b(2)
      by (auto simp: wire_def len_def [symmetric] intro!: exI [of _ "4 + j"])
  qed
qed

text \<open>A receive that reports success took exactly the frame of the message it returns.\<close>

lemma tcp_receive_taken:
  assumes "tcp_ReceiveWithTimeout api (Some m0) (Some p0) t s = Some ((kOk, m, p), s')" "socket_fd s \<ge> 0"
  shows "socket_fd s' = socket_fd s \<and> written (socket_fd s) (net s') = written (socket_fd s) (net s) \<and> p = Some 0 \<and>
     (\<exists>x. m = Some x \<and> length x < 2 ^ 32 \<and> taken (socket_fd s) (net s') = taken (socket_fd s) (net s) @ frame x)"
proof -
  from assms obtain hdr k1 where h: "RecvAll api (socket_fd s) (replicate 4 (CHR 0x00)) t (net s) = Some (kOk, hdr, k1)"
    by (auto simp: tcp_ReceiveWithTimeout_def Let_def split: option.splits if_splits)
  from RecvAll_taken [OF h] have n: "taken (socket_fd s) k1 = taken (socket_fd s) (net s) @ hdr"
      "written (socket_fd s) k1 = written (socket_fd s) (net s)" "length hdr = 4"
    by auto
  define len where "len = unat (from_be32 hdr)"
  have len: "len < 2 ^ 32" "be32 (of_nat len) = hdr"
    using unat_u32_less [of "from_be32 hdr"] n(3) by (simp_all add: len_def be32_from_be32)
  show ?thesis
  proof (cases "len = 0")
    case True
    then show ?thesis using assms h n len
      by (auto simp: tcp_ReceiveWithTimeout_def len_def [symmetric] frame_def Let_def)
  next
    case False
    then obtain body k2 where b: "RecvAll api (socket_fd s) (replicate len (CHR 0x00)) t k1 = Some (kOk, body, k2)"
        "m = Some body" "p = Some 0" "s' = s\<lparr>net := k2\<rparr>"
      using assms h by (auto simp: tcp_ReceiveWithTimeout_def len_def [symmetric] Let_def split: option.splits if_splits)
    from RecvAll_taken [OF b(1)] have "taken (socket_fd s) k2 = taken (socket_fd s) k1 @ body" "length body = len"
      "written (socket_fd s) k2 = written (socket_fd s) k1"
      by auto
    then show ?thesis using b n len by (auto simp: frame_def)
  qed
qed

end

section \<open>The loops end\<close>

context live_socket
begin

lemma wait_interrupts: "WaitForSocket api fd w t k = (ec, k') \<Longrightarrow> interrupts fd k' \<le> interrupts fd k"
  using select_interrupts by (auto simp: WaitForSocket_def Let_def split: prod.splits)

lemma send_pass_decreases:
  assumes "send_pass api fd data t tot k = Inr (tot', k')" "tot < length data"
  shows "interrupts fd k' + (length data - tot') < interrupts fd k + (length data - tot)"
proof -
  obtain wec k1 where w: "WaitForSocket api fd True t k = (wec, k1)" by fastforce
  obtain res k2 where r: "sys_send api fd (drop tot data) k1 = (res, k2)" by fastforce
  show ?thesis
  proof (cases res)
    case (Inl e)
    with assms w r wait_interrupts [OF w] send_interrupted [of fd "drop tot data" k1 k2] show ?thesis
      by (auto simp: send_pass_def split: if_splits)
  next
    case (Inr n)
    with assms w r wait_interrupts [OF w] send_interrupts [OF r [unfolded Inr]] send_some [OF r [unfolded Inr]] show ?thesis
      by (cases "n = 0") (auto simp: send_pass_def split: if_splits)
  qed
qed

lemma send_loop_returns: "\<exists>r. send_loop api fd data t tot k = Some r"
proof (induction "interrupts fd k + (length data - tot)" arbitrary: tot k rule: less_induct)
  case less
  show ?case
  proof (cases "tot < length data \<and> (\<exists>tot' k'. send_pass api fd data t tot k = Inr (tot', k'))")
    case True
    then obtain tot' k' where p: "send_pass api fd data t tot k = Inr (tot', k')" by blast
    with True send_pass_decreases less obtain r where "send_loop api fd data t tot' k' = Some r" by blast
    with True p show ?thesis by (simp add: send_loop_next)
  next
    case False
    then show ?thesis by (subst send_loop.simps) (auto split: sum.splits)
  qed
qed

lemma recv_pass_decreases:
  assumes "recv_pass api fd buf t tot k = Inr (buf', tot', k')" "tot < length buf"
  shows "interrupts fd k' + (length buf' - tot') < interrupts fd k + (length buf - tot)"
proof -
  obtain wec k1 where w: "WaitForSocket api fd False t k = (wec, k1)" by fastforce
  obtain res k2 where r: "sys_recv api fd (length buf - tot) k1 = (res, k2)" by fastforce
  show ?thesis
  proof (cases res)
    case (Inl e)
    with assms w r wait_interrupts [OF w] recv_interrupted [of fd "length buf - tot" k1 k2] show ?thesis
      by (auto simp: recv_pass_def split: if_splits)
  next
    case (Inr bytes)
    with assms w r wait_interrupts [OF w] recv_interrupts [OF r [unfolded Inr]] recv_some [OF r [unfolded Inr]] show ?thesis
      by (cases bytes) (auto simp: recv_pass_def length_overwrite split: if_splits)
  qed
qed

lemma recv_loop_returns: "\<exists>r. recv_loop api fd buf t tot k = Some r"
proof (induction "interrupts fd k + (length buf - tot)" arbitrary: buf tot k rule: less_induct)
  case less
  show ?case
  proof (cases "tot < length buf \<and> (\<exists>buf' tot' k'. recv_pass api fd buf t tot k = Inr (buf', tot', k'))")
    case True
    then obtain buf' tot' k' where p: "recv_pass api fd buf t tot k = Inr (buf', tot', k')" by blast
    with True recv_pass_decreases less obtain r where "recv_loop api fd buf' t tot' k' = Some r" by blast
    with True p show ?thesis by (cases r) (simp add: recv_loop_next)
  next
    case False
    then show ?thesis by (subst recv_loop.simps) (auto split: sum.splits)
  qed
qed

lemma SendAll_returns: "\<exists>ec k'. SendAll api fd data t k = Some (ec, k')"
  using send_loop_returns [of fd data t 0 k] by (auto simp: SendAll_def)

lemma RecvAll_returns: "\<exists>ec buf' k'. RecvAll api fd buf t k = Some (ec, buf', k')"
  using recv_loop_returns [of fd buf t 0 k] by (auto simp: RecvAll_def)

lemma tcp_send_returns: "\<exists>ec s'. tcp_SendWithTimeout api m p t s = Some (ec, s')"
proof -
  obtain ec k where h: "SendAll api (socket_fd s) (be32 (of_nat (length m))) t (net s) = Some (ec, k)"
    using SendAll_returns by blast
  obtain ec' k' where "SendAll api (socket_fd s) m t k = Some (ec', k')" using SendAll_returns by blast
  with h show ?thesis by (simp add: tcp_SendWithTimeout_def Let_def)
qed

lemma tcp_receive_returns: "\<exists>r. tcp_ReceiveWithTimeout api m p t s = Some r"
proof -
  obtain ec hdr k where h: "RecvAll api (socket_fd s) (replicate 4 (CHR 0x00)) t (net s) = Some (ec, hdr, k)"
    using RecvAll_returns by blast
  obtain ec' b k' where "RecvAll api (socket_fd s) (replicate (unat (from_be32 hdr)) (CHR 0x00)) t k = Some (ec', b, k')"
    using RecvAll_returns by blast
  with h show ?thesis by (simp add: tcp_ReceiveWithTimeout_def Let_def)
qed

end

section \<open>Connecting keeps the descriptors in order\<close>

context descriptor_table
begin

lemma SetNonBlocking_opened [simp]: "opened (snd (SetNonBlocking api fd en k)) = opened k"
  by (simp add: SetNonBlocking_def Let_def)

lemma Wait_opened [simp]: "opened (snd (WaitForSocket api fd w t k)) = opened k"
  by (simp add: WaitForSocket_def Let_def split_beta)

text \<open>\<open>settled\<close>: the descriptors in use besides those of \<open>base\<close> are exactly the one the transport holds.\<close>

definition settled :: "int set \<Rightarrow> ErrorCode \<Rightarrow> 'k TcpTransport \<Rightarrow> bool" where
  "settled base ec s \<longleftrightarrow>
     (if ec = kOk then socket_fd s \<ge> 0 \<and> socket_fd s \<notin> base \<and> opened (net s) = insert (socket_fd s) base
      else socket_fd s < 0 \<and> opened (net s) = base)"

lemma finish_connect_settled:
  assumes "finish_connect api fd nd ka s k = (ec, s')"
    and "opened k = insert fd base" "fd \<notin> base" "fd \<ge> 0" "socket_fd s < 0"
  shows "settled base ec s'"
  using assms by (auto simp: finish_connect_def settled_def Let_def split_beta split: if_splits)

lemma connect_settled:
  assumes "tcp_Connect api h p t nd ka s = (ec, s')"
  shows "settled (if socket_fd s \<ge> 0 then opened (net s) - {socket_fd s} else opened (net s)) ec s'"
proof -
  define s1 where "s1 = tcp_CloseSocket api s"
  define base where "base = opened (net s1)"
  have base: "base = (if socket_fd s \<ge> 0 then opened (net s) - {socket_fd s} else opened (net s))" and s1: "socket_fd s1 < 0"
    by (simp_all add: base_def s1_def tcp_CloseSocket_def)
  obtain fd k1 where k1: "sys_socket api (net s1) = (fd, k1)" by fastforce
  define k2 where "k2 = SetNonBlocking api fd True k1"
  define c where "c = sys_connect api fd (snd (inet_pton api (c_str h))) p (snd k2)"
  define w where "w = WaitForSocket api fd True t (snd c)"
  have o: "opened k1 = (if fd < 0 then base else insert fd base)" "\<not> fd < 0 \<Longrightarrow> fd \<notin> base"
    using socket_opens [OF k1] by (auto simp: base_def)
  have o2: "opened (snd k2) = opened k1" "opened (snd c) = opened k1" "opened (snd w) = opened k1"
    by (simp_all add: k2_def c_def w_def)
  have eq: "(ec, s') =
      (if fd < 0 then (kQueueCreateFailed, s1\<lparr>net := k1\<rparr>)
       else if fst k2 \<noteq> 0 then close_with api fd s1 kQueueCreateFailed (snd k2)
       else if fst (inet_pton api (c_str h)) \<le> 0 then close_with api fd s1 kInvalidParam (snd k2)
       else if fst c \<noteq> None \<and> fst c \<noteq> Some S_EINPROGRESS then close_with api fd s1 kQueueCreateFailed (snd c)
       else if fst w \<noteq> kOk then close_with api fd s1 (fst w) (snd w)
       else finish_connect api fd nd ka s1 (snd w))"
    using assms [symmetric] unfolding tcp_Connect_def Let_def s1_def [symmetric] k1 split_beta fst_conv snd_conv
    unfolding k2_def [symmetric] unfolding c_def [symmetric] unfolding w_def [symmetric] .
  show ?thesis
  proof (cases "fd < 0 \<or> fst k2 \<noteq> 0 \<or> fst (inet_pton api (c_str h)) \<le> 0
      \<or> fst c \<noteq> None \<and> fst c \<noteq> Some S_EINPROGRESS \<or> fst w \<noteq> kOk")
    case True
    then show ?thesis using eq o o2 s1 unfolding base [symmetric] settled_def by (auto split: if_splits)
  next
    case False
    then have "finish_connect api fd nd ka s1 (snd w) = (ec, s')" using eq by auto
    with False o o2 s1 show ?thesis unfolding base [symmetric]
      by (intro finish_connect_settled [of fd nd ka s1 "snd w"]) auto
  qed
qed

end

section \<open>A reference kernel\<close>

text \<open>
  One connection; a script of events decides how many bytes a call moves, and which calls are interrupted,
  time out or fail. When the script is used up every call moves all it can.
\<close>

datatype net_event = Move nat | Interrupt | Expire | Break

record net_state =
  events :: "net_event list"
  sent :: string
  incoming :: string
  got :: string
  descriptors :: "int list"

definition quiet_net :: net_state where
  "quiet_net = \<lparr>events = [], sent = [], incoming = [], got = [], descriptors = []\<rparr>"

definition net_socket :: "net_state \<Rightarrow> int \<times> net_state" where
  "net_socket k = (let fd = 1 + foldr max (descriptors k) 2 in (fd, k\<lparr>descriptors := fd # descriptors k\<rparr>))"

definition net_select :: "net_state \<Rightarrow> int \<times> net_state" where
  "net_select k = (case events k of Expire # r \<Rightarrow> (0, k\<lparr>events := r\<rparr>) | _ \<Rightarrow> (1, k))"

definition net_send :: "string \<Rightarrow> net_state \<Rightarrow> (sock_errno + nat) \<times> net_state" where
  "net_send data k =
     (case events k of
        [] \<Rightarrow> (Inr (length data), k\<lparr>sent := sent k @ data\<rparr>)
      | Move n # r \<Rightarrow> (Inr (min n (length data)), k\<lparr>sent := sent k @ take n data, events := r\<rparr>)
      | Interrupt # r \<Rightarrow> (Inl S_EINTR, k\<lparr>events := r\<rparr>)
      | _ # r \<Rightarrow> (Inl S_OTHER, k\<lparr>events := r\<rparr>))"

definition net_recv :: "nat \<Rightarrow> net_state \<Rightarrow> (sock_errno + string) \<times> net_state" where
  "net_recv n k =
     (case events k of
        [] \<Rightarrow> (Inr (take n (incoming k)), k\<lparr>got := got k @ take n (incoming k), incoming := drop n (incoming k)\<rparr>)
      | Move j # r \<Rightarrow>
          (let c = min j n in
           (Inr (take c (incoming k)),
            k\<lparr>got := got k @ take c (incoming k), incoming := drop c (incoming k), events := r\<rparr>))
      | Interrupt # r \<Rightarrow> (Inl S_EINTR, k\<lparr>events := r\<rparr>)
      | _ # r \<Rightarrow> (Inl S_OTHER, k\<lparr>events := r\<rparr>))"

definition net_connect :: "net_state \<Rightarrow> sock_errno option \<times> net_state" where
  "net_connect k = (case events k of Break # r \<Rightarrow> (Some S_OTHER, k\<lparr>events := r\<rparr>) | _ \<Rightarrow> (Some S_EINPROGRESS, k))"

definition net_api :: "net_state socket_api" where
  "net_api = \<lparr>sys_socket = net_socket, fcntl_getfl = (\<lambda>_ _. 2), fcntl_setfl = (\<lambda>_ _ k. (0, k)),
     inet_pton = (\<lambda>h. if h = ''127.0.0.1'' then (1, 2130706433) else (0, 0)),
     sys_connect = (\<lambda>_ _ _. net_connect), sys_select = (\<lambda>_ _ _. net_select),
     sys_send = (\<lambda>_. net_send), sys_recv = (\<lambda>_. net_recv), get_so_error = (\<lambda>_ k. ((0, 0), k)),
     sys_setsockopt = (\<lambda>_ _ _ k. k), sys_close = (\<lambda>fd k. k\<lparr>descriptors := removeAll fd (descriptors k)\<rparr>)\<rparr>"

lemmas net_defs = net_api_def net_socket_def net_select_def net_send_def net_recv_def net_connect_def

lemma foldr_max_bound: "x \<in> set xs \<Longrightarrow> (x :: int) \<le> foldr max xs b"
  by (induction xs) auto

lemma foldr_max_base: "(b :: int) \<le> foldr max xs b"
  by (induction xs) auto

interpretation net: live_socket net_api "\<lambda>_. sent" "\<lambda>_. got" "\<lambda>_ k. length (events k)"
  by unfold_locales (auto simp: net_defs Let_def min_def split: list.splits net_event.splits)

interpretation net_fds: descriptor_table net_api "\<lambda>k. set (descriptors k)"
proof unfold_locales
  fix k k' fd
  assume "sys_socket net_api k = (fd, k')"
  then have fd: "fd = 1 + foldr max (descriptors k) 2" "set (descriptors k') = insert fd (set (descriptors k))"
    by (auto simp: net_defs Let_def)
  then have "fd \<ge> 0" "fd \<notin> set (descriptors k)"
    using foldr_max_base [of 2 "descriptors k"] foldr_max_bound [of fd "descriptors k" 2] by auto
  then show "if fd < 0 then set (descriptors k') = set (descriptors k)
        else fd \<notin> set (descriptors k) \<and> set (descriptors k') = insert fd (set (descriptors k))"
    using fd by auto
qed (auto simp: net_defs split: list.splits net_event.splits)

section \<open>Messages over a connection\<close>

text \<open>A run of sends that all report success, and a run of receives that all do.\<close>

primrec send_messages :: "'k socket_api \<Rightarrow> (string \<times> u32 \<times> int) list \<Rightarrow> 'k TcpTransport \<Rightarrow> 'k TcpTransport option" where
  "send_messages api [] s = Some s"
| "send_messages api (x # xs) s =
     (case tcp_SendWithTimeout api (fst x) (fst (snd x)) (snd (snd x)) s of
        Some (ec, s') \<Rightarrow> if ec = kOk then send_messages api xs s' else None
      | None \<Rightarrow> None)"

primrec receive_messages :: "'k socket_api \<Rightarrow> int list \<Rightarrow> 'k TcpTransport \<Rightarrow> (string list \<times> 'k TcpTransport) option" where
  "receive_messages api [] s = Some ([], s)"
| "receive_messages api (t # ts) s =
     (case tcp_ReceiveWithTimeout api (Some []) (Some 0) t s of
        Some ((ec, m, p), s') \<Rightarrow>
          if ec = kOk then map_option (\<lambda>(ms, s''). (the m # ms, s'')) (receive_messages api ts s') else None
      | None \<Rightarrow> None)"

context stream_socket
begin

lemma send_messages_written:
  assumes "send_messages api xs s = Some s'" "socket_fd s \<ge> 0" "\<forall>x \<in> set xs. length (fst x) < 2 ^ 32"
  shows "written (socket_fd s) (net s') = written (socket_fd s) (net s) @ concat (map (frame \<circ> fst) xs)"
  using assms
proof (induction xs arbitrary: s)
  case (Cons x xs)
  then obtain s1 where s1: "tcp_SendWithTimeout api (fst x) (fst (snd x)) (snd (snd x)) s = Some (kOk, s1)"
      "send_messages api xs s1 = Some s'"
    by (auto split: option.splits if_splits)
  from tcp_send_written [OF s1(1) Cons.prems(2)] wire_frame [of "fst x"] Cons.prems(3)
  have "socket_fd s1 = socket_fd s" "written (socket_fd s) (net s1) = written (socket_fd s) (net s) @ frame (fst x)"
    by auto
  with Cons.IH [OF s1(2)] Cons.prems show ?case by simp
qed simp

lemma receive_messages_taken:
  assumes "receive_messages api ts s = Some (rs, s')" "socket_fd s \<ge> 0"
  shows "taken (socket_fd s) (net s') = taken (socket_fd s) (net s) @ concat (map frame rs) \<and> (\<forall>r \<in> set rs. length r < 2 ^ 32)"
  using assms
proof (induction ts arbitrary: s rs)
  case (Cons t ts)
  then obtain m p s1 rs' where s1: "tcp_ReceiveWithTimeout api (Some []) (Some 0) t s = Some ((kOk, m, p), s1)"
      "receive_messages api ts s1 = Some (rs', s')" "rs = the m # rs'"
    by (auto split: option.splits if_splits)
  from tcp_receive_taken [OF s1(1) Cons.prems(2)] Cons.IH [OF s1(2)] Cons.prems(2) s1(3) show ?case by auto
qed simp

end

text \<open>
  C28: two ends of a connection, each on a kernel of its own: when the sender has sent some messages and the
  receiver has received some, whatever the chunks the bytes travelled in, the messages received are the first
  of those sent, in order, whole and once, and all of them when all bytes were received.
\<close>

theorem tcp_delivers_in_order:
  assumes "stream_socket api_a written_a taken_a" "stream_socket api_b written_b taken_b"
    and "socket_fd a \<ge> 0" "socket_fd b \<ge> 0"
    and "written_a (socket_fd a) (net a) = []" "taken_b (socket_fd b) (net b) = []"
    and "send_messages api_a xs a = Some a'" "receive_messages api_b ts b = Some (rs, b')"
    and "prefix (taken_b (socket_fd b) (net b')) (written_a (socket_fd a) (net a'))"
    and "\<forall>x \<in> set xs. length (fst x) < 2 ^ 32"
  shows "prefix rs (map fst xs) \<and>
    (taken_b (socket_fd b) (net b') = written_a (socket_fd a) (net a') \<longrightarrow> rs = map fst xs)"
proof -
  have w: "written_a (socket_fd a) (net a') = concat (map frame (map fst xs))"
    using stream_socket.send_messages_written [OF assms(1,7,3,10)] assms(5) by simp
  have t: "taken_b (socket_fd b) (net b') = concat (map frame rs)" "\<forall>r \<in> set rs. length r < 2 ^ 32"
    using stream_socket.receive_messages_taken [OF assms(2,8,4)] assms(6) by simp_all
  have l: "\<forall>m \<in> set (map fst xs). length m < 2 ^ 32" using assms(10) by auto
  from frames_prefix [OF _ t(2) l] assms(9) w t(1) have "prefix rs (map fst xs)" by simp
  moreover have "rs = map fst xs" if "concat (map frame rs) = concat (map frame (map fst xs))"
    using frames_prefix [OF _ t(2) l] frames_prefix [OF _ l t(2)] that
    by (metis prefix_order.antisym prefix_order.refl)
  ultimately show ?thesis using w t(1) by simp
qed

text \<open>Two messages, cut into odd pieces and interrupted on both sides; one has been received.\<close>

definition choppy :: "net_event list" where
  "choppy = [Move 1, Interrupt, Move 2, Move 7, Move 2, Interrupt, Move 1]"

definition sender_end :: "net_state TcpTransport" where
  "sender_end = \<lparr>socket_fd = 3, net = quiet_net\<lparr>events := choppy\<rparr>\<rparr>"

definition receiver_end :: "net_state TcpTransport" where
  "receiver_end = \<lparr>socket_fd = 4, net = quiet_net\<lparr>events := choppy, incoming := frame ''stop'' @ frame ''go''\<rparr>\<rparr>"

lemmas net_run_defs = net_defs loop_steps send_pass_def recv_pass_def WaitForSocket_def SendAll_def RecvAll_def
  tcp_SendWithTimeout_def tcp_ReceiveWithTimeout_def be32_def from_be32_def overwrite_def quiet_net_def

lemma char_of_0 [simp]: "char_of (0 :: nat) = CHR 0x00"
  by (simp add: char_of_def)

lemma sender_run:
  "\<exists>a'. send_messages net_api [(''stop'', 1, 100), (''go'', 0, 100)] sender_end = Some a' \<and>
     sent (net a') = frame ''stop'' @ frame ''go''"
  by (simp add: net_run_defs sender_end_def choppy_def frame_def)

lemma receiver_run:
  "\<exists>b'. receive_messages net_api [100] receiver_end = Some ([''stop''], b') \<and> got (net b') = frame ''stop''"
  by (simp add: net_run_defs receiver_end_def choppy_def frame_def)

theorem tcp_delivers_in_order_witness:
  "\<exists>a' b'. send_messages net_api [(''stop'', 1, 100), (''go'', 0, 100)] sender_end = Some a' \<and>
     receive_messages net_api [100] receiver_end = Some ([''stop''], b') \<and>
     prefix (got (net b')) (sent (net a')) \<and> prefix [''stop''] (map fst [(''stop'', 1 :: u32, 100 :: int), (''go'', 0, 100)])"
proof -
  obtain a' where a: "send_messages net_api [(''stop'', 1, 100), (''go'', 0, 100)] sender_end = Some a'"
      "sent (net a') = frame ''stop'' @ frame ''go''"
    using sender_run by blast
  obtain b' where b: "receive_messages net_api [100] receiver_end = Some ([''stop''], b')" "got (net b') = frame ''stop''"
    using receiver_run by blast
  have "prefix [''stop''] (map fst [(''stop'', 1 :: u32, 100 :: int), (''go'', 0, 100)])"
    using tcp_delivers_in_order [OF net.stream_socket_axioms net.stream_socket_axioms _ _ _ _ a(1) b(1)] a(2) b(2)
    by (simp add: sender_end_def receiver_end_def quiet_net_def)
  with a b show ?thesis by auto
qed


text \<open>The peer stops reading in the middle of a frame.\<close>

definition stalled_end :: "net_state TcpTransport" where
  "stalled_end = \<lparr>socket_fd = 3, net = quiet_net\<lparr>events := [Move 4, Interrupt, Move 2, Expire]\<rparr>\<rparr>"


text \<open>
  After a send that timed out in the middle of a frame, the transport stays connected and the next send
  succeeds; the receiver then gets, with success, a text nobody sent.
\<close>

theorem tcp_timeout_desynchronises:
  "\<exists>a1 a2 b'. tcp_SendWithTimeout net_api ''stop'' 0 100 stalled_end = Some (kTimeout, a1) \<and>
     tcp_SendWithTimeout net_api ''go'' 0 100 a1 = Some (kOk, a2) \<and>
     tcp_ReceiveWithTimeout net_api (Some []) (Some 0) 100 \<lparr>socket_fd = 4, net = quiet_net\<lparr>incoming := sent (net a2)\<rparr>\<rparr>
       = Some ((kOk, Some (''st'' @ [CHR 0x00, CHR 0x00]), Some 0), b')"
  by (simp add: net_run_defs stalled_end_def)

text \<open>
  C31: connecting leaks no descriptor. A refused endpoint leaves the transport as it was. Otherwise the
  descriptors in use are those of before without the one the transport held, and the new one when the result
  is ok, which the transport holds; on every failing path the transport holds none.
\<close>

theorem tcp_Create_no_leak:
  assumes "descriptor_table api opened" "tcp_Create api config s = (ec, s')"
    and "base = (if socket_fd s \<ge> 0 then opened (net s) - {socket_fd s} else opened (net s))"
  shows "if \<not> fst (ParseHostPort config (Some []) (Some 0)) then ec = kInvalidParam \<and> s' = s
     else if ec = kOk then socket_fd s' \<ge> 0 \<and> socket_fd s' \<notin> base \<and> opened (net s') = insert (socket_fd s') base
     else socket_fd s' < 0 \<and> opened (net s') = base"
proof (cases "fst (ParseHostPort config (Some []) (Some 0))")
  case False
  then show ?thesis using assms(2) by (auto simp: tcp_Create_def split: prod.splits)
next
  case True
  then obtain h p nd ka where "tcp_Connect api h p 2000 nd ka s = (ec, s')"
    using assms(2) by (auto simp: tcp_Create_def split: prod.splits)
  from descriptor_table.connect_settled [OF assms(1) this] True show ?thesis
    unfolding assms(3) [symmetric] descriptor_table.settled_def [OF assms(1)] by simp
qed

definition local_endpoint :: TransportEndpointConfig where
  "local_endpoint = default_endpoint\<lparr>params := [''host'' \<mapsto> ''127.0.0.1'', ''port'' \<mapsto> ''7001'', ''tcp_nodelay'' \<mapsto> ''off'']\<rparr>"

text \<open>A reconnection that the peer refuses: the old descriptor is gone and no new one is left.\<close>

theorem tcp_Create_no_leak_witness:
  "\<exists>s'. tcp_Create net_api local_endpoint \<lparr>socket_fd = 3, net = quiet_net\<lparr>events := [Break], descriptors := [3, 9]\<rparr>\<rparr>
       = (kQueueCreateFailed, s') \<and> socket_fd s' < 0 \<and> set (descriptors (net s')) = {9}"
proof -
  define s :: "net_state TcpTransport" where
    "s = \<lparr>socket_fd = 3, net = quiet_net\<lparr>events := [Break], descriptors := [3, 9]\<rparr>\<rparr>"
  have p: "ParseHostPort local_endpoint (Some []) (Some 0) = (True, Some ''127.0.0.1'', Some 7001)"
    by (simp add: ParseHostPort_def local_endpoint_def ParsePort_def strtol_def c_str_def is_space_def is_digit_def
        digits_val_def digit_val_def)
  have r: "\<exists>s'. tcp_Create net_api local_endpoint s = (kQueueCreateFailed, s')"
    by (simp add: tcp_Create_def p s_def tcp_Connect_def tcp_CloseSocket_def net_defs quiet_net_def SetNonBlocking_def
        c_str_def Let_def)
  then obtain s' where s': "tcp_Create net_api local_endpoint s = (kQueueCreateFailed, s')" by blast
  show ?thesis
    using tcp_Create_no_leak [OF net_fds.descriptor_table_axioms s' refl] s' p
    by (simp add: s_def quiet_net_def)
qed

section \<open>The port\<close>

lemma takeWhile_digits: "list_all is_digit ds \<Longrightarrow> takeWhile is_digit ds = ds"
  by (simp add: list_all_iff takeWhile_eq_all_conv)

lemma dropWhile_digits: "dropWhile is_digit ds = [] \<longleftrightarrow> list_all is_digit ds"
  by (simp add: list_all_iff)

lemma strtol_number:
  assumes "list_all is_space ws" "sg \<in> {[], ''+''}" "ds \<noteq> []" "list_all is_digit ds"
  shows "strtol (ws @ sg @ ds) = (min (2 ^ 63 - 1) (int (digits_val ds)), [])"
proof -
  obtain d r where ds: "ds = d # r" using assms(3) by (cases ds) auto
  with assms(4) have "\<not> is_space d" "d \<noteq> CHR ''-''" "d \<noteq> CHR ''+''" using digit_not_special [of d] by auto
  moreover have "\<not> is_space (CHR ''+'')" by (simp add: is_space_def)
  ultimately have "dropWhile is_space (ws @ sg @ ds) = sg @ ds"
    using assms(1,2) ds by (auto simp: dropWhile_append list_all_iff)
  moreover have "is_digit d" "list_all is_digit r" using assms(4) ds by auto
  ultimately show ?thesis
    using assms(2) ds \<open>d \<noteq> CHR ''-''\<close> \<open>d \<noteq> CHR ''+''\<close>
    by (auto simp del: dropWhile_eq_Nil_conv simp: strtol_def Let_def takeWhile_digits dropWhile_digits)
qed

lemma strtol_positive:
  assumes "strtol s = (parsed, [])" "0 < parsed"
  shows "\<exists>ws sg ds. s = ws @ sg @ ds \<and> list_all is_space ws \<and> sg \<in> {[], ''+''} \<and> ds \<noteq> [] \<and> list_all is_digit ds
           \<and> parsed = min (2 ^ 63 - 1) (int (digits_val ds))"
proof -
  define ws where "ws = takeWhile is_space s"
  have ws: "list_all is_space ws" by (auto simp: ws_def list_all_iff dest: set_takeWhileD)
  obtain c r where s1: "dropWhile is_space s = c # r"
    using assms by (cases "dropWhile is_space s") (auto simp: strtol_def Let_def)
  then have s: "s = ws @ c # r" by (metis ws_def takeWhile_dropWhile_id)
  consider "c = CHR ''-''" | "c = CHR ''+''" | "c \<noteq> CHR ''-''" "c \<noteq> CHR ''+''" by blast
  then show ?thesis
  proof cases
    case 1
    then show ?thesis using assms s1 by (auto simp: strtol_def Let_def split: if_splits)
  next
    case 2
    then have "list_all is_digit r" "takeWhile is_digit r \<noteq> []" "parsed = min (2 ^ 63 - 1) (int (digits_val (takeWhile is_digit r)))"
      using assms s1
      by (auto simp del: dropWhile_eq_Nil_conv simp: strtol_def Let_def dropWhile_digits split: if_splits)
    with s 2 have "s = ws @ ''+'' @ r" "r \<noteq> []" "list_all is_digit r"
      "parsed = min (2 ^ 63 - 1) (int (digits_val r))"
      by (auto simp: takeWhile_digits)
    with ws show ?thesis by blast
  next
    case 3
    then have "list_all is_digit (c # r)" "takeWhile is_digit (c # r) \<noteq> []"
      "parsed = min (2 ^ 63 - 1) (int (digits_val (takeWhile is_digit (c # r))))"
      using assms s1
      by (auto simp del: dropWhile_eq_Nil_conv simp: strtol_def Let_def dropWhile_digits split: if_splits)
    with s have "s = ws @ [] @ c # r" "c # r \<noteq> []" "list_all is_digit (c # r)"
      "parsed = min (2 ^ 63 - 1) (int (digits_val (c # r)))"
      by (simp_all add: takeWhile_digits)
    with ws show ?thesis by blast
  qed
qed

text \<open>
  A port is accepted exactly when its text, up to the first null, is white space, an optional plus sign
  and digits of a value from 1 to 65535, and that value is stored.
\<close>

theorem ParsePort_exact:
  "ParsePort v (Some p0) = (True, q) \<longleftrightarrow>
     (\<exists>ws sg ds. c_str v = ws @ sg @ ds \<and> list_all is_space ws \<and> sg \<in> {[], ''+''} \<and> ds \<noteq> [] \<and> list_all is_digit ds
        \<and> 0 < digits_val ds \<and> digits_val ds \<le> 65535 \<and> q = Some (of_nat (digits_val ds)))"
  (is "_ \<longleftrightarrow> ?R")
proof
  assume "ParsePort v (Some p0) = (True, q)"
  then obtain parsed where st: "strtol (c_str v) = (parsed, [])" and a: "c_str v \<noteq> []" "0 < parsed" "parsed \<le> 65535" "q = Some (word_of_int parsed)"
    by (auto simp: ParsePort_def split: if_splits prod.splits)
  from strtol_positive [OF st a(2)] obtain ws sg ds where
    "c_str v = ws @ sg @ ds" "list_all is_space ws" "sg \<in> {[], ''+''}" "ds \<noteq> []" "list_all is_digit ds"
    "parsed = min (2 ^ 63 - 1) (int (digits_val ds))"
    by blast
  moreover from this(6) a have "parsed = int (digits_val ds)" by simp
  moreover from this a have "0 < digits_val ds" "digits_val ds \<le> 65535" "q = Some (of_nat (digits_val ds))"
    by simp_all
  ultimately show ?R by blast
next
  assume ?R
  then obtain ws sg ds where r: "c_str v = ws @ sg @ ds" "list_all is_space ws" "sg \<in> {[], ''+''}" "ds \<noteq> []" "list_all is_digit ds"
      "0 < digits_val ds" "digits_val ds \<le> 65535" "q = Some (of_nat (digits_val ds))"
    by blast
  from strtol_number [OF r(2-5)] r(7) have "strtol (c_str v) = (int (digits_val ds), [])" by (simp add: r(1))
  with r show "ParsePort v (Some p0) = (True, q)" by (simp add: ParsePort_def)
qed

end
