(* ===== verification/Message_Router.thy ===== *)
theory Message_Router
  imports Message_Envelope
begin

text \<open>
  \<^verbatim>\<open>interconnect/message_router.cpp\<close>: handlers registered per topic. A handler acts on the state \<open>'w\<close> of
  the application and returns or throws; an empty \<^verbatim>\<open>std::function\<close> is \<open>None\<close>.
\<close>

type_synonym 'w MessageHandler = "MessageEnvelope \<Rightarrow> 'w \<Rightarrow> call_outcome \<times> 'w"

datatype RouteResult = route_kOk | route_kNoHandler | route_kHandlerError

record 'w MessageRouter =
  handlers :: "string \<rightharpoonup> 'w MessageHandler"

definition empty_router :: "'w MessageRouter" where
  "empty_router = \<lparr>handlers = Map.empty\<rparr>"

definition Register :: "'w MessageRouter \<Rightarrow> string \<Rightarrow> 'w MessageHandler option \<Rightarrow> bool \<times> 'w MessageRouter" where
  "Register router tp handler =
     (case handler of
        None \<Rightarrow> (False, router)
      | Some h \<Rightarrow> if tp = [] then (False, router) else (True, router\<lparr>handlers := (handlers router)(tp \<mapsto> h)\<rparr>))"

definition Route :: "'w MessageRouter \<Rightarrow> MessageEnvelope \<Rightarrow> 'w \<Rightarrow> RouteResult \<times> 'w" where
  "Route router envelope w =
     (case handlers router (topic envelope) of
        None \<Rightarrow> (route_kNoHandler, w)
      | Some h \<Rightarrow> (case h envelope w of
            (Threw, w') \<Rightarrow> (route_kHandlerError, w')
          | (Returned, w') \<Rightarrow> (route_kOk, w')))"

text \<open>A sequence of registrations.\<close>

fun register_all :: "'w MessageRouter \<Rightarrow> (string \<times> 'w MessageHandler option) list \<Rightarrow> 'w MessageRouter" where
  "register_all router [] = router"
| "register_all router ((t, h) # rs) = register_all (snd (Register router t h)) rs"

text \<open>The registrations that count, the latest first.\<close>

definition effective :: "(string \<times> 'w MessageHandler option) list \<Rightarrow> (string \<times> 'w MessageHandler) list" where
  "effective rs = rev (map (\<lambda>(t, h). (t, the h)) (filter (\<lambda>(t, h). t \<noteq> [] \<and> h \<noteq> None) rs))"

lemma handlers_register_all: "handlers (register_all router rs) = handlers router ++ map_of (effective rs)"
proof (induction rs arbitrary: router)
  case (Cons r rs)
  then show ?case
    by (cases r) (auto simp: effective_def Register_def map_add_def fun_eq_iff map_of_append
        split: option.splits)
qed (simp add: effective_def)

text \<open>
  Routing follows the registrations. After any sequence of them on an empty router, a message goes
  to the handler registered last for its topic, those under the empty topic and those of an empty
  function not counting: the result is ok when that handler returns, a handler error when it throws (the
  exception stops there), the handler's effect being kept in both cases; with no such registration the
  result is a miss and nothing is run.
\<close>

theorem Route_last_registered:
  "Route (register_all empty_router rs) e w =
     (case map_of (effective rs) (topic e) of
        None \<Rightarrow> (route_kNoHandler, w)
      | Some h \<Rightarrow> (if fst (h e w) = Returned then route_kOk else route_kHandlerError, snd (h e w)))"
  by (auto simp: Route_def handlers_register_all empty_router_def split: option.splits prod.splits call_outcome.splits)

lemma empty_topic_never_routed: "topic e = [] \<Longrightarrow> fst (Route (register_all empty_router rs) e w) = route_kNoHandler"
proof -
  assume "topic e = []"
  moreover have "map_of (effective rs) [] = None"
    by (auto simp: effective_def map_of_eq_None_iff)
  ultimately show ?thesis by (simp add: Route_def handlers_register_all empty_router_def)
qed

end
