(* ===== verification/Metrics_Aggregator.thy ===== *)
theory Metrics_Aggregator
  imports Message_Envelope Thread_Pool
begin

text \<open>
  \<^verbatim>\<open>interconnect/bridge_metrics.hpp\<close> and \<^verbatim>\<open>interconnect/system_metrics_aggregator.hpp\<close>: the metrics of the
  bridge, the aggregator that keeps the latest ones with those of the last export, the difference
  between two exports, and the texts for Prometheus and JSON. A traversal of an
  \<^verbatim>\<open>unordered_map\<close> has an order the library leaves open: it is a parameter of the texts.
\<close>

section \<open>Metrics\<close>

record BridgeMetrics =
  tx_count :: u64
  tx_fail_count :: u64
  rx_count :: u64
  encode_fail_count :: u64
  decode_fail_count :: u64
  expired_drop_count :: u64
  route_miss_count :: u64
  handler_error_count :: u64
  invalid_envelope_count :: u64
  transport_error_count :: u64
  backpressure_drop_count :: u64
  policy_hit_count :: u64
  policy_override_count :: u64
  policy_conflict_count :: u64
  policy_conflict_sampled_count :: u64
  policy_cache_hit_count :: u64
  policy_cache_miss_count :: u64
  policy_lint_issue_count :: u64
  policy_lint_warning_count :: u64
  trace_id_present_count :: u64
  trace_id_missing_count :: u64
  trace_id_sampled_count :: u64
  trace_index_hit_count :: u64
  trace_index_miss_count :: u64
  trace_linked_event_count :: u64
  sla_violation_sampled_count :: u64
  reload_success_count :: u64
  reload_fail_count :: u64
  reload_rollback_count :: u64
  last_reload_timestamp_ms :: u64
  last_reload_status_code :: int
  reload_rollback_reason_code :: int
  loaded_config_version :: u64
  protocol_mode_code :: u32
  protocol_cap_legacy :: u64
  protocol_cap_compact :: u64
  protocol_cap_protobuf :: u64
  protocol_cap_cbor :: u64
  configured_transport_pool_size :: u64
  failover_hit_count :: u64
  transport_primary_healthy :: u64
  transport_secondary_healthy :: u64
  diag_dump_state_count :: u64
  diag_route_event_count :: u64
  diag_failover_event_count :: u64
  topic_tx_count :: "string \<rightharpoonup> u64"
  topic_rx_count :: "string \<rightharpoonup> u64"
  topic_expired_drop_count :: "string \<rightharpoonup> u64"
  channel_tx_count :: "ChannelType \<rightharpoonup> u64"
  channel_rx_count :: "ChannelType \<rightharpoonup> u64"
  channel_expired_drop_count :: "ChannelType \<rightharpoonup> u64"
  qos_tx_count :: "DeliveryQoS \<rightharpoonup> u64"
  qos_rx_count :: "DeliveryQoS \<rightharpoonup> u64"
  qos_expired_drop_count :: "DeliveryQoS \<rightharpoonup> u64"

definition default_BridgeMetrics :: BridgeMetrics where
  "default_BridgeMetrics = \<lparr>
     tx_count = 0, tx_fail_count = 0, rx_count = 0, encode_fail_count = 0, decode_fail_count = 0,
     expired_drop_count = 0, route_miss_count = 0, handler_error_count = 0, invalid_envelope_count = 0,
     transport_error_count = 0, backpressure_drop_count = 0, policy_hit_count = 0,
     policy_override_count = 0, policy_conflict_count = 0, policy_conflict_sampled_count = 0,
     policy_cache_hit_count = 0, policy_cache_miss_count = 0, policy_lint_issue_count = 0,
     policy_lint_warning_count = 0, trace_id_present_count = 0, trace_id_missing_count = 0,
     trace_id_sampled_count = 0, trace_index_hit_count = 0, trace_index_miss_count = 0,
     trace_linked_event_count = 0, sla_violation_sampled_count = 0, reload_success_count = 0,
     reload_fail_count = 0, reload_rollback_count = 0, last_reload_timestamp_ms = 0,
     last_reload_status_code = 0, reload_rollback_reason_code = 0, loaded_config_version = 0,
     protocol_mode_code = 0, protocol_cap_legacy = 1, protocol_cap_compact = 1, protocol_cap_protobuf = 0,
     protocol_cap_cbor = 0, configured_transport_pool_size = 2, failover_hit_count = 0,
     transport_primary_healthy = 1, transport_secondary_healthy = 1, diag_dump_state_count = 0,
     diag_route_event_count = 0, diag_failover_event_count = 0, topic_tx_count = Map.empty,
     topic_rx_count = Map.empty, topic_expired_drop_count = Map.empty, channel_tx_count = Map.empty,
     channel_rx_count = Map.empty, channel_expired_drop_count = Map.empty, qos_tx_count = Map.empty,
     qos_rx_count = Map.empty, qos_expired_drop_count = Map.empty\<rparr>"

record MetricsSnapshot =
  snap_bridge_metrics :: BridgeMetrics
  snap_thread_pool_metrics :: ThreadPoolMetrics
  snap_timestamp_ms :: u64

record MetricsDelta =
  bridge_metrics_delta :: BridgeMetrics
  thread_pool_executed_delta :: u64
  thread_pool_rejected_delta :: u64
  thread_pool_exception_delta :: u64
  from_timestamp_ms :: u64
  to_timestamp_ms :: u64

record SystemMetricsAggregator =
  agg_bridge :: BridgeMetrics
  agg_thread_pool :: ThreadPoolMetrics
  last_export_bridge :: BridgeMetrics
  last_export_thread_pool :: ThreadPoolMetrics
  last_export_timestamp_ms :: u64

definition default_ThreadPoolMetrics :: ThreadPoolMetrics where
  "default_ThreadPoolMetrics = \<lparr>tp_queue_size = 0, tp_queue_capacity = 0, tp_submitted_count = 0,
     tp_executed_count = 0, tp_rejected_count = 0, tp_task_exception_count = 0, tp_worker_count = 0, tp_running = False\<rparr>"

definition new_aggregator :: SystemMetricsAggregator where
  "new_aggregator = \<lparr>agg_bridge = default_BridgeMetrics, agg_thread_pool = default_ThreadPoolMetrics,
     last_export_bridge = default_BridgeMetrics, last_export_thread_pool = default_ThreadPoolMetrics,
     last_export_timestamp_ms = 0\<rparr>"

section \<open>Updates and snapshots\<close>

definition UpdateBridgeMetrics :: "BridgeMetrics \<Rightarrow> SystemMetricsAggregator \<Rightarrow> SystemMetricsAggregator" where
  "UpdateBridgeMetrics m a = a\<lparr>agg_bridge := m\<rparr>"

definition UpdateThreadPoolMetrics :: "ThreadPoolMetrics \<Rightarrow> SystemMetricsAggregator \<Rightarrow> SystemMetricsAggregator" where
  "UpdateThreadPoolMetrics m a = a\<lparr>agg_thread_pool := m\<rparr>"

definition GetBridgeMetrics :: "SystemMetricsAggregator \<Rightarrow> BridgeMetrics" where
  "GetBridgeMetrics a = agg_bridge a"

definition GetThreadPoolMetrics :: "SystemMetricsAggregator \<Rightarrow> ThreadPoolMetrics" where
  "GetThreadPoolMetrics a = agg_thread_pool a"

definition CaptureSnapshot :: "u64 \<Rightarrow> SystemMetricsAggregator \<Rightarrow> MetricsSnapshot" where
  "CaptureSnapshot now_ms a = \<lparr>snap_bridge_metrics = agg_bridge a, snap_thread_pool_metrics = agg_thread_pool a,
     snap_timestamp_ms = now_ms\<rparr>"

section \<open>Differences\<close>

definition delta_metrics :: "BridgeMetrics \<Rightarrow> BridgeMetrics \<Rightarrow> BridgeMetrics" where
  "delta_metrics cur prev = default_BridgeMetrics\<lparr>
     tx_count := tx_count cur - tx_count prev,
     tx_fail_count := tx_fail_count cur - tx_fail_count prev,
     rx_count := rx_count cur - rx_count prev,
     encode_fail_count := encode_fail_count cur - encode_fail_count prev,
     decode_fail_count := decode_fail_count cur - decode_fail_count prev,
     expired_drop_count := expired_drop_count cur - expired_drop_count prev,
     route_miss_count := route_miss_count cur - route_miss_count prev,
     handler_error_count := handler_error_count cur - handler_error_count prev,
     invalid_envelope_count := invalid_envelope_count cur - invalid_envelope_count prev,
     transport_error_count := transport_error_count cur - transport_error_count prev,
     backpressure_drop_count := backpressure_drop_count cur - backpressure_drop_count prev,
     policy_hit_count := policy_hit_count cur - policy_hit_count prev,
     policy_override_count := policy_override_count cur - policy_override_count prev,
     policy_conflict_count := policy_conflict_count cur - policy_conflict_count prev,
     policy_conflict_sampled_count := policy_conflict_sampled_count cur - policy_conflict_sampled_count prev,
     policy_cache_hit_count := policy_cache_hit_count cur - policy_cache_hit_count prev,
     policy_cache_miss_count := policy_cache_miss_count cur - policy_cache_miss_count prev,
     trace_id_present_count := trace_id_present_count cur - trace_id_present_count prev,
     trace_id_missing_count := trace_id_missing_count cur - trace_id_missing_count prev,
     trace_id_sampled_count := trace_id_sampled_count cur - trace_id_sampled_count prev,
     sla_violation_sampled_count := sla_violation_sampled_count cur - sla_violation_sampled_count prev,
     reload_success_count := reload_success_count cur - reload_success_count prev,
     reload_fail_count := reload_fail_count cur - reload_fail_count prev\<rparr>"

definition ExportDeltaSinceLastCall :: "u64 \<Rightarrow> SystemMetricsAggregator \<Rightarrow> MetricsDelta \<times> SystemMetricsAggregator" where
  "ExportDeltaSinceLastCall now_ms a =
     (\<lparr>bridge_metrics_delta = delta_metrics (agg_bridge a) (last_export_bridge a),
       thread_pool_executed_delta = tp_executed_count (agg_thread_pool a) - tp_executed_count (last_export_thread_pool a),
       thread_pool_rejected_delta = tp_rejected_count (agg_thread_pool a) - tp_rejected_count (last_export_thread_pool a),
       thread_pool_exception_delta =
         tp_task_exception_count (agg_thread_pool a) - tp_task_exception_count (last_export_thread_pool a),
       from_timestamp_ms = last_export_timestamp_ms a, to_timestamp_ms = now_ms\<rparr>,
      a\<lparr>last_export_bridge := agg_bridge a, last_export_thread_pool := agg_thread_pool a,
        last_export_timestamp_ms := now_ms\<rparr>)"

section \<open>Texts\<close>

definition quoted :: "string \<Rightarrow> string" where
  "quoted s = [CHR 0x22] @ s @ [CHR 0x22]"

text \<open>A member \<^verbatim>\<open>"key":value\<close>, and members separated by commas.\<close>

definition json_member :: "string \<times> string \<Rightarrow> string" where
  "json_member m = quoted (fst m) @ '':'' @ snd m"

fun comma_join :: "string list \<Rightarrow> string" where
  "comma_join [] = []"
| "comma_join [x] = x"
| "comma_join (x # y # xs) = x @ '','' @ comma_join (y # xs)"

definition json_object :: "(string \<times> string) list \<Rightarrow> string" where
  "json_object ms = ''{'' @ comma_join (map json_member ms) @ ''}''"

definition json_bridge_members :: "BridgeMetrics \<Rightarrow> (string \<times> string) list" where
  "json_bridge_members m = [
     (''tx'', show_nat (unat (tx_count m))),
     (''tx_fail'', show_nat (unat (tx_fail_count m))),
     (''rx'', show_nat (unat (rx_count m))),
     (''encode_fail'', show_nat (unat (encode_fail_count m))),
     (''decode_fail'', show_nat (unat (decode_fail_count m))),
     (''expired_drop'', show_nat (unat (expired_drop_count m))),
     (''route_miss'', show_nat (unat (route_miss_count m))),
     (''handler_error'', show_nat (unat (handler_error_count m))),
     (''invalid_envelope'', show_nat (unat (invalid_envelope_count m))),
     (''transport_error'', show_nat (unat (transport_error_count m))),
     (''backpressure_drop'', show_nat (unat (backpressure_drop_count m))),
     (''policy_hit'', show_nat (unat (policy_hit_count m))),
     (''policy_override'', show_nat (unat (policy_override_count m))),
     (''policy_conflict'', show_nat (unat (policy_conflict_count m))),
     (''policy_conflict_sampled'', show_nat (unat (policy_conflict_sampled_count m))),
     (''policy_cache_hit'', show_nat (unat (policy_cache_hit_count m))),
     (''policy_cache_miss'', show_nat (unat (policy_cache_miss_count m))),
     (''policy_lint_issue'', show_nat (unat (policy_lint_issue_count m))),
     (''policy_lint_warning'', show_nat (unat (policy_lint_warning_count m))),
     (''trace_id_present'', show_nat (unat (trace_id_present_count m))),
     (''trace_index_hit'', show_nat (unat (trace_index_hit_count m))),
     (''trace_index_miss'', show_nat (unat (trace_index_miss_count m))),
     (''trace_linked_event'', show_nat (unat (trace_linked_event_count m))),
     (''trace_id_missing'', show_nat (unat (trace_id_missing_count m))),
     (''trace_id_sampled'', show_nat (unat (trace_id_sampled_count m))),
     (''sla_violation_sampled'', show_nat (unat (sla_violation_sampled_count m))),
     (''reload_success'', show_nat (unat (reload_success_count m))),
     (''reload_fail'', show_nat (unat (reload_fail_count m))),
     (''reload_rollback'', show_nat (unat (reload_rollback_count m))),
     (''reload_status'', show_int (last_reload_status_code m)),
     (''reload_reason'', show_int (reload_rollback_reason_code m)),
     (''protocol_mode'', show_nat (unat (protocol_mode_code m))),
     (''protocol_cap_legacy'', show_nat (unat (protocol_cap_legacy m))),
     (''protocol_cap_compact'', show_nat (unat (protocol_cap_compact m))),
     (''protocol_cap_protobuf'', show_nat (unat (protocol_cap_protobuf m))),
     (''protocol_cap_cbor'', show_nat (unat (protocol_cap_cbor m))),
     (''transport_pool'', show_nat (unat (configured_transport_pool_size m))),
     (''failover_hit'', show_nat (unat (failover_hit_count m))),
     (''health_primary'', show_nat (unat (transport_primary_healthy m))),
     (''health_secondary'', show_nat (unat (transport_secondary_healthy m))),
     (''diag_dump'', show_nat (unat (diag_dump_state_count m))),
     (''diag_route'', show_nat (unat (diag_route_event_count m))),
     (''diag_failover'', show_nat (unat (diag_failover_event_count m)))]"

definition ExportJson :: "u64 \<Rightarrow> SystemMetricsAggregator \<Rightarrow> string" where
  "ExportJson ts a =
     json_object [(''timestamp_ms'', show_nat (unat ts)), (''bridge'', json_object (json_bridge_members (agg_bridge a))),
       (''endpoint'', quoted ''bridge''), (''config_version'', show_nat (unat (loaded_config_version (agg_bridge a))))]"

definition json_light_members :: "BridgeMetrics \<Rightarrow> (string \<times> string) list" where
  "json_light_members m = [
     (''tx'', show_nat (unat (tx_count m))),
     (''rx'', show_nat (unat (rx_count m))),
     (''txf'', show_nat (unat (tx_fail_count m))),
     (''exp'', show_nat (unat (expired_drop_count m))),
     (''route'', show_nat (unat (route_miss_count m))),
     (''herr'', show_nat (unat (handler_error_count m))),
     (''pol_hit'', show_nat (unat (policy_hit_count m))),
     (''pol_miss'', show_nat (unat (policy_cache_miss_count m))),
     (''tid_p'', show_nat (unat (trace_id_present_count m))),
     (''tidx_h'', show_nat (unat (trace_index_hit_count m))),
     (''tidx_m'', show_nat (unat (trace_index_miss_count m))),
     (''tlink'', show_nat (unat (trace_linked_event_count m))),
     (''tid_m'', show_nat (unat (trace_id_missing_count m))),
     (''sla_s'', show_nat (unat (sla_violation_sampled_count m))),
     (''r_ok'', show_nat (unat (reload_success_count m))),
     (''r_fail'', show_nat (unat (reload_fail_count m))),
     (''r_rb'', show_nat (unat (reload_rollback_count m))),
     (''lint_i'', show_nat (unat (policy_lint_issue_count m))),
     (''lint_w'', show_nat (unat (policy_lint_warning_count m))),
     (''r_code'', show_int (last_reload_status_code m)),
     (''r_reason'', show_int (reload_rollback_reason_code m)),
     (''pm'', show_nat (unat (protocol_mode_code m))),
     (''pc_l'', show_nat (unat (protocol_cap_legacy m))),
     (''pc_c'', show_nat (unat (protocol_cap_compact m))),
     (''pc_p'', show_nat (unat (protocol_cap_protobuf m))),
     (''pc_b'', show_nat (unat (protocol_cap_cbor m))),
     (''tp'', show_nat (unat (configured_transport_pool_size m))),
     (''fo_h'', show_nat (unat (failover_hit_count m))),
     (''hp'', show_nat (unat (transport_primary_healthy m))),
     (''hs'', show_nat (unat (transport_secondary_healthy m))),
     (''d_dump'', show_nat (unat (diag_dump_state_count m))),
     (''d_route'', show_nat (unat (diag_route_event_count m))),
     (''d_fail'', show_nat (unat (diag_failover_event_count m)))]"

definition ExportJsonLightweight :: "u64 \<Rightarrow> SystemMetricsAggregator \<Rightarrow> string" where
  "ExportJsonLightweight ts a =
     json_object [(''ts'', show_nat (unat ts)), (''b'', json_object (json_light_members (agg_bridge a))),
       (''ep'', quoted ''bridge''), (''ver'', show_nat (unat (loaded_config_version (agg_bridge a))))]"

fun channel_to_label :: "ChannelType \<Rightarrow> string" where
  "channel_to_label kControl = ''control''"
| "channel_to_label kTelemetry = ''telemetry''"
| "channel_to_label kEvent = ''event''"

fun qos_to_label :: "DeliveryQoS \<Rightarrow> string" where
  "qos_to_label kAtLeastOnce = ''at_least_once''"
| "qos_to_label kBestEffort = ''best_effort''"

definition prom_labels :: "string \<Rightarrow> string \<Rightarrow> string \<Rightarrow> string \<Rightarrow> string" where
  "prom_labels tp ch q endpoint =
     ''{topic='' @ quoted tp @ '',channel='' @ quoted ch @ '',qos='' @ quoted q @ '',endpoint='' @ quoted endpoint @ ''}''"

definition default_labels :: string where
  "default_labels = prom_labels ''*'' ''all'' ''all'' ''bridge''"

definition prom_line :: "u64 \<Rightarrow> string \<Rightarrow> string \<Rightarrow> string \<Rightarrow> string" where
  "prom_line ts nm labels v = nm @ labels @ '' '' @ v @ '' '' @ show_nat (unat ts) @ [CHR 0x0A]"

definition emit_bucket :: "u64 \<Rightarrow> string \<Rightarrow> ('k \<Rightarrow> string) \<Rightarrow> 'k list \<Rightarrow> ('k \<rightharpoonup> u64) \<Rightarrow> string" where
  "emit_bucket ts nm labels order bucket =
     concat (map (\<lambda>k. case bucket k of None \<Rightarrow> [] | Some v \<Rightarrow> prom_line ts nm (labels k) (show_nat (unat v))) order)"

definition emit_all :: "u64 \<Rightarrow> (string \<times> string) list \<Rightarrow> string" where
  "emit_all ts ms = concat (map (\<lambda>(nm, v). prom_line ts nm default_labels v) ms)"

text \<open>The traversal orders of the maps, one for each type of keys and map.\<close>

record traversal =
  topic_order :: "(string \<rightharpoonup> u64) \<Rightarrow> string list"
  channel_order :: "(ChannelType \<rightharpoonup> u64) \<Rightarrow> ChannelType list"
  qos_order :: "(DeliveryQoS \<rightharpoonup> u64) \<Rightarrow> DeliveryQoS list"

definition prom_traffic :: "BridgeMetrics \<Rightarrow> (string \<times> string) list" where
  "prom_traffic m = [
     (''vv_bridge_tx_total'', show_nat (unat (tx_count m))),
     (''vv_bridge_tx_fail_total'', show_nat (unat (tx_fail_count m))),
     (''vv_bridge_rx_total'', show_nat (unat (rx_count m))),
     (''vv_bridge_encode_fail_total'', show_nat (unat (encode_fail_count m))),
     (''vv_bridge_decode_fail_total'', show_nat (unat (decode_fail_count m))),
     (''vv_bridge_expired_drop_total'', show_nat (unat (expired_drop_count m))),
     (''vv_bridge_route_miss_total'', show_nat (unat (route_miss_count m))),
     (''vv_bridge_handler_error_total'', show_nat (unat (handler_error_count m))),
     (''vv_bridge_invalid_envelope_total'', show_nat (unat (invalid_envelope_count m))),
     (''vv_bridge_transport_error_total'', show_nat (unat (transport_error_count m))),
     (''vv_bridge_backpressure_drop_total'', show_nat (unat (backpressure_drop_count m)))]"

definition prom_buckets :: "traversal \<Rightarrow> u64 \<Rightarrow> BridgeMetrics \<Rightarrow> string" where
  "prom_buckets order ts m =
     emit_bucket ts ''vv_bridge_tx_total'' (\<lambda>t. prom_labels t ''all'' ''all'' ''bridge'') (topic_order order (topic_tx_count m)) (topic_tx_count m) @
     emit_bucket ts ''vv_bridge_rx_total'' (\<lambda>t. prom_labels t ''all'' ''all'' ''bridge'') (topic_order order (topic_rx_count m)) (topic_rx_count m) @
     emit_bucket ts ''vv_bridge_expired_drop_total'' (\<lambda>t. prom_labels t ''all'' ''all'' ''bridge'') (topic_order order (topic_expired_drop_count m)) (topic_expired_drop_count m) @
     emit_bucket ts ''vv_bridge_tx_total'' (\<lambda>c. prom_labels ''*'' (channel_to_label c) ''all'' ''bridge'') (channel_order order (channel_tx_count m)) (channel_tx_count m) @
     emit_bucket ts ''vv_bridge_rx_total'' (\<lambda>c. prom_labels ''*'' (channel_to_label c) ''all'' ''bridge'') (channel_order order (channel_rx_count m)) (channel_rx_count m) @
     emit_bucket ts ''vv_bridge_expired_drop_total'' (\<lambda>c. prom_labels ''*'' (channel_to_label c) ''all'' ''bridge'') (channel_order order (channel_expired_drop_count m)) (channel_expired_drop_count m) @
     emit_bucket ts ''vv_bridge_tx_total'' (\<lambda>q. prom_labels ''*'' ''all'' (qos_to_label q) ''bridge'') (qos_order order (qos_tx_count m)) (qos_tx_count m) @
     emit_bucket ts ''vv_bridge_rx_total'' (\<lambda>q. prom_labels ''*'' ''all'' (qos_to_label q) ''bridge'') (qos_order order (qos_rx_count m)) (qos_rx_count m) @
     emit_bucket ts ''vv_bridge_expired_drop_total'' (\<lambda>q. prom_labels ''*'' ''all'' (qos_to_label q) ''bridge'') (qos_order order (qos_expired_drop_count m)) (qos_expired_drop_count m)"

definition prom_state :: "BridgeMetrics \<Rightarrow> (string \<times> string) list" where
  "prom_state m = [
     (''vv_policy_hit_total'', show_nat (unat (policy_hit_count m))),
     (''vv_policy_override_total'', show_nat (unat (policy_override_count m))),
     (''vv_policy_conflict_total'', show_nat (unat (policy_conflict_count m))),
     (''vv_policy_conflict_sample_total'', show_nat (unat (policy_conflict_sampled_count m))),
     (''vv_policy_cache_hit_total'', show_nat (unat (policy_cache_hit_count m))),
     (''vv_policy_cache_miss_total'', show_nat (unat (policy_cache_miss_count m))),
     (''vv_policy_lint_issue_total'', show_nat (unat (policy_lint_issue_count m))),
     (''vv_policy_lint_warning_total'', show_nat (unat (policy_lint_warning_count m))),
     (''vv_trace_id_present_total'', show_nat (unat (trace_id_present_count m))),
     (''vv_trace_index_hit_total'', show_nat (unat (trace_index_hit_count m))),
     (''vv_trace_index_miss_total'', show_nat (unat (trace_index_miss_count m))),
     (''vv_trace_linked_event_total'', show_nat (unat (trace_linked_event_count m))),
     (''vv_reload_status_code'', show_int (last_reload_status_code m)),
     (''vv_trace_id_missing_total'', show_nat (unat (trace_id_missing_count m))),
     (''vv_trace_id_sample_total'', show_nat (unat (trace_id_sampled_count m))),
     (''vv_sla_violation_sample_total'', show_nat (unat (sla_violation_sampled_count m))),
     (''vv_reload_success_total'', show_nat (unat (reload_success_count m))),
     (''vv_reload_fail_total'', show_nat (unat (reload_fail_count m))),
     (''vv_reload_rollback_total'', show_nat (unat (reload_rollback_count m))),
     (''vv_loaded_config_version'', show_nat (unat (loaded_config_version m))),
     (''vv_last_reload_timestamp_ms'', show_nat (unat (last_reload_timestamp_ms m))),
     (''vv_last_reload_status_code'', show_int (last_reload_status_code m)),
     (''vv_reload_rollback_reason_code'', show_int (reload_rollback_reason_code m)),
     (''vv_reload_policy_lock_violation_total'', if reload_rollback_reason_code m = 5 then ''1'' else ''0''),
     (''vv_protocol_mode_code'', show_nat (unat (protocol_mode_code m))),
     (''vv_protocol_cap_legacy'', show_nat (unat (protocol_cap_legacy m))),
     (''vv_protocol_cap_compact'', show_nat (unat (protocol_cap_compact m))),
     (''vv_protocol_cap_protobuf'', show_nat (unat (protocol_cap_protobuf m))),
     (''vv_protocol_cap_cbor'', show_nat (unat (protocol_cap_cbor m))),
     (''vv_transport_pool_size'', show_nat (unat (configured_transport_pool_size m))),
     (''vv_failover_hit_total'', show_nat (unat (failover_hit_count m))),
     (''vv_transport_primary_healthy'', show_nat (unat (transport_primary_healthy m))),
     (''vv_transport_secondary_healthy'', show_nat (unat (transport_secondary_healthy m))),
     (''vv_diag_dump_state_total'', show_nat (unat (diag_dump_state_count m))),
     (''vv_diag_route_event_total'', show_nat (unat (diag_route_event_count m))),
     (''vv_diag_failover_event_total'', show_nat (unat (diag_failover_event_count m)))]"

definition ExportPrometheus :: "traversal \<Rightarrow> u64 \<Rightarrow> SystemMetricsAggregator \<Rightarrow> string" where
  "ExportPrometheus order ts a =
     emit_all ts (prom_traffic (agg_bridge a)) @ prom_buckets order ts (agg_bridge a) @
     emit_all ts (prom_state (agg_bridge a))"

section \<open>Properties\<close>

text \<open>The counters a difference covers.\<close>

definition delta_counters :: "(BridgeMetrics \<Rightarrow> u64) list" where
  "delta_counters = [
     tx_count, tx_fail_count, rx_count, encode_fail_count,
     decode_fail_count, expired_drop_count, route_miss_count, handler_error_count,
     invalid_envelope_count, transport_error_count, backpressure_drop_count, policy_hit_count,
     policy_override_count, policy_conflict_count, policy_conflict_sampled_count, policy_cache_hit_count,
     policy_cache_miss_count, trace_id_present_count, trace_id_missing_count, trace_id_sampled_count,
     sla_violation_sampled_count, reload_success_count, reload_fail_count]"

text \<open>A run of the aggregator: updates, each followed or not by an export, and the differences exported.\<close>

fun agg_run :: "(BridgeMetrics \<times> u64 option) list \<Rightarrow> SystemMetricsAggregator \<Rightarrow> MetricsDelta list \<times> SystemMetricsAggregator" where
  "agg_run [] a = ([], a)"
| "agg_run ((m, export) # ops) a =
     (let a1 = UpdateBridgeMetrics m a in
      case export of
        None \<Rightarrow> agg_run ops a1
      | Some now \<Rightarrow>
          let (d, a2) = ExportDeltaSinceLastCall now a1; (ds, a3) = agg_run ops a2 in (d # ds, a3))"

lemma delta_counter: "c \<in> set delta_counters \<Longrightarrow> c (delta_metrics cur prev) = c cur - c prev"
  unfolding delta_counters_def by (elim set_ConsD [THEN disjE]; simp add: delta_metrics_def)

text \<open>
  The exported differences lose nothing. Over any sequence of metric updates and exports, for
  each of the 23 counters a difference covers, the differences exported add up (modulo 64 bits) to what
  the counter gained between the export before the sequence and the last export of it, whatever updates
  came in between; and each difference begins at the time the previous one ended.
\<close>

theorem deltas_telescope:
  assumes "c \<in> set delta_counters" "agg_run ops a = (ds, a')"
  shows "sum_list (map (\<lambda>d. c (bridge_metrics_delta d)) ds) = c (last_export_bridge a') - c (last_export_bridge a) \<and>
    map from_timestamp_ms ds @ [last_export_timestamp_ms a'] = last_export_timestamp_ms a # map to_timestamp_ms ds"
  using assms(2)
proof (induction ops arbitrary: a ds)
  case (Cons op ops)
  obtain m export where op: "op = (m, export)" by (cases op)
  show ?case
  proof (cases export)
    case None
    with Cons op show ?thesis by (simp add: UpdateBridgeMetrics_def)
  next
    case (Some now)
    with Cons op show ?thesis
      by (auto simp: ExportDeltaSinceLastCall_def UpdateBridgeMetrics_def Let_def delta_counter [OF assms(1)]
          split: prod.splits)
  qed
qed simp

theorem deltas_telescope_witness:
  "sum_list (map (\<lambda>d. tx_count (bridge_metrics_delta d))
     (fst (agg_run [(default_BridgeMetrics\<lparr>tx_count := 3\<rparr>, Some 10), (default_BridgeMetrics\<lparr>tx_count := 4\<rparr>, None),
        (default_BridgeMetrics\<lparr>tx_count := 9\<rparr>, Some 20)] new_aggregator))) = 9"
  using deltas_telescope [of tx_count "[(default_BridgeMetrics\<lparr>tx_count := 3\<rparr>, Some 10),
      (default_BridgeMetrics\<lparr>tx_count := 4\<rparr>, None), (default_BridgeMetrics\<lparr>tx_count := 9\<rparr>, Some 20)]" new_aggregator,
      OF _ prod.collapse [symmetric]]
  by (simp add: delta_counters_def ExportDeltaSinceLastCall_def UpdateBridgeMetrics_def new_aggregator_def
      default_BridgeMetrics_def Let_def)

end
