(* ===== verification/Bridge_Config.thy ===== *)
theory Bridge_Config
  imports Bridge_Policy Protocol_Adapter Transport Thread_Pool
begin

text \<open>
  The configuration of the bridge (\<^verbatim>\<open>BridgeConfig\<close> in \<^verbatim>\<open>interconnect/interconnect_bridge.hpp\<close>), its
  normalisation (\<^verbatim>\<open>interconnect/policy_manager.cpp\<close>), the choice of the wire protocol
  (\<^verbatim>\<open>interconnect/protocol_manager.cpp\<close>) and the configuration providers
  (\<^verbatim>\<open>interconnect/config_provider.hpp\<close>, \<^verbatim>\<open>interconnect/static_config_provider.hpp\<close>).
\<close>

section \<open>Configuration\<close>

record BridgeConfig =
  vehicle_to_robot_endpoint :: TransportEndpointConfig
  robot_to_vehicle_endpoint :: TransportEndpointConfig
  additional_endpoints :: "TransportEndpointConfig list"
  thread_pool :: ThreadConfig
  sla_policy :: BridgeSlaPolicy
  policy_table :: BridgePolicyTable
  receive_priority :: u32
  trace_sample_rate_percent :: u32
  trace_sample_interval_ms :: u64
  sla_violation_sample_interval_ms :: u64
  diagnostics_report_interval_ms :: u64
  enable_diagnostics_reporting :: bool
  enable_config_canary :: bool
  config_canary_percent :: u32
  config_canary_topic_prefix :: string
  config_canary_channel :: int
  protocol_canary_topic_prefix :: string
  protocol_canary_percent :: u32
  idempotency_topics :: "string list"
  idempotency_window_size :: u32
  diagnostics_snapshot_path :: string
  diagnostics_snapshot_limit :: u32
  enable_config_risk_guard :: bool
  auto_rollback_on_high_risk :: bool
  high_risk_block_threshold :: u32
  protocol_mode :: MessageProtocolMode

definition default_PolicyTable :: BridgePolicyTable where
  "default_PolicyTable = \<lparr>default_policy = default_SlaPolicy, template_rules = [], rules = [],
     runtime_overrides = [], template_topic_rule_index = Map.empty, topic_rule_index = Map.empty,
     override_topic_rule_index = Map.empty\<rparr>"

definition default_BridgeConfig :: BridgeConfig where
  "default_BridgeConfig = \<lparr>vehicle_to_robot_endpoint = default_endpoint,
     robot_to_vehicle_endpoint = default_endpoint, additional_endpoints = [],
     thread_pool = default_ThreadConfig, sla_policy = default_SlaPolicy, policy_table = default_PolicyTable,
     receive_priority = 0, trace_sample_rate_percent = 10, trace_sample_interval_ms = 2000,
     sla_violation_sample_interval_ms = 5000, diagnostics_report_interval_ms = 1000,
     enable_diagnostics_reporting = False, enable_config_canary = False, config_canary_percent = 100,
     config_canary_topic_prefix = [], config_canary_channel = -1, protocol_canary_topic_prefix = [],
     protocol_canary_percent = 100, idempotency_topics = [], idempotency_window_size = 128,
     diagnostics_snapshot_path = ''build/diagnostics_snapshots.jsonl'', diagnostics_snapshot_limit = 100,
     enable_config_risk_guard = False, auto_rollback_on_high_risk = True, high_risk_block_threshold = 3,
     protocol_mode = kLegacyPipe\<rparr>"

section \<open>The policy manager\<close>

definition looks_default :: "BridgePolicyTable \<Rightarrow> bool" where
  "looks_default table \<longleftrightarrow> rules table = []
     \<and> max_end_to_end_latency_ms (default_policy table) = 100
     \<and> transport_receive_timeout_ms (default_policy table) = 50
     \<and> transport_send_timeout_ms (default_policy table) = 50
     \<and> backpressure_policy (default_policy table) = bp_kReject"

text \<open>The three assignments that fill in the retry budget and the drop policy.\<close>

definition fill_policy :: "BridgeSlaPolicy \<Rightarrow> BridgeSlaPolicy \<Rightarrow> BridgeSlaPolicy" where
  "fill_policy sla p0 =
     (let p1 = (if budget_max_retries (retry_budget p0) \<le> 0 then p0\<lparr>retry_budget := retry_budget sla\<rparr> else p0);
          p2 = (if drop_policy p1 = kDropNone then p1\<lparr>drop_policy := drop_policy sla\<rparr> else p1)
      in if drop_policy p2 = kDropNone \<and> backpressure_policy p2 = bp_kDropOldest
         then p2\<lparr>drop_policy := kDropOldest\<rparr> else p2)"

definition normalized_policy :: "BridgePolicyTable \<Rightarrow> BridgeSlaPolicy \<Rightarrow> BridgeSlaPolicy" where
  "normalized_policy table sla = fill_policy sla (if looks_default table then sla else default_policy table)"

text \<open>A null pointer is \<open>None\<close>.\<close>

definition NormalizePolicyDefaults :: "BridgeConfig option \<Rightarrow> BridgeConfig option" where
  "NormalizePolicyDefaults config =
     map_option (\<lambda>c. c\<lparr>policy_table := (policy_table c)\<lparr>default_policy := normalized_policy (policy_table c) (sla_policy c)\<rparr>\<rparr>)
       config"

abbreviation normalize :: "BridgeConfig \<Rightarrow> BridgeConfig" where
  "normalize c \<equiv> the (NormalizePolicyDefaults (Some c))"

record ResolveResult =
  resolved_policy :: BridgeSlaPolicy
  resolved_override_applied :: bool
  resolved_conflict_detected :: bool

definition manager_Resolve :: "BridgeConfig \<Rightarrow> MessageEnvelope \<Rightarrow> ResolveResult" where
  "manager_Resolve config envelope = \<lparr>resolved_policy = default_policy (policy_table config),
     resolved_override_applied = False, resolved_conflict_detected = False\<rparr>"

section \<open>The protocol manager\<close>

text \<open>\<^verbatim>\<open>topic.rfind(prefix, 0) == 0\<close>\<close>

definition starts_with :: "string \<Rightarrow> string \<Rightarrow> bool" where
  "starts_with s p \<longleftrightarrow> take (length p) s = p"

definition ResolveMode :: "BridgeConfig \<Rightarrow> MessageEnvelope \<Rightarrow> MessageProtocolMode" where
  "ResolveMode config envelope =
     (if lock_policy (default_policy (policy_table config)) then kCompact
      else if protocol_canary_topic_prefix config = [] then protocol_mode config
      else if \<not> starts_with (topic envelope) (protocol_canary_topic_prefix config) then kCompact
      else
        let gate = (if timestamp_ms envelope = 0 then 0 else ucast (timestamp_ms envelope mod 100)) :: u32 in
        if gate < protocol_canary_percent config then protocol_mode config else kCompact)"

definition manager_Encode ::
  "MessageProtocolMode \<Rightarrow> MessageEnvelope \<Rightarrow> string option \<Rightarrow> ErrorCode \<times> string option" where
  "manager_Encode mode envelope out = EncodeByProtocol mode envelope out"

definition manager_Decode ::
  "MessageProtocolMode \<Rightarrow> string \<Rightarrow> MessageEnvelope option \<Rightarrow> (ErrorCode \<times> MessageEnvelope option) run" where
  "manager_Decode mode s out = DecodeByProtocol mode s out"

section \<open>Configuration providers\<close>

text \<open>The interface: loading returns the code and, when it is ok, the configuration and its source.\<close>

record 'p IConfigProvider =
  LoadBridgeConfig :: "BridgeConfig option \<Rightarrow> string option \<Rightarrow> 'p \<Rightarrow> (ErrorCode \<times> BridgeConfig option \<times> string option) \<times> 'p"
  GetVersion :: "'p \<Rightarrow> u64"
  ReloadProvider :: "'p \<Rightarrow> ErrorCode \<times> 'p"

record StaticConfigProvider =
  scp_config :: BridgeConfig
  scp_source :: string
  scp_version :: u64

definition new_StaticConfigProvider :: "BridgeConfig \<Rightarrow> string \<Rightarrow> StaticConfigProvider" where
  "new_StaticConfigProvider config src = \<lparr>scp_config = config, scp_source = src, scp_version = 1\<rparr>"

definition scp_LoadBridgeConfig ::
  "BridgeConfig option \<Rightarrow> string option \<Rightarrow> StaticConfigProvider
     \<Rightarrow> (ErrorCode \<times> BridgeConfig option \<times> string option) \<times> StaticConfigProvider" where
  "scp_LoadBridgeConfig out_config out_source p =
     (if out_config = None \<or> out_source = None then ((kInvalidParam, out_config, out_source), p)
      else ((kOk, Some (scp_config p), Some (scp_source p)), p))"

definition UpdateConfigForTest :: "BridgeConfig \<Rightarrow> string \<Rightarrow> StaticConfigProvider \<Rightarrow> StaticConfigProvider" where
  "UpdateConfigForTest config src p = \<lparr>scp_config = config, scp_source = src, scp_version = scp_version p + 1\<rparr>"

definition static_provider :: "StaticConfigProvider IConfigProvider" where
  "static_provider = \<lparr>LoadBridgeConfig = scp_LoadBridgeConfig, GetVersion = scp_version, ReloadProvider = (\<lambda>p. (kOk, p))\<rparr>"

section \<open>Lemmas\<close>

lemma starts_with_iff: "starts_with s p \<longleftrightarrow> (\<exists>r. s = p @ r)"
  unfolding starts_with_def by (metis append_eq_conv_conj append_take_drop_id)

lemma fill_policy_fields:
  "retry_budget (fill_policy s p) = (if budget_max_retries (retry_budget p) \<le> 0 then retry_budget s else retry_budget p)"
  "drop_policy (fill_policy s p) =
     (let d = (if drop_policy p = kDropNone then drop_policy s else drop_policy p) in
      if d = kDropNone \<and> backpressure_policy p = bp_kDropOldest then kDropOldest else d)"
  "backpressure_policy (fill_policy s p) = backpressure_policy p"
  "max_end_to_end_latency_ms (fill_policy s p) = max_end_to_end_latency_ms p"
  "transport_receive_timeout_ms (fill_policy s p) = transport_receive_timeout_ms p"
  "transport_send_timeout_ms (fill_policy s p) = transport_send_timeout_ms p"
  by (simp_all add: fill_policy_def Let_def)

lemma fill_policy_fixed:
  assumes "0 < budget_max_retries (retry_budget p) \<or> retry_budget p = retry_budget s"
    and "drop_policy p = kDropNone \<Longrightarrow> drop_policy s = kDropNone \<and> backpressure_policy p \<noteq> bp_kDropOldest"
  shows "fill_policy s p = p"
proof -
  have "p\<lparr>retry_budget := retry_budget s\<rparr> = p" if "budget_max_retries (retry_budget p) \<le> 0"
    using that assms(1) by auto
  moreover have "p\<lparr>drop_policy := drop_policy s\<rparr> = p" if "drop_policy p = kDropNone"
    using that assms(2) by simp
  ultimately show ?thesis using assms(2) by (auto simp: fill_policy_def Let_def)
qed

lemma fill_policy_idem: "fill_policy s (fill_policy s p) = fill_policy s p"
proof (rule fill_policy_fixed)
  show "0 < budget_max_retries (retry_budget (fill_policy s p)) \<or> retry_budget (fill_policy s p) = retry_budget s"
    by (auto simp: fill_policy_fields)
  show "drop_policy s = kDropNone \<and> backpressure_policy (fill_policy s p) \<noteq> bp_kDropOldest"
    if "drop_policy (fill_policy s p) = kDropNone"
    using that by (auto simp: fill_policy_fields Let_def split: if_splits)
qed

lemma looks_default_fill: "looks_default (t\<lparr>default_policy := fill_policy s (default_policy t)\<rparr>) = looks_default t"
  by (simp add: looks_default_def fill_policy_fields)

lemma normalized_idem:
  "normalized_policy (t\<lparr>default_policy := normalized_policy t s\<rparr>) s = normalized_policy t s"
  by (cases "looks_default t") (simp_all add: normalized_policy_def fill_policy_idem looks_default_fill)

text \<open>
  Normalising the policy defaults is idempotent, touches nothing but the default policy, and leaves
  no default policy that asks for back-pressure by dropping the oldest message while its drop policy is
  none.
\<close>

theorem NormalizePolicyDefaults_idem:
  "NormalizePolicyDefaults (NormalizePolicyDefaults c) = NormalizePolicyDefaults c \<and>
   (\<forall>d. NormalizePolicyDefaults (Some d) =
      Some (d\<lparr>policy_table := (policy_table d)\<lparr>default_policy := default_policy (policy_table (normalize d))\<rparr>\<rparr>) \<and>
      \<not> (drop_policy (default_policy (policy_table (normalize d))) = kDropNone \<and>
         backpressure_policy (default_policy (policy_table (normalize d))) = bp_kDropOldest))"
proof (intro conjI allI)
  show "NormalizePolicyDefaults (NormalizePolicyDefaults c) = NormalizePolicyDefaults c"
    by (cases c) (simp_all add: NormalizePolicyDefaults_def normalized_idem)
  fix d
  show "NormalizePolicyDefaults (Some d) =
      Some (d\<lparr>policy_table := (policy_table d)\<lparr>default_policy := default_policy (policy_table (normalize d))\<rparr>\<rparr>)"
    by (simp add: NormalizePolicyDefaults_def)
  show "\<not> (drop_policy (default_policy (policy_table (normalize d))) = kDropNone \<and>
         backpressure_policy (default_policy (policy_table (normalize d))) = bp_kDropOldest)"
    by (auto simp: NormalizePolicyDefaults_def normalized_policy_def fill_policy_fields Let_def split: if_splits)
qed

text \<open>
  The wire protocol chosen for a message. A locked default policy forces the compact protocol;
  without a canary prefix the configured mode is used; with one, a message gets the configured mode
  exactly when its topic starts with the prefix and its time stamp modulo 100 is below the percentage
  (so 100 or more selects all of them and 0 none), and the compact protocol otherwise.
\<close>

theorem ResolveMode_spec:
  "ResolveMode c e =
     (if \<not> lock_policy (default_policy (policy_table c)) \<and>
         (protocol_canary_topic_prefix c = [] \<or>
          (\<exists>rest. topic e = protocol_canary_topic_prefix c @ rest) \<and>
          unat (timestamp_ms e) mod 100 < unat (protocol_canary_percent c))
      then protocol_mode c else kCompact)"
proof -
  have "unat (ucast (timestamp_ms e mod 100) :: u32) = unat (timestamp_ms e) mod 100"
  proof -
    have "unat (timestamp_ms e) mod 100 < 2 ^ 32" by (rule less_le_trans [of _ 100]) simp_all
    then show ?thesis by (simp add: unsigned_ucast_eq unat_mod_distrib take_bit_nat_eq_self)
  qed
  then show ?thesis
    by (auto simp: ResolveMode_def starts_with_iff word_less_nat_alt Let_def)
qed

end
