(* ===== verification/Bridge_Windows.thy ===== *)
theory Bridge_Windows
  imports Bridge_Config
begin

text \<open>
  The bounded stores of the bridge: the gates that space out log lines and samples, the window of recent
  keys that detects duplicates, the index of traces, the file of diagnostic snapshots
  (\<^verbatim>\<open>interconnect/diagnostics_manager.cpp\<close>) and the cached self-check of the protocols. Each comes with
  what it promises over a sequence of calls.
\<close>

section \<open>Gates\<close>

text \<open>The value returned and the new value of the atomic, without a concurrent call in between.\<close>

definition NextLogAllowedMs :: "u64 \<Rightarrow> u64 \<Rightarrow> u64 \<Rightarrow> u64 \<times> u64" where
  "NextLogAllowedMs timestamp now_ms interval_ms =
     (if now_ms < timestamp then (timestamp, timestamp) else (now_ms, now_ms + interval_ms))"

text \<open>The calls of one gate at the times given; the times let through.\<close>

fun gate_run :: "u64 \<Rightarrow> u64 \<Rightarrow> u64 list \<Rightarrow> u64 list" where
  "gate_run interval ts [] = []"
| "gate_run interval ts (now # nows) =
     (case NextLogAllowedMs ts now interval of
        (r, ts') \<Rightarrow> if r = now then now # gate_run interval ts' nows else gate_run interval ts' nows)"

lemma gate_open: "fst (NextLogAllowedMs ts now interval) = now \<longleftrightarrow> ts \<le> now"
  by (auto simp: NextLogAllowedMs_def)

lemma gate_run_above:
  assumes "\<forall>now \<in> set nows. unat now + unat interval < 2 ^ 64"
  shows "successively (\<lambda>a b. unat a + unat interval \<le> unat b) (gate_run interval ts nows) \<and>
     (\<forall>x xs. gate_run interval ts nows = x # xs \<longrightarrow> ts \<le> x)"
  using assms
proof (induction nows arbitrary: ts)
  case (Cons now nows)
  show ?case
  proof (cases "now < ts")
    case True
    with Cons show ?thesis by (auto simp: NextLogAllowedMs_def)
  next
    case False
    have sum: "unat (now + interval) = unat now + unat interval"
      using Cons.prems by (simp add: unat_word_ariths)
    have "successively (\<lambda>a b. unat a + unat interval \<le> unat b) (gate_run interval (now + interval) nows)"
      "\<forall>x xs. gate_run interval (now + interval) nows = x # xs \<longrightarrow> now + interval \<le> x"
      using Cons by auto
    moreover have "unat ts \<le> unat now" using False by (simp add: word_less_nat_alt)
    ultimately show ?thesis using False sum
      by (cases "gate_run interval (now + interval) nows") (auto simp: NextLogAllowedMs_def word_le_nat_alt)
  qed
qed simp

text \<open>
  A gate spaces what it lets through. Whatever the times of the calls, in any order (the clock may
  step back), two consecutive calls let through lie at least the interval apart, as long as the times plus
  the interval stay below \<open>2\<^sup>6\<^sup>4\<close>.
\<close>

theorem gate_spacing:
  assumes "\<forall>now \<in> set nows. unat now + unat interval < 2 ^ 64"
  shows "successively (\<lambda>a b. unat a + unat interval \<le> unat b) (gate_run interval ts nows)"
  using gate_run_above [OF assms] by blast

theorem gate_spacing_witness:
  "successively (\<lambda>a b. unat a + 1000 \<le> unat b) (gate_run 1000 0 [5, 900, 1005, 1004, 2100])"
  using gate_spacing [of "[5, 900, 1005, 1004, 2100]" 1000 0] by simp

section \<open>Duplicates\<close>

type_synonym key_buckets = "string \<rightharpoonup> string list"

definition ShouldApplyIdempotency :: "BridgeConfig \<Rightarrow> MessageEnvelope \<Rightarrow> bool" where
  "ShouldApplyIdempotency config envelope =
     (if idempotency_topics config = [] then False
      else list_ex (\<lambda>t. topic envelope = t) (idempotency_topics config))"

definition dedup_key :: "MessageEnvelope \<Rightarrow> string" where
  "dedup_key envelope =
     (if idempotency_key envelope = []
      then topic envelope @ ''|'' @ source envelope @ ''|'' @ show_nat (unat (sequence envelope))
      else idempotency_key envelope)"

definition window_limit :: "BridgeConfig \<Rightarrow> nat" where
  "window_limit config = max 1 (unat (idempotency_window_size config))"

text \<open>The loop that pops the front while the bucket is over the limit.\<close>

fun pop_over :: "nat \<Rightarrow> 'a list \<Rightarrow> 'a list" where
  "pop_over limit [] = []"
| "pop_over limit (x # xs) = (if length (x # xs) > limit then pop_over limit xs else x # xs)"

definition IsDuplicateWithinWindow ::
  "BridgeConfig \<Rightarrow> MessageEnvelope \<Rightarrow> key_buckets \<Rightarrow> bool \<times> key_buckets" where
  "IsDuplicateWithinWindow config envelope buckets =
     (let key = dedup_key envelope;
          bucket = (case buckets (topic envelope) of None \<Rightarrow> [] | Some b \<Rightarrow> b) in
      if list_ex (\<lambda>existing. existing = key) bucket then (True, buckets(topic envelope \<mapsto> bucket))
      else (False, buckets(topic envelope \<mapsto> pop_over (window_limit config) (bucket @ [key]))))"

lemma pop_over_drop: "pop_over limit xs = drop (length xs - limit) xs"
  by (induction xs) (auto simp: Suc_diff_le)

text \<open>The messages checked one after the other; the ones let through.\<close>

fun dedup_run :: "BridgeConfig \<Rightarrow> key_buckets \<Rightarrow> MessageEnvelope list \<Rightarrow> MessageEnvelope list \<times> key_buckets" where
  "dedup_run config buckets [] = ([], buckets)"
| "dedup_run config buckets (e # es) =
     (case IsDuplicateWithinWindow config e buckets of
        (dup, buckets') \<Rightarrow>
          (case dedup_run config buckets' es of
             (passed, buckets'') \<Rightarrow> (if dup then passed else e # passed, buckets'')))"

text \<open>The last \<open>n\<close> elements, and the keys that went through for a topic.\<close>

definition last_n :: "nat \<Rightarrow> 'a list \<Rightarrow> 'a list" where
  "last_n n xs = drop (length xs - n) xs"

definition topic_keys :: "string \<Rightarrow> MessageEnvelope list \<Rightarrow> string list" where
  "topic_keys t es = map dedup_key (filter (\<lambda>e. topic e = t) es)"

definition bucket_of :: "key_buckets \<Rightarrow> string \<Rightarrow> string list" where
  "bucket_of b t = (case b t of None \<Rightarrow> [] | Some ks \<Rightarrow> ks)"

lemma last_n_snoc: "0 < n \<Longrightarrow> last_n n (last_n n xs @ [x]) = last_n n (xs @ [x])"
  by (cases "length xs \<le> n") (auto simp: last_n_def Suc_diff_le)

lemma IsDuplicate_bucket:
  "IsDuplicateWithinWindow config e b = (dup, b') \<Longrightarrow>
     dup = (dedup_key e \<in> set (bucket_of b (topic e))) \<and>
     bucket_of b' t = (if dup \<or> topic e \<noteq> t then bucket_of b t
                       else last_n (window_limit config) (bucket_of b t @ [dedup_key e]))"
  by (auto simp: IsDuplicateWithinWindow_def bucket_of_def Let_def list_ex_iff pop_over_drop last_n_def split: if_splits)

lemma dedup_run_buckets:
  assumes "dedup_run config b es = (passed, b')" "bucket_of b t = last_n (window_limit config) (topic_keys t before)"
  shows "bucket_of b' t = last_n (window_limit config) (topic_keys t (before @ passed))"
  using assms
proof (induction es arbitrary: b before passed)
  case (Cons e es)
  obtain dup b1 where d: "IsDuplicateWithinWindow config e b = (dup, b1)" by fastforce
  obtain p2 where r: "dedup_run config b1 es = (p2, b')" "passed = (if dup then p2 else e # p2)"
    using Cons.prems(1) d by (auto split: prod.splits)
  have pos: "0 < window_limit config" by (simp add: window_limit_def)
  let ?before = "if dup then before else before @ [e]"
  have "bucket_of b1 t = last_n (window_limit config) (topic_keys t ?before)"
    using IsDuplicate_bucket [OF d, of t] Cons.prems(2) last_n_snoc [OF pos] by (auto simp: topic_keys_def)
  from Cons.IH [OF r(1) this] show ?case using r(2) by auto
qed simp

text \<open>
  C25: the duplicate window. After any messages on any topics, a message is reported as a duplicate
  exactly when its key is among the keys of the last messages let through on its topic, as many as the
  configured window (at least one): no key inside the window is missed, none outside it is remembered,
  and topics do not disturb each other.
\<close>

theorem duplicate_iff_in_window:
  "case dedup_run config Map.empty es of (passed, buckets) \<Rightarrow>
     fst (IsDuplicateWithinWindow config e buckets) \<longleftrightarrow>
       dedup_key e \<in> set (last_n (max 1 (unat (idempotency_window_size config))) (topic_keys (topic e) passed))"
proof -
  obtain passed b where r: "dedup_run config Map.empty es = (passed, b)" by fastforce
  obtain dup b' where d: "IsDuplicateWithinWindow config e b = (dup, b')" by fastforce
  have "bucket_of b (topic e) = last_n (window_limit config) (topic_keys (topic e) ([] @ passed))"
    by (rule dedup_run_buckets [OF r]) (simp add: bucket_of_def topic_keys_def last_n_def)
  then show ?thesis using r d IsDuplicate_bucket [OF d] by (simp add: window_limit_def)
qed

lemma split_last_unique:
  assumes "s @ c # d = s' @ c # d'" "c \<notin> set d" "c \<notin> set d'"
  shows "s = s' \<and> d = d'"
proof -
  have "rev d @ c # rev s = rev d' @ c # rev s'" using arg_cong [OF assms(1), of rev] by simp
  moreover have "takeWhile (\<lambda>x. x \<noteq> c) (rev d @ c # rev s) = rev d" "takeWhile (\<lambda>x. x \<noteq> c) (rev d' @ c # rev s') = rev d'"
    using takeWhile_append2 [of "rev d" "\<lambda>x. x \<noteq> c" "c # rev s"] takeWhile_append2 [of "rev d'" "\<lambda>x. x \<noteq> c" "c # rev s'"]
      assms(2,3) by auto
  ultimately have "rev d = rev d'" by simp
  then show ?thesis using assms(1) by simp
qed

lemma bar_not_in_show_nat: "CHR ''|'' \<notin> set (show_nat n)"
  using show_nat_digits digit_not_special by blast

text \<open>
  The key built for a message without an explicit one identifies it on its topic: two such messages
  of the same topic have the same key exactly when source and sequence number agree, also when the source
  contains the separator.
\<close>

theorem implicit_key_identifies:
  assumes "topic e = topic e'" "idempotency_key e = []" "idempotency_key e' = []"
  shows "dedup_key e = dedup_key e' \<longleftrightarrow> source e = source e' \<and> sequence e = sequence e'"
proof
  assume "dedup_key e = dedup_key e'"
  then have "source e @ CHR ''|'' # show_nat (unat (sequence e)) = source e' @ CHR ''|'' # show_nat (unat (sequence e'))"
    using assms by (simp add: dedup_key_def)
  from split_last_unique [OF this bar_not_in_show_nat bar_not_in_show_nat]
  show "source e = source e' \<and> sequence e = sequence e'" by (simp add: word_unat_eq_iff)
qed (use assms in \<open>simp add: dedup_key_def\<close>)

theorem implicit_key_identifies_witness:
  "dedup_key (default_envelope\<lparr>topic := ''t'', source := ''a|1'', sequence := 2\<rparr>) \<noteq>
   dedup_key (default_envelope\<lparr>topic := ''t'', source := ''a'', sequence := 12\<rparr>)"
  using implicit_key_identifies [of "default_envelope\<lparr>topic := ''t'', source := ''a|1'', sequence := 2\<rparr>"
      "default_envelope\<lparr>topic := ''t'', source := ''a'', sequence := 12\<rparr>"]
  by (simp add: default_envelope_def)

section \<open>The trace index\<close>

record trace_index =
  last_seen_ms :: "string \<rightharpoonup> u64"
  insert_order :: "string list"

definition kTraceIndexMaxEntries :: nat where
  "kTraceIndexMaxEntries = 1024"

fun evict_loop :: "(string \<rightharpoonup> u64) \<Rightarrow> string list \<Rightarrow> trace_index" where
  "evict_loop seen [] = \<lparr>last_seen_ms = seen, insert_order = []\<rparr>"
| "evict_loop seen (x # xs) =
     (if length (x # xs) > kTraceIndexMaxEntries then evict_loop (seen(x := None)) xs
      else \<lparr>last_seen_ms = seen, insert_order = x # xs\<rparr>)"

text \<open>The critical section of the inbound path; the result tells a hit from a miss.\<close>

definition note_trace :: "string \<Rightarrow> u64 \<Rightarrow> trace_index \<Rightarrow> bool \<times> trace_index" where
  "note_trace tid now_ms ix =
     (let is_new_trace = (last_seen_ms ix tid = None);
          seen = (last_seen_ms ix)(tid \<mapsto> now_ms);
          order = (if is_new_trace then insert_order ix @ [tid] else insert_order ix)
      in (\<not> is_new_trace, evict_loop seen order))"

definition trace_wf :: "trace_index \<Rightarrow> bool" where
  "trace_wf ix \<longleftrightarrow> distinct (insert_order ix) \<and> dom (last_seen_ms ix) = set (insert_order ix)
     \<and> length (insert_order ix) \<le> kTraceIndexMaxEntries"

lemma evict_loop_wf: "distinct xs \<Longrightarrow> dom seen = set xs \<Longrightarrow> trace_wf (evict_loop seen xs)"
proof (induction xs arbitrary: seen)
  case (Cons x xs)
  have "dom (seen(x := None)) = set xs" using Cons.prems by auto
  with Cons show ?case by (auto simp: trace_wf_def)
qed (simp add: trace_wf_def)

lemma evict_loop_order: "insert_order (evict_loop seen xs) = drop (length xs - kTraceIndexMaxEntries) xs"
  by (induction xs arbitrary: seen) (auto simp: Suc_diff_le)

lemma evict_loop_keeps: "t \<in> set (insert_order (evict_loop seen xs)) \<Longrightarrow> distinct xs \<Longrightarrow> last_seen_ms (evict_loop seen xs) t = seen t"
proof (induction xs arbitrary: seen)
  case (Cons x xs)
  have "set (insert_order (evict_loop (seen(x := None)) xs)) \<subseteq> set xs"
    by (simp add: evict_loop_order set_drop_subset)
  moreover have "t \<noteq> x" if "t \<in> set (insert_order (evict_loop (seen(x := None)) xs))"
    using that calculation Cons.prems(2) by auto
  ultimately show ?case using Cons.prems Cons.IH [of "seen(x := None)"]
    by (cases "kTraceIndexMaxEntries < length (x # xs)") (simp_all add: fun_upd_other del: fun_upd_apply)
qed simp

lemma note_trace_wf [wf_intros]:
  assumes "trace_wf ix"
  shows "trace_wf (snd (note_trace tid now ix))"
proof -
  note d = domIff [of tid "last_seen_ms ix"]
  show ?thesis using assms d unfolding note_trace_def Let_def snd_conv
    by (intro evict_loop_wf) (auto simp: trace_wf_def simp del: fun_upd_apply)
qed

lemma note_trace_seen:
  assumes "trace_wf ix"
  shows "last_seen_ms (snd (note_trace tid now ix)) tid = Some now"
proof (cases "last_seen_ms ix tid")
  case None
  let ?xs = "insert_order ix @ [tid]"
  have "tid \<notin> set (insert_order ix)" using None assms by (auto simp: trace_wf_def)
  then have "distinct ?xs" using assms by (simp add: trace_wf_def)
  moreover have "tid \<in> set (drop (length ?xs - kTraceIndexMaxEntries) ?xs)"
    by (simp add: kTraceIndexMaxEntries_def)
  ultimately show ?thesis using None by (simp add: note_trace_def evict_loop_keeps evict_loop_order)
next
  case (Some x)
  then have "tid \<in> set (insert_order ix)" using assms by (auto simp: trace_wf_def)
  moreover have "drop (length (insert_order ix) - kTraceIndexMaxEntries) (insert_order ix) = insert_order ix"
    using assms by (simp add: trace_wf_def)
  ultimately show ?thesis using Some assms
    by (simp add: note_trace_def evict_loop_keeps evict_loop_order trace_wf_def)
qed

fun trace_run :: "(string \<times> u64) list \<Rightarrow> trace_index \<Rightarrow> trace_index" where
  "trace_run [] ix = ix"
| "trace_run ((t, now) # ts) ix = trace_run ts (snd (note_trace t now ix))"

definition empty_trace_index :: trace_index where
  "empty_trace_index = \<lparr>last_seen_ms = Map.empty, insert_order = []\<rparr>"

lemma trace_run_wf: "trace_wf ix \<Longrightarrow> trace_wf (trace_run ts ix)"
  by (induction ts ix rule: trace_run.induct) (auto intro: wf_intros)

lemma trace_run_snoc: "trace_run (ts @ [(t, now)]) ix = snd (note_trace t now (trace_run ts ix))"
  by (induction ts ix rule: trace_run.induct) auto

text \<open>
  The trace index stays bounded and coherent. After any sequence of traced messages its map and its
  insertion order hold the same trace ids, each once, at most 1024 of them, so that no entry of the map
  can outlive its eviction; and the last message's trace is in the map with its time of arrival.
\<close>

theorem trace_index_bounded:
  "distinct (insert_order (trace_run ts empty_trace_index)) \<and>
   dom (last_seen_ms (trace_run ts empty_trace_index)) = set (insert_order (trace_run ts empty_trace_index)) \<and>
   length (insert_order (trace_run ts empty_trace_index)) \<le> 1024 \<and>
   last_seen_ms (trace_run (ts @ [(t, now)]) empty_trace_index) t = Some now"
proof -
  have "trace_wf empty_trace_index" by (simp add: trace_wf_def empty_trace_index_def)
  then have "trace_wf (trace_run ts empty_trace_index)" by (rule trace_run_wf)
  then show ?thesis using note_trace_seen by (simp add: trace_wf_def [of "trace_run _ _"] kTraceIndexMaxEntries_def trace_run_snoc)
qed

section \<open>Diagnostic snapshots\<close>

text \<open>
  Files are texts by path. \<open>can_write\<close> tells which paths open for writing; \<open>traverse\<close> is the order in
  which the map of fields is traversed.
\<close>

type_synonym files = "string \<rightharpoonup> string"

definition newline :: char where
  "newline = CHR 0x0A"

text \<open>\<^verbatim>\<open>std::getline\<close> until the end: a last line without a newline counts, an empty rest does not.\<close>

fun getlines :: "string \<Rightarrow> string \<Rightarrow> string list" where
  "getlines acc [] = (if acc = [] then [] else [acc])"
| "getlines acc (c # cs) = (if c = newline then acc # getlines [] cs else getlines (acc @ [c]) cs)"

definition snapshot_entry :: "u64 \<Rightarrow> string \<Rightarrow> (string \<times> string) list \<Rightarrow> string" where
  "snapshot_entry now_ms event parts =
     ''{'' @ [CHR 0x22] @ ''ts'' @ [CHR 0x22] @ '':'' @ show_nat (unat now_ms) @
     '','' @ [CHR 0x22] @ ''event'' @ [CHR 0x22, CHR '':'', CHR 0x22] @ event @ [CHR 0x22] @
     concat (map (\<lambda>(k, v). '','' @ [CHR 0x22] @ k @ [CHR 0x22, CHR '':'', CHR 0x22] @ v @ [CHR 0x22]) parts) @ ''}''"

definition RecordSnapshotWithFields ::
  "(string \<Rightarrow> bool) \<Rightarrow> u64 \<Rightarrow> string \<Rightarrow> u32 \<Rightarrow> string \<Rightarrow> (string \<times> string) list \<Rightarrow> files \<Rightarrow> files" where
  "RecordSnapshotWithFields can_write now_ms path limit event parts fs =
     (if path = [] then fs
      else
        let lines = filter (\<lambda>l. l \<noteq> []) (case fs path of None \<Rightarrow> [] | Some content \<Rightarrow> getlines [] content);
            kept = pop_over (max 1 (unat limit)) (lines @ [snapshot_entry now_ms event parts])
        in if \<not> can_write path then fs
           else fs(path \<mapsto> concat (map (\<lambda>l. l @ [newline]) kept)))"

definition RecordSnapshot ::
  "(string \<Rightarrow> bool) \<Rightarrow> ((string \<times> string) list \<Rightarrow> (string \<times> string) list) \<Rightarrow> u64 \<Rightarrow> string \<Rightarrow> u32 \<Rightarrow> string
     \<Rightarrow> MessageEnvelope option \<Rightarrow> files \<Rightarrow> files" where
  "RecordSnapshot can_write traverse now_ms path limit event envelope fs =
     RecordSnapshotWithFields can_write now_ms path limit event
       (case envelope of
          None \<Rightarrow> []
        | Some e \<Rightarrow> traverse [(''topic'', topic e), (''source'', source e), (''trace_id'', trace_id e),
                              (''sequence'', show_nat (unat (sequence e)))]) fs"

definition file_lines :: "files \<Rightarrow> string \<Rightarrow> string list" where
  "file_lines fs path = filter (\<lambda>l. l \<noteq> []) (case fs path of None \<Rightarrow> [] | Some content \<Rightarrow> getlines [] content)"

lemma getlines_line: "newline \<notin> set l \<Longrightarrow> getlines acc (l @ newline # rest) = (acc @ l) # getlines [] rest"
  by (induction l arbitrary: acc) auto

lemma getlines_concat:
  "\<forall>l \<in> set ls. newline \<notin> set l \<Longrightarrow> getlines [] (concat (map (\<lambda>l. l @ [newline]) ls)) = ls"
  by (induction ls) (auto simp: getlines_line)

lemma getlines_no_newline: "newline \<notin> set acc \<Longrightarrow> l \<in> set (getlines acc s) \<Longrightarrow> newline \<notin> set l"
  by (induction acc s rule: getlines.induct) (auto split: if_splits)

lemma file_lines_no_newline: "l \<in> set (file_lines fs path) \<Longrightarrow> newline \<notin> set l"
  by (auto simp: file_lines_def dest: getlines_no_newline [rotated] split: option.splits)

text \<open>
  The snapshot file is a rolling log. Recording an event whose text has no line break in a file
  that can be written leaves there, read back line by line, the last lines of what it held followed by
  the new entry, as many as the limit allows (at least the new one); a path that is empty or cannot be
  opened changes nothing, and no other file is touched.
\<close>

theorem snapshot_rolls:
  fixes fs :: files and limit :: u32 and path :: string and can_write :: "string \<Rightarrow> bool"
  assumes "newline \<notin> set (snapshot_entry now event parts)"
  defines "fs' \<equiv> RecordSnapshotWithFields can_write now path limit event parts fs"
  shows "(path \<noteq> [] \<and> can_write path \<longrightarrow>
      file_lines fs' path = last_n (max 1 (unat limit)) (file_lines fs path @ [snapshot_entry now event parts])) \<and>
    (path = [] \<or> \<not> can_write path \<longrightarrow> fs' = fs) \<and> (\<forall>other. other \<noteq> path \<longrightarrow> fs' other = fs other)"
proof (intro conjI impI)
  assume h: "path \<noteq> [] \<and> can_write path"
  let ?all = "file_lines fs path @ [snapshot_entry now event parts]"
  let ?kept = "last_n (max 1 (unat limit)) ?all"
  have content: "fs' path = Some (concat (map (\<lambda>l. l @ [newline]) ?kept))"
    using h by (simp add: fs'_def RecordSnapshotWithFields_def file_lines_def Let_def pop_over_drop last_n_def)
  have sub: "set ?kept \<subseteq> set ?all" by (simp only: last_n_def set_drop_subset)
  have "snapshot_entry now event parts \<noteq> []" by (simp add: snapshot_entry_def)
  then have ne: "\<forall>l \<in> set ?all. l \<noteq> []" by (auto simp: file_lines_def)
  have nl: "\<forall>l \<in> set ?all. newline \<notin> set l" using assms(1) file_lines_no_newline by auto
  have "getlines [] (concat (map (\<lambda>l. l @ [newline]) ?kept)) = ?kept"
    by (rule getlines_concat) (use nl sub in blast)
  moreover have "filter (\<lambda>l. l \<noteq> []) ?kept = ?kept" by (rule filter_True) (use ne sub in blast)
  ultimately show "file_lines fs' path = ?kept" using content by (simp only: file_lines_def [of fs'] option.case)
qed (auto simp: fs'_def RecordSnapshotWithFields_def Let_def)

theorem snapshot_rolls_witness:
  "file_lines (RecordSnapshotWithFields (\<lambda>_. True) 7 ''log'' 2 ''e'' [] Map.empty) ''log'' = [snapshot_entry 7 ''e'' []]"
  using snapshot_rolls [where now = 7 and event = "''e''" and parts = "[]" and can_write = "\<lambda>_. True"
      and path = "''log''" and limit = 2 and fs = Map.empty]
  by (simp add: snapshot_entry_def newline_def file_lines_def last_n_def show_nat.simps digit_char_def)

section \<open>The cached self-check\<close>

record ProtocolCapabilitySnapshot =
  cap_legacy :: u64
  cap_compact :: u64
  cap_protobuf :: u64
  cap_cbor :: u64
  last_check_ms :: u64

definition initial_capability :: ProtocolCapabilitySnapshot where
  "initial_capability = \<lparr>cap_legacy = 1, cap_compact = 1, cap_protobuf = 0, cap_cbor = 0, last_check_ms = 0\<rparr>"

fun cap_flag :: "bool run \<Rightarrow> u64" where
  "cap_flag (Completed True) = 1"
| "cap_flag (Completed False) = 0"
| "cap_flag Terminated = 0"

text \<open>The static object; a self-check that ends the process would end the call (it never does, see below).\<close>

definition GetProtocolCapabilitySnapshot :: "u64 \<Rightarrow> ProtocolCapabilitySnapshot \<Rightarrow> ProtocolCapabilitySnapshot" where
  "GetProtocolCapabilitySnapshot now_ms cached =
     (if last_check_ms cached \<noteq> 0 \<and> now_ms - last_check_ms cached < 1000 then cached
      else \<lparr>cap_legacy = cap_flag (SelfCheckProtocolCapability kLegacyPipe),
            cap_compact = cap_flag (SelfCheckProtocolCapability kCompact),
            cap_protobuf = cap_flag (SelfCheckProtocolCapability kProtobufReserved),
            cap_cbor = cap_flag (SelfCheckProtocolCapability kCborReserved), last_check_ms = now_ms\<rparr>)"

lemma capability_after_check:
  "GetProtocolCapabilitySnapshot now initial_capability =
     \<lparr>cap_legacy = 1, cap_compact = 1, cap_protobuf = 1, cap_cbor = 1, last_check_ms = now\<rparr>"
  by (simp add: GetProtocolCapabilitySnapshot_def initial_capability_def selfcheck_passes)

end
