(* ===== verification/Bridge_State.thy ===== *)
theory Bridge_State
  imports Policy_Cache Policy_Lint Bridge_Windows Message_Router Transport_Orchestrator Metrics_Aggregator Retry_Policy
begin

text \<open>
  The state of \<^verbatim>\<open>InterconnectBridge\<close> (\<^verbatim>\<open>interconnect/interconnect_bridge.hpp\<close>) and the operations the
  paths of the bridge share: the clock, refreshing the aggregated metrics, rebuilding the policy index,
  resolving the policy of a message through the cache, priorities, flow slots, tuning, and the diagnostic
  commands.

  A method is a function on the state. Each call of \<^verbatim>\<open>NowUnixMs\<close> reads the next value of a clock that is a
  parameter and may do anything. The two transports may be of any implementation; the application that
  the handlers and the reporter act on has a state of its own. Log lines are not part of the state.
\<close>

section \<open>State\<close>

datatype tref = V2R | R2V

datatype inbound_loop = VehicleLoop | RobotLoop

record log_gates =
  last_metrics_refresh_ms :: u64
  last_receive_error_log_ms :: u64
  last_decode_fail_log_ms :: u64
  last_invalid_envelope_log_ms :: u64
  last_expired_log_ms :: u64
  last_trace_id_sample_ms :: u64
  last_sla_violation_log_ms :: u64
  last_route_miss_log_ms :: u64
  last_handler_error_log_ms :: u64
  last_policy_conflict_log_ms :: u64

record flow_state =
  flow_limit_vehicle :: u32
  flow_limit_robot :: u32
  high_priority_threshold_vehicle :: u32
  high_priority_threshold_robot :: u32
  failover_from_vehicle_to_robot_enabled :: bool
  failover_from_robot_to_vehicle_enabled :: bool
  inflight_vehicle :: u32
  inflight_robot :: u32

record config_history =
  cfg_version :: u64
  cfg_source :: string
  last_known_good_config :: BridgeConfig
  last_known_good_version :: u64
  last_known_good_source :: string
  last_known_good_signature :: u64
  last_loaded_signature :: u64
  last_reload_audit_summary :: string

record sampling =
  trace_sample_counter :: u32
  trace_rate_percent :: u32
  trace_interval_ms :: u64
  sla_violation_interval_ms :: u64
  report_interval_ms :: u64
  last_diagnostics_report_ms :: u64
  reporting_enabled :: bool

text \<open>
  The members that count and that \<^verbatim>\<open>BridgeMetrics\<close> exports under the same names are kept together in
  \<open>counters\<close>; the fields of that record that the bridge computes at each refresh are not used there.
\<close>

record ('t, 'w) bridge =
  bridge_running :: bool
  worker_pool :: "inbound_loop ThreadPool"
  vehicle_to_robot_transport :: "'t option"
  robot_to_vehicle_transport :: "'t option"
  transport_orchestrator :: TransportOrchestrator
  config :: BridgeConfig
  vehicle_router :: "'w MessageRouter"
  robot_router :: "'w MessageRouter"
  app :: 'w
  samples :: sampling
  counters :: BridgeMetrics
  gates :: log_gates
  policy_cache_state :: policy_cache
  idempotency_recent_keys :: key_buckets
  trace_ix :: trace_index
  history :: config_history
  diagnostics_reporter :: "(string \<Rightarrow> 'w \<Rightarrow> 'w) option"
  authenticator :: "(MessageEnvelope \<Rightarrow> bool) option"
  lint_report :: "string option"
  flow :: flow_state
  receive_mode :: MessageProtocolMode
  idempotency_drop_count :: u64
  diagnostic_snapshot_write_count :: u64
  metrics_aggregator :: SystemMetricsAggregator
  capability :: ProtocolCapabilitySnapshot
  disk :: files
  ticks :: nat

text \<open>What the bridge is given: transports, clock, string hash, the template body, and the file system.\<close>

record 't bridge_env =
  v2r_ops :: "'t ITransport"
  r2v_ops :: "'t ITransport"
  clock :: "nat \<Rightarrow> u64"
  string_hash :: "string \<Rightarrow> u64"
  body_choice :: template_body
  can_write_file :: "string \<Rightarrow> bool"
  field_order :: "(string \<times> string) list \<Rightarrow> (string \<times> string) list"

definition kMetricsRefreshIntervalMs :: u64 where "kMetricsRefreshIntervalMs = 100"
definition kLogThrottleIntervalMs :: u64 where "kLogThrottleIntervalMs = 1000"
definition kPolicyConflictSampleIntervalMs :: u64 where "kPolicyConflictSampleIntervalMs = 5000"
definition kSlaViolationSampleIntervalMsDefault :: u64 where "kSlaViolationSampleIntervalMsDefault = 5000"
definition kTraceIdSampleIntervalMsDefault :: u64 where "kTraceIdSampleIntervalMsDefault = 2000"

abbreviation table_of :: "('t, 'w) bridge \<Rightarrow> BridgePolicyTable" where
  "table_of b \<equiv> policy_table (config b)"

abbreviation count_up :: "(BridgeMetrics \<Rightarrow> BridgeMetrics) \<Rightarrow> ('t, 'w) bridge \<Rightarrow> ('t, 'w) bridge" where
  "count_up f b \<equiv> b\<lparr>counters := f (counters b)\<rparr>"

section \<open>Clock and transports\<close>

definition NowUnixMs :: "'t bridge_env \<Rightarrow> ('t, 'w) bridge \<Rightarrow> u64 \<times> ('t, 'w) bridge" where
  "NowUnixMs env b = (clock env (ticks b), b\<lparr>ticks := Suc (ticks b)\<rparr>)"

fun transport_ops :: "'t bridge_env \<Rightarrow> tref \<Rightarrow> 't ITransport" where
  "transport_ops env V2R = v2r_ops env"
| "transport_ops env R2V = r2v_ops env"

fun transport_at :: "('t, 'w) bridge \<Rightarrow> tref \<Rightarrow> 't option" where
  "transport_at b V2R = vehicle_to_robot_transport b"
| "transport_at b R2V = robot_to_vehicle_transport b"

fun set_transport :: "tref \<Rightarrow> 't \<Rightarrow> ('t, 'w) bridge \<Rightarrow> ('t, 'w) bridge" where
  "set_transport V2R s b = b\<lparr>vehicle_to_robot_transport := Some s\<rparr>"
| "set_transport R2V s b = b\<lparr>robot_to_vehicle_transport := Some s\<rparr>"

text \<open>\<^verbatim>\<open>transport_.get()\<close>: the pointer is null when there is no object.\<close>

definition transport_ptr :: "('t, 'w) bridge \<Rightarrow> tref \<Rightarrow> tref option" where
  "transport_ptr b r = (if transport_at b r = None then None else Some r)"

text \<open>A call through a pointer that is not null.\<close>

definition on_transport ::
  "tref \<Rightarrow> ('t \<Rightarrow> 'r \<times> 't) \<Rightarrow> ('t, 'w) bridge \<Rightarrow> 'r \<times> ('t, 'w) bridge" where
  "on_transport r f b = (case f (the (transport_at b r)) of (res, s) \<Rightarrow> (res, set_transport r s b))"

section \<open>Aggregated metrics\<close>

definition ShouldRefreshMetrics :: "u64 \<Rightarrow> ('t, 'w) bridge \<Rightarrow> bool" where
  "ShouldRefreshMetrics now_ms b =
     (let last_ms = last_metrics_refresh_ms (gates b) in
      if now_ms < last_ms then True else now_ms - last_ms \<ge> kMetricsRefreshIntervalMs)"

definition collect_metrics :: "ProtocolCapabilitySnapshot \<Rightarrow> ('t, 'w) bridge \<Rightarrow> BridgeMetrics" where
  "collect_metrics cap b =
     (let c = counters b; lint_counts = GetPolicyLintCounts (table_of b) in
      \<lparr>tx_count = tx_count c,
        tx_fail_count = tx_fail_count c,
        rx_count = rx_count c,
        encode_fail_count = encode_fail_count c,
        decode_fail_count = decode_fail_count c,
        expired_drop_count = expired_drop_count c,
        route_miss_count = route_miss_count c,
        handler_error_count = handler_error_count c,
        invalid_envelope_count = invalid_envelope_count c,
        transport_error_count = transport_error_count c,
        backpressure_drop_count = backpressure_drop_count c,
        policy_hit_count = policy_hit_count c,
        policy_override_count = policy_override_count c,
        policy_conflict_count = policy_conflict_count c,
        policy_conflict_sampled_count = policy_conflict_sampled_count c,
        policy_cache_hit_count = policy_cache_hit_count c,
        policy_cache_miss_count = policy_cache_miss_count c,
        policy_lint_issue_count = fst lint_counts,
        policy_lint_warning_count = snd lint_counts,
        trace_id_present_count = trace_id_present_count c,
        trace_id_missing_count = trace_id_missing_count c,
        trace_id_sampled_count = trace_id_sampled_count c,
        trace_index_hit_count = trace_index_hit_count c,
        trace_index_miss_count = trace_index_miss_count c,
        trace_linked_event_count = trace_linked_event_count c,
        sla_violation_sampled_count = sla_violation_sampled_count c,
        reload_success_count = reload_success_count c,
        reload_fail_count = reload_fail_count c,
        reload_rollback_count = reload_rollback_count c,
        last_reload_timestamp_ms = last_reload_timestamp_ms c,
        last_reload_status_code = last_reload_status_code c,
        reload_rollback_reason_code = reload_rollback_reason_code c,
        loaded_config_version = cfg_version (history b),
        protocol_mode_code = ucast (protocol_mode_value (receive_mode b)),
        protocol_cap_legacy = cap_legacy cap,
        protocol_cap_compact = cap_compact cap,
        protocol_cap_protobuf = cap_protobuf cap,
        protocol_cap_cbor = cap_cbor cap,
        configured_transport_pool_size = of_nat (2 + length (additional_endpoints (config b))),
        failover_hit_count = failover_hit_count c,
        transport_primary_healthy = transport_primary_healthy c,
        transport_secondary_healthy = transport_secondary_healthy c,
        diag_dump_state_count = diag_dump_state_count c,
        diag_route_event_count = diag_route_event_count c,
        diag_failover_event_count = diag_failover_event_count c,
        topic_tx_count = topic_tx_count c,
        topic_rx_count = topic_rx_count c,
        topic_expired_drop_count = topic_expired_drop_count c,
        channel_tx_count = channel_tx_count c,
        channel_rx_count = channel_rx_count c,
        channel_expired_drop_count = channel_expired_drop_count c,
        qos_tx_count = qos_tx_count c,
        qos_rx_count = qos_rx_count c,
        qos_expired_drop_count = qos_expired_drop_count c\<rparr>)"

definition RefreshAggregatedMetrics :: "'t bridge_env \<Rightarrow> bool \<Rightarrow> ('t, 'w) bridge \<Rightarrow> ('t, 'w) bridge" where
  "RefreshAggregatedMetrics env force b0 =
     (case NowUnixMs env b0 of (now_ms, b) \<Rightarrow>
        if \<not> force \<and> \<not> ShouldRefreshMetrics now_ms b then b
        else
          let cap = GetProtocolCapabilitySnapshot now_ms (capability b);
              agg = UpdateThreadPoolMetrics (GetMetrics (worker_pool b))
                      (UpdateBridgeMetrics (collect_metrics cap b) (metrics_aggregator b))
          in b\<lparr>gates := (gates b)\<lparr>last_metrics_refresh_ms := now_ms\<rparr>, capability := cap, metrics_aggregator := agg\<rparr>)"

section \<open>Policies\<close>

definition RebuildPolicyIndex :: "('t, 'w) bridge \<Rightarrow> ('t, 'w) bridge" where
  "RebuildPolicyIndex b =
     b\<lparr>config := (config b)\<lparr>policy_table := rebuild_index (table_of b)\<rparr>,
       policy_cache_state := (policy_cache_state b)\<lparr>cache_items := [], cache_index := Map.empty\<rparr>,
       lint_report := None\<rparr>"

definition PopulateTemplates :: "'t bridge_env \<Rightarrow> ('t, 'w) bridge \<Rightarrow> ('t, 'w) bridge" where
  "PopulateTemplates env b =
     b\<lparr>config := (config b)\<lparr>policy_table := PopulateDefaultTemplateRules (body_choice env) (table_of b)\<rparr>\<rparr>"

text \<open>A conflict is counted, and sampled when its gate is open.\<close>

definition note_conflict :: "'t bridge_env \<Rightarrow> ('t, 'w) bridge \<Rightarrow> ('t, 'w) bridge" where
  "note_conflict env b0 =
     (let b1 = count_up (\<lambda>c. c\<lparr>policy_conflict_count := policy_conflict_count c + 1\<rparr>) b0 in
      case NowUnixMs env b1 of (now_ms, b2) \<Rightarrow>
        (case NextLogAllowedMs (last_policy_conflict_log_ms (gates b2)) now_ms kPolicyConflictSampleIntervalMs of
           (r, ts) \<Rightarrow>
             let b3 = b2\<lparr>gates := (gates b2)\<lparr>last_policy_conflict_log_ms := ts\<rparr>\<rparr> in
             if r = now_ms
             then count_up (\<lambda>c. c\<lparr>policy_conflict_sampled_count := policy_conflict_sampled_count c + 1\<rparr>) b3 else b3))"

definition note_resolution :: "'t bridge_env \<Rightarrow> bool \<Rightarrow> bool \<Rightarrow> ('t, 'w) bridge \<Rightarrow> ('t, 'w) bridge" where
  "note_resolution env override_applied conflict_detected b0 =
     (let b1 = (if override_applied
                then count_up (\<lambda>c. c\<lparr>policy_override_count := policy_override_count c + 1\<rparr>) b0 else b0);
          b2 = (if conflict_detected then note_conflict env b1 else b1)
      in count_up (\<lambda>c. c\<lparr>policy_hit_count := policy_hit_count c + 1\<rparr>) b2)"

definition ResolvePolicy ::
  "'t bridge_env \<Rightarrow> MessageEnvelope \<Rightarrow> ('t, 'w) bridge \<Rightarrow> BridgeSlaPolicy \<times> ('t, 'w) bridge" where
  "ResolvePolicy env envelope b =
     (case LookupPolicyCache (policy_cache_state b) (cache_key envelope) of
        (Some entry, cache) \<Rightarrow>
          let b1 = count_up (\<lambda>c. c\<lparr>policy_cache_hit_count := policy_cache_hit_count c + 1\<rparr>)
                     (b\<lparr>policy_cache_state := cache\<rparr>)
          in (entry_policy entry,
              note_resolution env (entry_override_applied entry) (entry_conflict_detected entry) b1)
      | (None, cache) \<Rightarrow>
          let b1 = count_up (\<lambda>c. c\<lparr>policy_cache_miss_count := policy_cache_miss_count c + 1\<rparr>)
                     (b\<lparr>policy_cache_state := cache\<rparr>)
          in case ResolvePolicyInternal (table_of b1) envelope of
               (p, override_applied, conflict_detected) \<Rightarrow>
                 (case StorePolicyCache (policy_cache_state b1) (cache_key envelope)
                         \<lparr>entry_policy = p, entry_override_applied = override_applied,
                          entry_conflict_detected = conflict_detected\<rparr> of
                    (stored, cache') \<Rightarrow>
                      (case stored of Some entry \<Rightarrow> entry_policy entry | None \<Rightarrow> p,
                       note_resolution env override_applied conflict_detected
                         (b1\<lparr>policy_cache_state := cache'\<rparr>))))"

section \<open>Tuning, priorities and flow slots\<close>

definition ApplyTransportTuning :: "BridgeConfig \<Rightarrow> ('t, 'w) bridge \<Rightarrow> ('t, 'w) bridge" where
  "ApplyTransportTuning cfg b =
     b\<lparr>flow := \<lparr>flow_limit_vehicle = flow_limit_inflight (vehicle_to_robot_endpoint cfg),
        flow_limit_robot = flow_limit_inflight (robot_to_vehicle_endpoint cfg),
        high_priority_threshold_vehicle = high_priority_threshold (vehicle_to_robot_endpoint cfg),
        high_priority_threshold_robot = high_priority_threshold (robot_to_vehicle_endpoint cfg),
        failover_from_vehicle_to_robot_enabled = (additional_endpoints cfg \<noteq> []),
        failover_from_robot_to_vehicle_enabled = (additional_endpoints cfg \<noteq> []),
        inflight_vehicle = 0, inflight_robot = 0\<rparr>\<rparr>"

definition ResolvePriorityForPublish :: "MessageEnvelope \<Rightarrow> tref option \<Rightarrow> ('t, 'w) bridge \<Rightarrow> u32" where
  "ResolvePriorityForPublish envelope transport b =
     (let channel_index = ucast (channel_value (channel envelope)) :: u32;
          qos_index = ucast (qos_value (qos envelope)) :: u32 in
      if transport = transport_ptr b V2R then
        (if channel_index \<ge> high_priority_threshold_vehicle (flow b) \<or> qos_index \<ge> high_priority_threshold_vehicle (flow b)
         then receive_priority (config b) + 1 else receive_priority (config b))
      else if transport = transport_ptr b R2V then
        (if channel_index \<ge> high_priority_threshold_robot (flow b) \<or> qos_index \<ge> high_priority_threshold_robot (flow b)
         then receive_priority (config b) + 1 else receive_priority (config b))
      else receive_priority (config b))"

definition AcquireFlowSlot :: "tref option \<Rightarrow> ('t, 'w) bridge \<Rightarrow> bool \<times> ('t, 'w) bridge" where
  "AcquireFlowSlot transport b =
     (let fl = flow b in
      if transport = transport_ptr b V2R then
        (if flow_limit_vehicle fl = 0 then (True, b)
         else
           let current = inflight_vehicle fl + 1; b1 = b\<lparr>flow := fl\<lparr>inflight_vehicle := current\<rparr>\<rparr> in
           if current > flow_limit_vehicle fl
           then (False, b1\<lparr>flow := (flow b1)\<lparr>inflight_vehicle := inflight_vehicle (flow b1) - 1\<rparr>\<rparr>)
           else (True, b1))
      else if transport = transport_ptr b R2V then
        (if flow_limit_robot fl = 0 then (True, b)
         else
           let current = inflight_robot fl + 1; b1 = b\<lparr>flow := fl\<lparr>inflight_robot := current\<rparr>\<rparr> in
           if current > flow_limit_robot fl
           then (False, b1\<lparr>flow := (flow b1)\<lparr>inflight_robot := inflight_robot (flow b1) - 1\<rparr>\<rparr>)
           else (True, b1))
      else (True, b))"

definition ReleaseFlowSlot :: "tref option \<Rightarrow> ('t, 'w) bridge \<Rightarrow> ('t, 'w) bridge" where
  "ReleaseFlowSlot transport b =
     (if transport = transport_ptr b V2R then
        (if flow_limit_vehicle (flow b) = 0 then b
         else b\<lparr>flow := (flow b)\<lparr>inflight_vehicle := inflight_vehicle (flow b) - 1\<rparr>\<rparr>)
      else if transport = transport_ptr b R2V then
        (if flow_limit_robot (flow b) = 0 then b
         else b\<lparr>flow := (flow b)\<lparr>inflight_robot := inflight_robot (flow b) - 1\<rparr>\<rparr>)
      else b)"

section \<open>Reports and commands\<close>

definition GetPolicyLintReport :: "('t, 'w) bridge \<Rightarrow> string \<times> ('t, 'w) bridge" where
  "GetPolicyLintReport b =
     (case lint_report b of
        Some r \<Rightarrow> (r, b)
      | None \<Rightarrow> let r = BuildPolicyLintReport (table_of b) in (r, b\<lparr>lint_report := Some r\<rparr>))"

definition DumpRuntimeState :: "('t, 'w) bridge \<Rightarrow> string \<times> ('t, 'w) bridge" where
  "DumpRuntimeState b0 =
     (let b = count_up (\<lambda>c. c\<lparr>diag_dump_state_count := diag_dump_state_count c + 1\<rparr>) b0;
          flag = (\<lambda>x. if x then ''1'' else ''0'') in
      (json_object
        [(''loaded_config_version'', show_nat (unat (cfg_version (history b)))),
         (''loaded_config_source'', quoted (cfg_source (history b))),
         (''policy_conflicts'', show_nat (length (CollectPolicyConflicts (table_of b)))),
         (''policy_cache_size'', show_nat (length (cache_items (policy_cache_state b)))),
         (''inflight_vehicle'', show_nat (unat (inflight_vehicle (flow b)))),
         (''inflight_robot'', show_nat (unat (inflight_robot (flow b)))),
         (''failover_v2r'', flag (failover_from_vehicle_to_robot_enabled (flow b))),
         (''failover_r2v'', flag (failover_from_robot_to_vehicle_enabled (flow b))),
         (''failover_hit'', show_nat (unat (failover_hit_count (counters b)))),
         (''health_primary'', show_nat (unat (transport_primary_healthy (counters b)))),
         (''health_secondary'', show_nat (unat (transport_secondary_healthy (counters b))))], b))"

text \<open>
  The view of the command \<^verbatim>\<open>policy effective\<close> prints a member the policy type does not have; its text is
  a parameter.
\<close>

definition ExecuteDiagnosticCommand ::
  "(('t, 'w) bridge \<Rightarrow> string) \<Rightarrow> string \<Rightarrow> ('t, 'w) bridge \<Rightarrow> string \<times> ('t, 'w) bridge" where
  "ExecuteDiagnosticCommand effective_view command b =
     (if command = ''dump runtime'' then DumpRuntimeState b
      else if command = ''dump policy'' then GetPolicyLintReport b
      else if command = ''policy effective'' then (effective_view b, b)
      else if command = ''dump transport'' then
        (''transport:{primary_healthy='' @ show_nat (unat (transport_primary_healthy (counters b))) @
         '',secondary_healthy='' @ show_nat (unat (transport_secondary_healthy (counters b))) @
         '',failover_hits='' @ show_nat (unat (failover_hit_count (counters b))) @ ''}'', b)
      else if command = ''dump cache'' then
        (''cache:{policy_cache_size='' @ show_nat (length (cache_items (policy_cache_state b))) @ ''}'', b)
      else (''diag:{error=unknown_command}'', b))"

definition CaptureMetricsSnapshot :: "'t bridge_env \<Rightarrow> ('t, 'w) bridge \<Rightarrow> MetricsSnapshot \<times> ('t, 'w) bridge" where
  "CaptureMetricsSnapshot env b0 =
     (case NowUnixMs env (RefreshAggregatedMetrics env True b0) of
        (now_ms, b) \<Rightarrow> (CaptureSnapshot now_ms (metrics_aggregator b), b))"

definition ExportMetricsDelta :: "'t bridge_env \<Rightarrow> ('t, 'w) bridge \<Rightarrow> MetricsDelta \<times> ('t, 'w) bridge" where
  "ExportMetricsDelta env b0 =
     (case NowUnixMs env (RefreshAggregatedMetrics env True b0) of
        (now_ms, b) \<Rightarrow>
          (case ExportDeltaSinceLastCall now_ms (metrics_aggregator b) of
             (d, agg) \<Rightarrow> (d, b\<lparr>metrics_aggregator := agg\<rparr>)))"

definition SetMessageAuthenticator :: "(MessageEnvelope \<Rightarrow> bool) option \<Rightarrow> ('t, 'w) bridge \<Rightarrow> ('t, 'w) bridge" where
  "SetMessageAuthenticator a b = b\<lparr>authenticator := a\<rparr>"

definition SetDiagnosticsReporter :: "(string \<Rightarrow> 'w \<Rightarrow> 'w) option \<Rightarrow> ('t, 'w) bridge \<Rightarrow> ('t, 'w) bridge" where
  "SetDiagnosticsReporter r b = b\<lparr>diagnostics_reporter := r\<rparr>"

end
