(* ===== verification/Bridge_Publish.thy ===== *)
theory Bridge_Publish
  imports Bridge_State
begin

text \<open>
  The publishing path of \<^verbatim>\<open>interconnect/interconnect_bridge.cpp\<close>: sending under back-pressure, the canary
  gate and \<^verbatim>\<open>Publish\<close> itself with its checks in the order of the code, its counters, its flow slot and its
  fail-over.
\<close>

section \<open>Sending\<close>

definition send_once ::
  "'t bridge_env \<Rightarrow> tref \<Rightarrow> string \<Rightarrow> u32 \<Rightarrow> BridgeSlaPolicy \<Rightarrow> ('t, 'w) bridge \<Rightarrow> ErrorCode \<times> ('t, 'w) bridge" where
  "send_once env r encoded prio pol b =
     on_transport r (SendWithTimeout (transport_ops env r) encoded prio (transport_send_timeout_ms pol)) b"

text \<open>The attempt to make room by discarding the oldest message, then to send again.\<close>

definition drop_oldest_and_resend ::
  "'t bridge_env \<Rightarrow> tref \<Rightarrow> string \<Rightarrow> u32 \<Rightarrow> BridgeSlaPolicy \<Rightarrow> ErrorCode \<Rightarrow> ('t, 'w) bridge \<Rightarrow> ErrorCode \<times> ('t, 'w) bridge" where
  "drop_oldest_and_resend env r encoded prio pol send_ec b =
     (if (drop_policy pol = kDropOldest \<or> backpressure_policy pol = bp_kDropOldest)
         \<and> (send_ec = kTimeout \<or> send_ec = kThreadQueueFull \<or> send_ec = kWouldBlock)
         \<and> supports_discard_oldest (Caps (transport_ops env r))
      then (case on_transport r (DiscardOldest (transport_ops env r)) b of
              (discard_ec, b1) \<Rightarrow>
                if discard_ec = kOk
                then send_once env r encoded prio pol
                       (count_up (\<lambda>c. c\<lparr>backpressure_drop_count := backpressure_drop_count c + 1\<rparr>) b1)
                else (send_ec, b1))
      else (send_ec, b))"

definition PublishWithBackpressure ::
  "'t bridge_env \<Rightarrow> tref \<Rightarrow> string \<Rightarrow> u32 \<Rightarrow> BridgeSlaPolicy \<Rightarrow> ('t, 'w) bridge \<Rightarrow> ErrorCode \<times> ('t, 'w) bridge" where
  "PublishWithBackpressure env r encoded prio pol b =
     (case send_once env r encoded prio pol b of
        (ec1, b1) \<Rightarrow>
          if ec1 = kOk then (ec1, b1)
          else if drop_policy pol = kDropNew then (ec1, b1)
          else case drop_oldest_and_resend env r encoded prio pol ec1 b1 of
            (ec2, b2) \<Rightarrow>
              let budget = retry_budget pol in
              if budget_max_retries budget > 0 \<and> budget_initial_backoff_ms budget > 0
                 \<and> budget_max_backoff_ms budget \<ge> budget_initial_backoff_ms budget \<and> ec2 = kWouldBlock
              then (case RetryOnWouldBlock (Some (send_once env r encoded prio pol))
                          \<lparr>max_retries = budget_max_retries budget,
                           initial_backoff_ms = budget_initial_backoff_ms budget,
                           max_backoff_ms = budget_max_backoff_ms budget\<rparr> b2 of
                      (ec3, sleeps, b3) \<Rightarrow> (ec3, b3))
              else (ec2, b2))"

section \<open>The canary gate\<close>

definition ShouldApplyCanaryForEnvelope ::
  "'t bridge_env \<Rightarrow> MessageEnvelope \<Rightarrow> ('t, 'w) bridge \<Rightarrow> bool \<times> ('t, 'w) bridge" where
  "ShouldApplyCanaryForEnvelope env envelope b =
     (if \<not> enable_config_canary (config b) then (True, b)
      else if config_canary_topic_prefix (config b) \<noteq> []
           \<and> \<not> starts_with (topic envelope) (config_canary_topic_prefix (config b)) then (True, b)
      else if config_canary_channel (config b) \<ge> 0
           \<and> uint (channel_value (channel envelope)) \<noteq> config_canary_channel (config b) then (True, b)
      else case NowUnixMs env b of
        (now_ms, b') \<Rightarrow> ((ucast (now_ms mod 100) :: u32) < config_canary_percent (config b), b'))"

section \<open>Publish\<close>

text \<open>A failed publication: the counter, what else the branch does, and the refresh.\<close>

definition publish_fail ::
  "'t bridge_env \<Rightarrow> (('t, 'w) bridge \<Rightarrow> ('t, 'w) bridge) \<Rightarrow> ErrorCode \<Rightarrow> ('t, 'w) bridge \<Rightarrow> ErrorCode \<times> ('t, 'w) bridge" where
  "publish_fail env f ec b =
     (ec, RefreshAggregatedMetrics env False (f (count_up (\<lambda>c. c\<lparr>tx_fail_count := tx_fail_count c + 1\<rparr>) b)))"

definition count_invalid :: "('t, 'w) bridge \<Rightarrow> ('t, 'w) bridge" where
  "count_invalid b = count_up (\<lambda>c. c\<lparr>invalid_envelope_count := invalid_envelope_count c + 1\<rparr>) b"

definition record_event :: "'t bridge_env \<Rightarrow> string \<Rightarrow> MessageEnvelope option \<Rightarrow> ('t, 'w) bridge \<Rightarrow> ('t, 'w) bridge" where
  "record_event env event envelope b0 =
     (case NowUnixMs env b0 of
        (now_ms, b) \<Rightarrow>
          b\<lparr>disk := RecordSnapshot (can_write_file env) (field_order env) now_ms
                (diagnostics_snapshot_path (config b)) (diagnostics_snapshot_limit (config b)) event envelope (disk b),
            diagnostic_snapshot_write_count := diagnostic_snapshot_write_count b + 1\<rparr>)"

definition set_health :: "u64 \<Rightarrow> u64 \<Rightarrow> ('t, 'w) bridge \<Rightarrow> ('t, 'w) bridge" where
  "set_health p s b = count_up (\<lambda>c. c\<lparr>transport_primary_healthy := p, transport_secondary_healthy := s\<rparr>) b"

definition count_tx :: "('t, 'w) bridge \<Rightarrow> ('t, 'w) bridge" where
  "count_tx b = count_up (\<lambda>c. c\<lparr>tx_count := tx_count c + 1\<rparr>) b"

definition count_tx_maps :: "MessageEnvelope \<Rightarrow> ('t, 'w) bridge \<Rightarrow> ('t, 'w) bridge" where
  "count_tx_maps e b = count_up (\<lambda>c. c\<lparr>topic_tx_count := bump (topic_tx_count c) (topic e),
     channel_tx_count := bump (channel_tx_count c) (channel e), qos_tx_count := bump (qos_tx_count c) (qos e)\<rparr>) b"

text \<open>After a failed send on the primary transport.\<close>

definition publish_failover ::
  "'t bridge_env \<Rightarrow> tref \<Rightarrow> string \<Rightarrow> u32 \<Rightarrow> BridgeSlaPolicy \<Rightarrow> ErrorCode \<Rightarrow> ('t, 'w) bridge \<Rightarrow> ErrorCode \<times> ('t, 'w) bridge" where
  "publish_failover env transport encoded prio pol send_ec b0 =
     (let b = b0\<lparr>transport_orchestrator := OnPrimarySendFailure (transport_orchestrator b0)\<rparr>;
          give_up = (\<lambda>b'. publish_fail env
             (\<lambda>x. count_up (\<lambda>c. c\<lparr>transport_error_count := transport_error_count c + 1\<rparr>) x) send_ec (set_health 0 0 b'))
      in case ResolveFailover (transport_orchestrator b) (Some transport) (transport_ptr b V2R) (transport_ptr b R2V)
                (failover_from_vehicle_to_robot_enabled (flow b)) (failover_from_robot_to_vehicle_enabled (flow b)) of
           None \<Rightarrow> give_up b
         | Some other \<Rightarrow>
             (case PublishWithBackpressure env other encoded prio pol b of
                (failover_ec, b1) \<Rightarrow>
                  if failover_ec = kOk
                  then (kOk, RefreshAggregatedMetrics env False (count_tx (set_health 0 1
                         (count_up (\<lambda>c. c\<lparr>failover_hit_count := failover_hit_count c + 1,
                            diag_failover_event_count := diag_failover_event_count c + 1\<rparr>) b1))))
                  else give_up b1))"

text \<open>From the encoded text on: policy, priority, flow slot, sending, and what follows.\<close>

definition publish_encoded ::
  "'t bridge_env \<Rightarrow> tref \<Rightarrow> MessageEnvelope \<Rightarrow> string \<Rightarrow> ('t, 'w) bridge \<Rightarrow> ErrorCode \<times> ('t, 'w) bridge" where
  "publish_encoded env transport envelope encoded b =
     (case ResolvePolicy env envelope b of
        (pol, b1) \<Rightarrow>
          let prio = ResolvePriorityForPublish envelope (Some transport) b1 in
          (case AcquireFlowSlot (Some transport) b1 of
             (False, b2) \<Rightarrow>
               publish_fail env
                 (\<lambda>x. count_up (\<lambda>c. c\<lparr>backpressure_drop_count := backpressure_drop_count c + 1\<rparr>) x) kWouldBlock b2
           | (True, b2) \<Rightarrow>
               (case PublishWithBackpressure env transport encoded prio pol b2 of
                  (send_ec, b3) \<Rightarrow>
                    let b4 = ReleaseFlowSlot (Some transport) b3 in
                    if send_ec \<noteq> kOk then publish_failover env transport encoded prio pol send_ec b4
                    else
                      let b5 = b4\<lparr>transport_orchestrator := OnPrimarySendSuccess (transport_orchestrator b4)\<rparr> in
                      (kOk, RefreshAggregatedMetrics env False (count_tx_maps envelope (count_tx (set_health 1 1 b5)))))))"

text \<open>The duplicate check and the keys remembered after it, for the topics it applies to.\<close>

definition duplicate_check ::
  "MessageEnvelope \<Rightarrow> ('t, 'w) bridge \<Rightarrow> bool \<times> key_buckets" where
  "duplicate_check e b =
     (if ShouldApplyIdempotency (config b) e then IsDuplicateWithinWindow (config b) e (idempotency_recent_keys b)
      else (False, idempotency_recent_keys b))"

definition Publish ::
  "'t bridge_env \<Rightarrow> tref option \<Rightarrow> MessageEnvelope \<Rightarrow> ('t, 'w) bridge \<Rightarrow> ErrorCode \<times> ('t, 'w) bridge" where
  "Publish env transport envelope b =
     (if \<not> bridge_running b \<or> transport = None then publish_fail env id kThreadStartFailed b
      else if \<not> IsEnvelopeValidForPublish envelope
      then publish_fail env count_invalid kInterconnectInvalidEnvelope b
      else if (case authenticator b of None \<Rightarrow> False | Some validate \<Rightarrow> \<not> validate envelope)
      then publish_fail env count_invalid kInterconnectInvalidEnvelope b
      else case ShouldApplyCanaryForEnvelope env envelope b of
        (False, b1) \<Rightarrow>
          publish_fail env
            (\<lambda>x. record_event env ''canary_skip'' (Some envelope)
               (x\<lparr>history := (history x)\<lparr>last_reload_audit_summary :=
                  ''reload_audit:{status=canary_skip,reason=segment_gate}''\<rparr>\<rparr>)) kWouldBlock b1
      | (True, b1) \<Rightarrow>
          (case duplicate_check envelope b1 of
             (duplicate, keys) \<Rightarrow>
               let b2 = b1\<lparr>idempotency_recent_keys := keys\<rparr> in
               if duplicate
               then publish_fail env
                      (\<lambda>x. record_event env ''idempotency_drop'' (Some envelope)
                         (x\<lparr>idempotency_drop_count := idempotency_drop_count x + 1\<rparr>)) kWouldBlock b2
               else
                 (case manager_Encode (ResolveMode (config b2) envelope) envelope (Some []) of
                    (encode_ec, encoded) \<Rightarrow>
                      if encode_ec \<noteq> kOk
                      then publish_fail env
                             (\<lambda>x. count_up (\<lambda>c. c\<lparr>encode_fail_count := encode_fail_count c + 1\<rparr>) x) encode_ec b2
                      else publish_encoded env (the transport) envelope (the encoded) b2)))"

definition PublishFromVehicle ::
  "'t bridge_env \<Rightarrow> MessageEnvelope \<Rightarrow> ('t, 'w) bridge \<Rightarrow> ErrorCode \<times> ('t, 'w) bridge" where
  "PublishFromVehicle env envelope b = Publish env (transport_ptr b V2R) envelope b"

definition PublishFromRobot ::
  "'t bridge_env \<Rightarrow> MessageEnvelope \<Rightarrow> ('t, 'w) bridge \<Rightarrow> ErrorCode \<times> ('t, 'w) bridge" where
  "PublishFromRobot env envelope b = Publish env (transport_ptr b R2V) envelope b"

section \<open>Frames\<close>

text \<open>The counters of traffic, and the part of the state that housekeeping leaves alone.\<close>

definition traffic :: "BridgeMetrics \<Rightarrow> u64 list" where
  "traffic c = [tx_count c, tx_fail_count c, rx_count c, encode_fail_count c, decode_fail_count c, expired_drop_count c,
     route_miss_count c, handler_error_count c, invalid_envelope_count c, transport_error_count c,
     backpressure_drop_count c, failover_hit_count c]"

definition steady :: "('t, 'w) bridge \<Rightarrow> ('t, 'w) bridge" where
  "steady b = b\<lparr>counters := undefined, gates := undefined, policy_cache_state := undefined,
     capability := undefined, metrics_aggregator := undefined, ticks := 0\<rparr>"

definition quiet :: "('t, 'w) bridge \<Rightarrow> ('t, 'w) bridge \<Rightarrow> bool" where
  "quiet b b' \<longleftrightarrow> steady b' = steady b \<and> traffic (counters b') = traffic (counters b)"

lemma quiet_refl [simp]: "quiet b b"
  by (simp add: quiet_def)

lemma quiet_trans: "quiet a b \<Longrightarrow> quiet b c \<Longrightarrow> quiet a c"
  by (simp add: quiet_def)

lemma quietD:
  assumes "quiet b b'"
  shows "\<exists>c g p ca ag t. b' = b\<lparr>counters := c, gates := g, policy_cache_state := p, capability := ca,
      metrics_aggregator := ag, ticks := t\<rparr> \<and> traffic c = traffic (counters b)"
proof -
  have "b' = (steady b')\<lparr>counters := counters b', gates := gates b', policy_cache_state := policy_cache_state b',
      capability := capability b', metrics_aggregator := metrics_aggregator b', ticks := ticks b'\<rparr>"
    by (simp add: steady_def)
  also have "steady b' = steady b" using assms by (simp add: quiet_def)
  finally have "b' = b\<lparr>counters := counters b', gates := gates b', policy_cache_state := policy_cache_state b',
      capability := capability b', metrics_aggregator := metrics_aggregator b', ticks := ticks b'\<rparr>"
    by (simp add: steady_def)
  moreover have "traffic (counters b') = traffic (counters b)" using assms by (simp add: quiet_def)
  ultimately show ?thesis by blast
qed

lemma quiet_fields:
  assumes "quiet b b'"
  shows "bridge_running b' = bridge_running b" "vehicle_to_robot_transport b' = vehicle_to_robot_transport b"
    "robot_to_vehicle_transport b' = robot_to_vehicle_transport b" "config b' = config b" "flow b' = flow b"
    "app b' = app b" "history b' = history b" "trace_ix b' = trace_ix b" "authenticator b' = authenticator b"
    "idempotency_recent_keys b' = idempotency_recent_keys b" "receive_mode b' = receive_mode b"
    "worker_pool b' = worker_pool b" "vehicle_router b' = vehicle_router b" "robot_router b' = robot_router b"
    "transport_orchestrator b' = transport_orchestrator b"
    "diagnostics_reporter b' = diagnostics_reporter b" "samples b' = samples b"
    "tx_count (counters b') = tx_count (counters b)" "tx_fail_count (counters b') = tx_fail_count (counters b)"
    "rx_count (counters b') = rx_count (counters b)" "decode_fail_count (counters b') = decode_fail_count (counters b)"
    "expired_drop_count (counters b') = expired_drop_count (counters b)"
    "route_miss_count (counters b') = route_miss_count (counters b)"
    "handler_error_count (counters b') = handler_error_count (counters b)"
    "invalid_envelope_count (counters b') = invalid_envelope_count (counters b)"
    "transport_error_count (counters b') = transport_error_count (counters b)"
    "backpressure_drop_count (counters b') = backpressure_drop_count (counters b)"
    "failover_hit_count (counters b') = failover_hit_count (counters b)"
proof -
  obtain c g p ca ag t where b': "b' = b\<lparr>counters := c, gates := g, policy_cache_state := p, capability := ca,
      metrics_aggregator := ag, ticks := t\<rparr>" and "traffic c = traffic (counters b)"
    using quietD [OF assms] by blast
  then show "bridge_running b' = bridge_running b" "vehicle_to_robot_transport b' = vehicle_to_robot_transport b"
    "robot_to_vehicle_transport b' = robot_to_vehicle_transport b" "config b' = config b" "flow b' = flow b"
    "app b' = app b" "history b' = history b" "trace_ix b' = trace_ix b" "authenticator b' = authenticator b"
    "idempotency_recent_keys b' = idempotency_recent_keys b" "receive_mode b' = receive_mode b"
    "worker_pool b' = worker_pool b" "vehicle_router b' = vehicle_router b" "robot_router b' = robot_router b"
    "transport_orchestrator b' = transport_orchestrator b" "diagnostics_reporter b' = diagnostics_reporter b"
    "samples b' = samples b" by simp_all
qed (use assms in \<open>simp_all add: quiet_def traffic_def\<close>)

lemma quiet_now: "quiet b (snd (NowUnixMs env b))"
  by (simp add: quiet_def NowUnixMs_def steady_def)

lemma quiet_refresh: "quiet b (RefreshAggregatedMetrics env force b)"
  by (simp add: quiet_def RefreshAggregatedMetrics_def NowUnixMs_def Let_def steady_def)

lemma quiet_note_conflict: "quiet b (note_conflict env b)"
  by (simp add: quiet_def note_conflict_def NowUnixMs_def Let_def steady_def traffic_def split: prod.split)

lemma quiet_note_resolution: "quiet b (note_resolution env ov cf b)"
proof -
  define b1 where "b1 = (if ov then count_up (\<lambda>c. c\<lparr>policy_override_count := policy_override_count c + 1\<rparr>) b else b)"
  define b2 where "b2 = (if cf then note_conflict env b1 else b1)"
  have "quiet b b1" by (simp add: b1_def quiet_def steady_def traffic_def)
  moreover have "quiet b1 b2" by (simp add: b2_def quiet_note_conflict)
  moreover have "quiet b2 (count_up (\<lambda>c. c\<lparr>policy_hit_count := policy_hit_count c + 1\<rparr>) b2)"
    by (simp add: quiet_def steady_def traffic_def)
  moreover have "note_resolution env ov cf b = count_up (\<lambda>c. c\<lparr>policy_hit_count := policy_hit_count c + 1\<rparr>) b2"
    by (simp add: note_resolution_def Let_def b1_def b2_def)
  ultimately show ?thesis using quiet_trans by metis
qed

lemma quiet_counted:
  assumes "traffic (f (counters b)) = traffic (counters b)"
  shows "quiet b (note_resolution env ov cf (b\<lparr>policy_cache_state := p, counters := f (counters b)\<rparr>))"
    and "quiet b (note_resolution env ov cf (b\<lparr>counters := f (counters b), policy_cache_state := p\<rparr>))"
proof -
  have "quiet b (b\<lparr>policy_cache_state := p, counters := f (counters b)\<rparr>)" "quiet b (b\<lparr>counters := f (counters b), policy_cache_state := p\<rparr>)"
    using assms by (simp_all add: quiet_def steady_def)
  then show "quiet b (note_resolution env ov cf (b\<lparr>policy_cache_state := p, counters := f (counters b)\<rparr>))"
    "quiet b (note_resolution env ov cf (b\<lparr>counters := f (counters b), policy_cache_state := p\<rparr>))"
    using quiet_trans quiet_note_resolution by blast+
qed

lemma quiet_ResolvePolicy: "quiet b (snd (ResolvePolicy env e b))"
  using quiet_counted [where b = b and f = "\<lambda>c. c\<lparr>policy_cache_hit_count := policy_cache_hit_count c + 1\<rparr>"]
    quiet_counted [where b = b and f = "\<lambda>c. c\<lparr>policy_cache_miss_count := policy_cache_miss_count c + 1\<rparr>"]
  by (simp add: ResolvePolicy_def Let_def traffic_def split: prod.split option.split)

text \<open>Sending touches one transport and the counter of discarded messages.\<close>

definition sent :: "tref \<Rightarrow> ('t, 'w) bridge \<Rightarrow> ('t, 'w) bridge \<Rightarrow> bool" where
  "sent r b b' \<longleftrightarrow> (\<exists>s d. b' = set_transport r s (b\<lparr>counters := (counters b)\<lparr>backpressure_drop_count := d\<rparr>\<rparr>))"

lemma sent_trans:
  assumes "sent r a b" "sent r b c"
  shows "sent r a c"
proof -
  obtain s d s' d' where "b = set_transport r s (a\<lparr>counters := (counters a)\<lparr>backpressure_drop_count := d\<rparr>\<rparr>)"
    "c = set_transport r s' (b\<lparr>counters := (counters b)\<lparr>backpressure_drop_count := d'\<rparr>\<rparr>)"
    using assms unfolding sent_def by blast
  then have "c = set_transport r s' (a\<lparr>counters := (counters a)\<lparr>backpressure_drop_count := d'\<rparr>\<rparr>)"
    by (cases r) simp_all
  then show ?thesis unfolding sent_def by blast
qed

lemma sent_refl: "transport_at b r \<noteq> None \<Longrightarrow> sent r b b"
proof -
  assume "transport_at b r \<noteq> None"
  then obtain s where "transport_at b r = Some s" by auto
  then have "b = set_transport r s (b\<lparr>counters := (counters b)\<lparr>backpressure_drop_count := backpressure_drop_count (counters b)\<rparr>\<rparr>)"
    by (cases r) simp_all
  then show ?thesis unfolding sent_def by blast
qed

lemma sent_on_transport: "sent r b (snd (on_transport r f b))"
proof -
  obtain res s where "f (the (transport_at b r)) = (res, s)" by fastforce
  then have "snd (on_transport r f b) =
      set_transport r s (b\<lparr>counters := (counters b)\<lparr>backpressure_drop_count := backpressure_drop_count (counters b)\<rparr>\<rparr>)"
    by (simp add: on_transport_def)
  then show ?thesis unfolding sent_def by blast
qed

lemma sent_count_drop: "sent r b b1 \<Longrightarrow> sent r b (count_up (\<lambda>c. c\<lparr>backpressure_drop_count := n c\<rparr>) b1)"
proof -
  assume "sent r b b1"
  then obtain s d where "b1 = set_transport r s (b\<lparr>counters := (counters b)\<lparr>backpressure_drop_count := d\<rparr>\<rparr>)"
    unfolding sent_def by blast
  then have "count_up (\<lambda>c. c\<lparr>backpressure_drop_count := n c\<rparr>) b1 =
      set_transport r s (b\<lparr>counters := (counters b)\<lparr>backpressure_drop_count := n (counters b1)\<rparr>\<rparr>)"
    by (cases r) simp_all
  then show ?thesis unfolding sent_def by blast
qed

lemma sent_not_null: "sent r b b' \<Longrightarrow> transport_at b' r \<noteq> None"
  by (cases r) (auto simp: sent_def)

lemma sent_send_once: "sent r b (snd (send_once env r x p pol b))"
  unfolding send_once_def by (rule sent_on_transport)

lemma sent_drop_oldest: "transport_at b r \<noteq> None \<Longrightarrow> sent r b (snd (drop_oldest_and_resend env r x p pol ec b))"
proof -
  assume nn: "transport_at b r \<noteq> None"
  obtain dec b1 where d: "on_transport r (DiscardOldest (transport_ops env r)) b = (dec, b1)" by fastforce
  then have "sent r b b1" using sent_on_transport by (metis snd_conv)
  with d nn show ?thesis
    by (auto simp: drop_oldest_and_resend_def intro: sent_refl sent_trans [OF sent_count_drop sent_send_once])
qed

lemma sent_retry_loop:
  "(\<And>b. sent r b (snd (f b))) \<Longrightarrow> transport_at b r \<noteq> None \<Longrightarrow> sent r b (snd (snd (retry_loop f opts n bo sl b)))"
proof (induction f opts n bo sl b rule: retry_loop.induct)
  case (1 f opts n bo sl b)
  obtain ec b1 where s: "f b = (ec, b1)" by fastforce
  then have b1: "sent r b b1" using 1(2) [of b] by simp
  show ?case
  proof (cases "n \<le> max_retries opts \<and> ec = kWouldBlock")
    case True
    then have "sent r b1 (snd (snd (retry_loop f opts (n + 1) (min (bo * 2) (max_backoff_ms opts)) (sl @ [bo]) b1)))"
      using 1 s sent_not_null [OF b1] by simp
    from sent_trans [OF b1 this] show ?thesis using True s by (subst retry_loop.simps) simp
  next
    case False
    then show ?thesis using s b1 sent_refl [OF 1(3)] by (subst retry_loop.simps) auto
  qed
qed

lemma sent_PublishWithBackpressure: "sent r b (snd (PublishWithBackpressure env r x p pol b))"
proof -
  obtain ec1 b1 where s: "send_once env r x p pol b = (ec1, b1)" by fastforce
  then have b1: "sent r b b1" using sent_send_once by (metis snd_conv)
  obtain ec2 b2 where d: "drop_oldest_and_resend env r x p pol ec1 b1 = (ec2, b2)" by fastforce
  then have "sent r b1 b2" using sent_drop_oldest [OF sent_not_null [OF b1]] by (metis snd_conv)
  then have b2: "sent r b b2" using b1 sent_trans by blast
  have "sent r b (snd (snd (RetryOnWouldBlock (Some (send_once env r x p pol)) opts b2)))" for opts
    using b2 sent_trans [OF b2 sent_retry_loop [OF sent_send_once sent_not_null [OF b2]]] by (simp add: RetryOnWouldBlock_def)
  then show ?thesis using s d b1 b2
    by (auto simp: PublishWithBackpressure_def Let_def split: prod.split)
      (metis snd_conv)
qed

lemma sent_fields:
  assumes "sent r b b'"
  shows "bridge_running b' = bridge_running b" "config b' = config b" "flow b' = flow b" "app b' = app b" "history b' = history b"
    "trace_ix b' = trace_ix b" "idempotency_recent_keys b' = idempotency_recent_keys b"
    "policy_cache_state b' = policy_cache_state b" "transport_orchestrator b' = transport_orchestrator b"
    "tx_count (counters b') = tx_count (counters b)" "tx_fail_count (counters b') = tx_fail_count (counters b)"
    "q \<noteq> r \<Longrightarrow> transport_at b' q = transport_at b q"
    "transport_at b r \<noteq> None \<Longrightarrow> transport_ptr b' q = transport_ptr b q"
proof -
  obtain s d where b': "b' = set_transport r s (b\<lparr>counters := (counters b)\<lparr>backpressure_drop_count := d\<rparr>\<rparr>)"
    using assms unfolding sent_def by blast
  then show "bridge_running b' = bridge_running b" "config b' = config b" "flow b' = flow b" "app b' = app b" "history b' = history b"
    "trace_ix b' = trace_ix b" "idempotency_recent_keys b' = idempotency_recent_keys b"
    "policy_cache_state b' = policy_cache_state b" "transport_orchestrator b' = transport_orchestrator b"
    "tx_count (counters b') = tx_count (counters b)" "tx_fail_count (counters b') = tx_fail_count (counters b)"
    by (cases r; simp)+
  show "q \<noteq> r \<Longrightarrow> transport_at b' q = transport_at b q"
    using b' by (cases r; cases q; simp)
  show "transport_at b r \<noteq> None \<Longrightarrow> transport_ptr b' q = transport_ptr b q"
    using b' by (cases r; cases q; simp add: transport_ptr_def)
qed

section \<open>Accounts\<close>

definition tallies :: "('t, 'w) bridge \<Rightarrow> ('t, 'w) bridge \<Rightarrow> bool" where
  "tallies b b' \<longleftrightarrow> tx_count (counters b') = tx_count (counters b) \<and> tx_fail_count (counters b') = tx_fail_count (counters b)
     \<and> flow b' = flow b"

definition accounted :: "('t, 'w) bridge \<Rightarrow> ErrorCode \<times> ('t, 'w) bridge \<Rightarrow> bool" where
  "accounted b res \<longleftrightarrow>
     tx_count (counters (snd res)) = tx_count (counters b) + of_bool (fst res = kOk) \<and>
     tx_fail_count (counters (snd res)) = tx_fail_count (counters b) + of_bool (fst res \<noteq> kOk) \<and>
     flow (snd res) = flow b"

lemma tallies_quiet: "quiet b b' \<Longrightarrow> tallies b b'"
  by (simp add: tallies_def quiet_fields)

lemma tallies_sent: "sent r b b' \<Longrightarrow> tallies b b'"
  by (simp add: tallies_def sent_fields)

lemma accounted_tallies: "tallies b b1 \<Longrightarrow> accounted b1 res \<Longrightarrow> accounted b res"
  by (simp add: tallies_def accounted_def)

lemma accounted_fail:
  assumes "ec \<noteq> kOk" "\<And>x. tallies x (f x)"
  shows "accounted b (publish_fail env f ec b)"
proof -
  let ?b1 = "count_up (\<lambda>c. c\<lparr>tx_fail_count := tx_fail_count c + 1\<rparr>) b"
  have "tallies (f ?b1) (RefreshAggregatedMetrics env False (f ?b1))" by (rule tallies_quiet [OF quiet_refresh])
  with assms(2) [of ?b1] assms(1) show ?thesis by (simp add: accounted_def publish_fail_def tallies_def)
qed

lemma accounted_ok:
  assumes "tallies b b1"
  shows "accounted b (kOk, RefreshAggregatedMetrics env False (count_tx b1))"
proof -
  have "tallies (count_tx b1) (RefreshAggregatedMetrics env False (count_tx b1))" by (rule tallies_quiet [OF quiet_refresh])
  with assms show ?thesis by (simp add: accounted_def count_tx_def tallies_def)
qed

lemma tallies_simps [simp]:
  "tallies b (b\<lparr>transport_orchestrator := o1\<rparr>)" "tallies b (set_health p q b)" "tallies b (count_invalid b)"
  "tallies b (record_event env event envelope b)" "tallies b (b\<lparr>history := h\<rparr>)" "tallies b (b\<lparr>idempotency_recent_keys := k\<rparr>)"
  "tallies b b" "tallies b (b\<lparr>idempotency_drop_count := n\<rparr>)"
  by (simp_all add: tallies_def set_health_def count_invalid_def record_event_def NowUnixMs_def)

lemma tallies_trans: "tallies a b \<Longrightarrow> tallies b c \<Longrightarrow> tallies a c"
  by (simp add: tallies_def)

lemma tallies_sent_PWB: "tallies b (snd (PublishWithBackpressure env r x p pol b))"
  by (rule tallies_sent [OF sent_PublishWithBackpressure])

lemma accounted_give_up:
  assumes "ec \<noteq> kOk" "tallies b b1"
  shows "accounted b (publish_fail env (\<lambda>x. count_up (\<lambda>c. c\<lparr>transport_error_count := transport_error_count c + 1\<rparr>) x) ec (set_health 0 0 b1))"
  by (rule accounted_tallies [OF tallies_trans [OF assms(2) tallies_simps(2)] accounted_fail [OF assms(1)]])
    (simp add: tallies_def)

lemma accounted_failover:
  assumes "ec \<noteq> kOk"
  shows "accounted b (publish_failover env r x p pol ec b)"
proof -
  let ?b = "b\<lparr>transport_orchestrator := OnPrimarySendFailure (transport_orchestrator b)\<rparr>"
  have b: "tallies b ?b" by simp
  show ?thesis
  proof (cases "ResolveFailover (transport_orchestrator ?b) (Some r) (transport_ptr ?b V2R) (transport_ptr ?b R2V)
       (failover_from_vehicle_to_robot_enabled (flow ?b)) (failover_from_robot_to_vehicle_enabled (flow ?b))")
    case None
    then show ?thesis using accounted_give_up [OF assms b, of env] by (simp add: publish_failover_def Let_def)
  next
    case (Some other)
    obtain fec b1 where p: "PublishWithBackpressure env other x p pol ?b = (fec, b1)" by fastforce
    then have "tallies ?b b1" using tallies_sent_PWB by (metis snd_conv)
    then have t: "tallies b b1" using b tallies_trans by blast
    have "tallies b (set_health 0 1 (count_up (\<lambda>c. c\<lparr>failover_hit_count := failover_hit_count c + 1,
       diag_failover_event_count := diag_failover_event_count c + 1\<rparr>) b1))"
      using t by (simp add: tallies_def set_health_def)
    from accounted_ok [OF this, of env] accounted_give_up [OF assms t, of env] Some p show ?thesis
      by (simp add: publish_failover_def Let_def)
  qed
qed

lemma slot_refused: "AcquireFlowSlot t b = (False, b') \<Longrightarrow> b' = b"
  by (auto simp: AcquireFlowSlot_def Let_def split: if_splits)

lemma slot_balanced:
  assumes "AcquireFlowSlot (Some r) b = (True, b1)" "sent r b1 b2" "transport_at b r \<noteq> None"
  shows "flow (ReleaseFlowSlot (Some r) b2) = flow b"
    and "tallies b (ReleaseFlowSlot (Some r) b2)"
proof -
  have b1: "transport_at b1 q = transport_at b q" "counters b1 = counters b" for q
    using assms(1) by (cases q; auto simp: AcquireFlowSlot_def Let_def split: if_splits)+
  then have ptr: "transport_ptr b2 q = transport_ptr b q" for q
    using sent_fields(13) [OF assms(2)] assms(3) by (simp add: transport_ptr_def)
  have "flow b2 = flow b1" using sent_fields(3) [OF assms(2)] .
  then show f: "flow (ReleaseFlowSlot (Some r) b2) = flow b"
    using assms(1) ptr by (auto simp: AcquireFlowSlot_def ReleaseFlowSlot_def Let_def split: if_splits)
  have "counters (ReleaseFlowSlot (Some r) b2) = counters b2" by (simp add: ReleaseFlowSlot_def)
  then show "tallies b (ReleaseFlowSlot (Some r) b2)"
    using f b1(2) sent_fields(10,11) [OF assms(2)] by (simp add: tallies_def)
qed

lemma accounted_encoded:
  assumes "transport_at b r \<noteq> None"
  shows "accounted b (publish_encoded env r e x b)"
proof -
  obtain pol b1 where R: "ResolvePolicy env e b = (pol, b1)" by fastforce
  then have q: "quiet b b1" using quiet_ResolvePolicy by (metis snd_conv)
  have nn: "transport_at b1 r \<noteq> None" using assms quiet_fields(2,3) [OF q] by (cases r) simp_all
  define prio where "prio = ResolvePriorityForPublish e (Some r) b1"
  obtain ok b2 where A: "AcquireFlowSlot (Some r) b1 = (ok, b2)" by fastforce
  obtain ec b3 where P: "PublishWithBackpressure env r x prio pol b2 = (ec, b3)" by fastforce
  then have s: "sent r b2 b3" using sent_PublishWithBackpressure by (metis snd_conv)
  have "accounted b1 (publish_encoded env r e x b)"
  proof (cases ok)
    case False
    then show ?thesis using R A slot_refused [of "Some r" b1 b2]
        accounted_fail [of kWouldBlock "\<lambda>x. count_up (\<lambda>c. c\<lparr>backpressure_drop_count := backpressure_drop_count c + 1\<rparr>) x"]
      by (simp add: publish_encoded_def Let_def tallies_def)
  next
    case True
    let ?b4 = "ReleaseFlowSlot (Some r) b3"
    have t: "tallies b1 ?b4" using slot_balanced(2) [OF _ s nn] A True by simp
    show ?thesis
    proof (cases "ec = kOk")
      case True
      let ?b5 = "?b4\<lparr>transport_orchestrator := OnPrimarySendSuccess (transport_orchestrator ?b4)\<rparr>"
      have "tallies b1 (count_tx_maps e (set_health 1 1 ?b5))" using t by (simp add: tallies_def set_health_def count_tx_maps_def)
      moreover have "count_tx_maps e (count_tx (set_health 1 1 ?b5)) = count_tx (count_tx_maps e (set_health 1 1 ?b5))"
        by (simp add: count_tx_def count_tx_maps_def)
      ultimately show ?thesis using accounted_ok [of b1 _ env] R A P True \<open>ok\<close>
        by (simp add: publish_encoded_def Let_def flip: prio_def)
    next
      case False
      then show ?thesis using accounted_tallies [OF t accounted_failover] R A P \<open>ok\<close>
        by (simp add: publish_encoded_def Let_def flip: prio_def)
    qed
  qed
  then show ?thesis by (rule accounted_tallies [OF tallies_quiet [OF q]])
qed

lemma canary_quiet: "quiet b (snd (ShouldApplyCanaryForEnvelope env e b))"
  using quiet_now [of b env] by (auto simp: ShouldApplyCanaryForEnvelope_def split: prod.split)

text \<open>The outcomes of \<^verbatim>\<open>Publish\<close>; encoding never fails.\<close>

lemma Publish_cases [case_names stopped invalid unauthenticated canary duplicate sending]:
  obtains
    "\<not> bridge_running b \<or> t = None" "Publish env t e b = publish_fail env id kThreadStartFailed b"
  | "\<not> IsEnvelopeValidForPublish e" "Publish env t e b = publish_fail env count_invalid kInterconnectInvalidEnvelope b"
  | validate where "authenticator b = Some validate" "\<not> validate e"
      "Publish env t e b = publish_fail env count_invalid kInterconnectInvalidEnvelope b"
  | b1 where "ShouldApplyCanaryForEnvelope env e b = (False, b1)"
      "Publish env t e b = publish_fail env (\<lambda>x. record_event env ''canary_skip'' (Some e)
         (x\<lparr>history := (history x)\<lparr>last_reload_audit_summary := ''reload_audit:{status=canary_skip,reason=segment_gate}''\<rparr>\<rparr>))
         kWouldBlock b1"
  | b1 keys where "ShouldApplyCanaryForEnvelope env e b = (True, b1)" "duplicate_check e b1 = (True, keys)"
      "Publish env t e b = publish_fail env (\<lambda>x. record_event env ''idempotency_drop'' (Some e)
         (x\<lparr>idempotency_drop_count := idempotency_drop_count x + 1\<rparr>)) kWouldBlock (b1\<lparr>idempotency_recent_keys := keys\<rparr>)"
  | r b1 keys where "bridge_running b" "t = Some r" "IsEnvelopeValidForPublish e"
      "\<forall>validate. authenticator b = Some validate \<longrightarrow> validate e"
      "ShouldApplyCanaryForEnvelope env e b = (True, b1)" "duplicate_check e b1 = (False, keys)"
      "Publish env t e b =
         publish_encoded env r e (wire_text (ResolveMode (config b) e) e) (b1\<lparr>idempotency_recent_keys := keys\<rparr>)"
proof -
  obtain ok b1 where c: "ShouldApplyCanaryForEnvelope env e b = (ok, b1)" by fastforce
  have cfg: "config b1 = config b" using quiet_fields(4) [OF canary_quiet [of b env e]] c by simp
  obtain dup keys where d: "duplicate_check e b1 = (dup, keys)" by fastforce
  show ?thesis
  proof (cases "\<not> bridge_running b \<or> t = None")
    case True
    then show ?thesis using that(1) by (simp add: Publish_def)
  next
    case up: False
    then obtain r where r: "t = Some r" "bridge_running b" by auto
    show ?thesis
    proof (cases "IsEnvelopeValidForPublish e")
      case False
      then show ?thesis using that(2) r by (simp add: Publish_def)
    next
      case valid: True
      show ?thesis
      proof (cases "\<exists>validate. authenticator b = Some validate \<and> \<not> validate e")
        case True
        then show ?thesis using that(3) r valid by (auto simp: Publish_def)
      next
        case auth: False
        then have "\<not> (case authenticator b of None \<Rightarrow> False | Some validate \<Rightarrow> \<not> validate e)" by (auto split: option.splits)
        note pass = r valid this
        consider "\<not> ok" | "ok" "dup" | "ok" "\<not> dup" by blast
        then show ?thesis
        proof cases
          case 1
          then have "ShouldApplyCanaryForEnvelope env e b = (False, b1)" using c by simp
          then show ?thesis by (rule that(4)) (use pass in \<open>simp add: Publish_def 1 c\<close>)
        next
          case 2
          have "ShouldApplyCanaryForEnvelope env e b = (True, b1)" "duplicate_check e b1 = (True, keys)" using c d 2 by simp_all
          then show ?thesis by (rule that(5)) (use pass 2 in \<open>simp add: Publish_def c d Let_def\<close>)
        next
          case 3
          have "ShouldApplyCanaryForEnvelope env e b = (True, b1)" "duplicate_check e b1 = (False, keys)" using c d 3 by simp_all
          from that(6) [OF r(2,1) valid _ this] show ?thesis
            using pass 3 auth by (simp add: Publish_def c d cfg manager_Encode_def EncodeByProtocol_ok Let_def)
        qed
      qed
    qed
  qed
qed

lemma accounted_Publish: "accounted b (Publish env (transport_ptr b r) e b)"
proof (cases rule: Publish_cases [of b "transport_ptr b r" env e])
  case stopped
  then show ?thesis using accounted_fail [of kThreadStartFailed id] by simp
next
  case invalid
  then show ?thesis using accounted_fail [of kInterconnectInvalidEnvelope count_invalid] by simp
next
  case (unauthenticated validate)
  then show ?thesis using accounted_fail [of kInterconnectInvalidEnvelope count_invalid] by simp
next
  case (canary b1)
  have "tallies b b1" using tallies_quiet [OF canary_quiet [of b env e]] canary(1) by simp
  then show ?thesis unfolding canary(2)
    by (rule accounted_tallies [OF _ accounted_fail]) (use tallies_trans tallies_simps(4,5) in \<open>simp, blast\<close>)
next
  case (duplicate b1 keys)
  have "tallies b b1" using tallies_quiet [OF canary_quiet [of b env e]] duplicate(1) by simp
  then have "tallies b (b1\<lparr>idempotency_recent_keys := keys\<rparr>)" by (simp add: tallies_def)
  then show ?thesis unfolding duplicate(3)
    by (rule accounted_tallies [OF _ accounted_fail]) (use tallies_trans tallies_simps(4,8) in \<open>simp, blast\<close>)
next
  case (sending q b1 keys)
  have qt: "quiet b b1" using canary_quiet [of b env e] sending(5) by simp
  have "transport_at b q \<noteq> None" using sending(2) by (auto simp: transport_ptr_def split: if_splits)
  then have "transport_at (b1\<lparr>idempotency_recent_keys := keys\<rparr>) q \<noteq> None"
    using quiet_fields(2,3) [OF qt] by (cases q) simp_all
  from accounted_encoded [OF this] have "accounted (b1\<lparr>idempotency_recent_keys := keys\<rparr>) (Publish env (transport_ptr b r) e b)"
    unfolding sending(7) .
  moreover have "tallies b (b1\<lparr>idempotency_recent_keys := keys\<rparr>)" using tallies_quiet [OF qt] by (simp add: tallies_def)
  ultimately show ?thesis using accounted_tallies by blast
qed

section \<open>Properties\<close>

text \<open>
  C4: every publication is accounted for. Whatever the state of the bridge, its transports and its clock,
  a publication from either side adds one to exactly one of the two counters: to the sent messages exactly
  when it returns ok (also when the fail-over transport took the message), to the failed ones otherwise;
  and the flow slot it takes is given back on every path, in-flight counts and limits ending as they began.
\<close>

theorem Publish_accounts:
  "case Publish env (transport_ptr b r) e b of (ec, b') \<Rightarrow>
     tx_count (counters b') = tx_count (counters b) + of_bool (ec = kOk) \<and>
     tx_fail_count (counters b') = tx_fail_count (counters b) + of_bool (ec \<noteq> kOk) \<and>
     flow b' = flow b"
  using accounted_Publish [of b env r e] by (simp add: accounted_def split_beta)

end
