(* ===== verification/Bridge_Delivery.thy ===== *)
theory Bridge_Delivery
  imports Bridge_Publish Posix_Message_Queue
begin

text \<open>
  The bridge on transports that keep the contract of \<^verbatim>\<open>ITransport\<close>: what a publication adds to what the
  two transports hold. The client lemmas are proved once in a locale over the contract, which the message
  queue transport provides.
\<close>

section \<open>The bridge over the contract\<close>

definition held :: "('t \<Rightarrow> string multiset) \<Rightarrow> 't option \<Rightarrow> string multiset" where
  "held contents t = (case t of None \<Rightarrow> {#} | Some s \<Rightarrow> contents s)"

definition holdings :: "('t \<Rightarrow> string multiset) \<Rightarrow> ('t, 'w) bridge \<Rightarrow> string multiset" where
  "holdings contents b = held contents (vehicle_to_robot_transport b) + held contents (robot_to_vehicle_transport b)"

locale bridge_transports =
  v2r: message_transport "v2r_ops env" contents + r2v: message_transport "r2v_ops env" contents
  for env :: "'t bridge_env" and contents :: "'t \<Rightarrow> string multiset"
begin

lemma ops_contract: "message_transport (transport_ops env r) contents"
  by (cases r) (simp_all add: v2r.message_transport_axioms r2v.message_transport_axioms)

lemma holdings_set_transport:
  "transport_at b r = Some s \<Longrightarrow> holdings contents (set_transport r s' b) + contents s = holdings contents b + contents s'"
  by (cases r) (simp_all add: holdings_def held_def add.commute add.left_commute)

lemma holdings_same:
  "vehicle_to_robot_transport b' = vehicle_to_robot_transport b \<Longrightarrow> robot_to_vehicle_transport b' = robot_to_vehicle_transport b \<Longrightarrow>
     holdings contents b' = holdings contents b"
  by (simp add: holdings_def)

definition gained :: "string \<Rightarrow> nat \<Rightarrow> ('t, 'w) bridge \<Rightarrow> ErrorCode \<times> ('t, 'w) bridge \<Rightarrow> bool" where
  "gained m n b res \<longleftrightarrow> (\<exists>d. size d \<le> n \<and> holdings contents (snd res) + d = holdings contents b + (if fst res = kOk then {#m#} else {#}))"

lemma gained_send_once:
  assumes "transport_at b r \<noteq> None"
  shows "gained m 0 b (send_once env r m p pol b)"
proof -
  obtain s where s: "transport_at b r = Some s" using assms by auto
  obtain ec s' where e: "SendWithTimeout (transport_ops env r) m p (transport_send_timeout_ms pol) s = (ec, s')" by fastforce
  have "contents s' = contents s + (if ec = kOk then {#m#} else {#})"
    by (rule message_transport.send_effect [OF ops_contract e])
  with holdings_set_transport [OF s, of s'] have "holdings contents (set_transport r s' b) = holdings contents b + (if ec = kOk then {#m#} else {#})"
    by (simp add: union_assoc)
  then show ?thesis using s e by (simp add: gained_def send_once_def on_transport_def)
qed

lemma gained_discard:
  assumes "transport_at b r \<noteq> None" "on_transport r (DiscardOldest (transport_ops env r)) b = (ec, b')"
  shows "\<exists>d. size d \<le> (if ec = kOk then 1 else 0) \<and> holdings contents b' + d = holdings contents b"
proof -
  obtain s where s: "transport_at b r = Some s" using assms by auto
  obtain s' where e: "DiscardOldest (transport_ops env r) s = (ec, s')" "b' = set_transport r s' b"
    using assms(2) s by (auto simp: on_transport_def split: prod.splits)
  have "\<exists>d. size d \<le> (if ec = kOk then 1 else 0) \<and> contents s = contents s' + d"
    using message_transport.discard_ok [OF ops_contract, of r s s'] message_transport.discard_fail [OF ops_contract e(1)] e(1)
    by (cases "ec = kOk") (auto intro: exI [of _ "{#}"])
  then obtain d where "size d \<le> (if ec = kOk then 1 else 0)" "contents s = contents s' + d" by blast
  moreover from this(2) have "holdings contents b' + d + contents s' = holdings contents b + contents s'"
    using holdings_set_transport [OF s, of s'] e(2) by (simp add: ac_simps)
  ultimately show ?thesis by (intro exI [of _ d]) simp
qed

lemma gained_drop_oldest:
  assumes "transport_at b r \<noteq> None" "ec \<noteq> kOk"
  shows "gained m 1 b (drop_oldest_and_resend env r m p pol ec b)"
proof -
  obtain dec b1 where d: "on_transport r (DiscardOldest (transport_ops env r)) b = (dec, b1)" by fastforce
  let ?b2 = "count_up (\<lambda>c. c\<lparr>backpressure_drop_count := backpressure_drop_count c + 1\<rparr>) b1"
  obtain dr where dr: "size dr \<le> (if dec = kOk then 1 else 0)" "holdings contents b1 + dr = holdings contents b"
    using gained_discard [OF assms(1) d] by blast
  have "transport_at b1 r \<noteq> None" using sent_not_null [OF sent_on_transport] d by (metis snd_conv)
  then have "transport_at ?b2 r \<noteq> None" by (cases r) simp_all
  then obtain d0 where "size d0 \<le> 0" "holdings contents (snd (send_once env r m p pol ?b2)) + d0 =
      holdings contents ?b2 + (if fst (send_once env r m p pol ?b2) = kOk then {#m#} else {#})"
    using gained_send_once unfolding gained_def by blast
  moreover have "holdings contents ?b2 = holdings contents b1" by (simp add: holdings_def)
  ultimately have again: "gained m 1 b (send_once env r m p pol ?b2)" if "dec = kOk"
    using dr that unfolding gained_def by (intro exI [of _ dr]) (auto simp: ac_simps)
  have "gained m 1 b (ec, b1)" if "dec \<noteq> kOk" using dr that assms(2) unfolding gained_def by auto
  moreover have "gained m 1 b (ec, b)" using assms(2) unfolding gained_def by (intro exI [of _ "{#}"]) simp
  ultimately show ?thesis using again d by (auto simp: drop_oldest_and_resend_def)
qed

lemma gained_retry_loop:
  "(\<And>b. sent r b (snd (f b)) \<and> (transport_at b r \<noteq> None \<longrightarrow> gained m 0 b (f b))) \<Longrightarrow> transport_at b r \<noteq> None \<Longrightarrow>
     retry_loop f opts n bo sl b = (ec, sl', b') \<Longrightarrow> gained m 0 b (ec, b')"
proof (induction f opts n bo sl b rule: retry_loop.induct)
  case (1 f opts n bo sl b)
  obtain ec1 b1 where s: "f b = (ec1, b1)" by fastforce
  then have nn: "transport_at b1 r \<noteq> None" using 1(2) [of b] sent_not_null by (metis snd_conv)
  have g: "gained m 0 b (ec1, b1)" using 1(2) [of b] 1(3) s by simp
  show ?case
  proof (cases "n \<le> max_retries opts \<and> ec1 = kWouldBlock")
    case True
    then have "gained m 0 b1 (ec, b')" using 1(1) [OF _ refl _ _ _ 1(2) nn] 1(4) s by (subst (asm) retry_loop.simps) simp
    moreover have "holdings contents b1 = holdings contents b" using g True unfolding gained_def by simp
    ultimately show ?thesis unfolding gained_def by simp
  next
    case False
    have "gained m 0 b (kTimeout, b)" unfolding gained_def by simp
    with False 1(4) s g show ?thesis by (subst (asm) retry_loop.simps) (auto split: if_splits)
  qed
qed

lemma gained_trans:
  assumes "gained m i b (ec, b1)" "ec \<noteq> kOk" "gained m j b1 res"
  shows "gained m (i + j) b res"
proof -
  let ?x = "if fst res = kOk then {#m#} else {#}"
  obtain d d' where d: "size d \<le> i" "holdings contents b1 + d = holdings contents b" "size d' \<le> j" "holdings contents (snd res) + d' = holdings contents b1 + ?x"
    using assms unfolding gained_def by auto
  have "holdings contents (snd res) + (d + d') = (holdings contents (snd res) + d') + d" by (simp only: ac_simps)
  also have "\<dots> = (holdings contents b1 + d) + ?x" unfolding d(4) by (simp only: ac_simps)
  finally show ?thesis unfolding gained_def d(2) using d(1,3) by (intro exI [of _ "d + d'"]) simp
qed

lemma gained_mono: "gained m i b res \<Longrightarrow> i \<le> j \<Longrightarrow> gained m j b res"
  unfolding gained_def by (meson le_trans)

lemma gained_PublishWithBackpressure:
  assumes "transport_at b r \<noteq> None"
  shows "gained m 1 b (PublishWithBackpressure env r m p pol b)"
proof -
  obtain ec1 b1 where s: "send_once env r m p pol b = (ec1, b1)" by fastforce
  have g1: "gained m 0 b (ec1, b1)" using gained_send_once [OF assms] s by metis
  have n1: "transport_at b1 r \<noteq> None" using sent_not_null [OF sent_send_once] s by (metis snd_conv)
  show ?thesis
  proof (cases "ec1 = kOk \<or> drop_policy pol = kDropNew")
    case True
    then have "PublishWithBackpressure env r m p pol b = (ec1, b1)" using s by (auto simp: PublishWithBackpressure_def)
    then show ?thesis using gained_mono [OF g1] by simp
  next
    case False
    obtain ec2 b2 where d: "drop_oldest_and_resend env r m p pol ec1 b1 = (ec2, b2)" by fastforce
    have "gained m 1 b1 (ec2, b2)" using gained_drop_oldest [OF n1] False d by metis
    then have g2: "gained m 1 b (ec2, b2)" using gained_trans [OF g1] False by fastforce
    have n2: "transport_at b2 r \<noteq> None" using sent_not_null [OF sent_drop_oldest [OF n1]] d by (metis snd_conv)
    show ?thesis
    proof (cases "PublishWithBackpressure env r m p pol b = (ec2, b2)")
      case True
      then show ?thesis using g2 by simp
    next
      case ret: False
      let ?opts = "\<lparr>max_retries = budget_max_retries (retry_budget pol), initial_backoff_ms = budget_initial_backoff_ms (retry_budget pol),
         max_backoff_ms = budget_max_backoff_ms (retry_budget pol)\<rparr>"
      obtain ec3 sl b3 where r: "RetryOnWouldBlock (Some (send_once env r m p pol)) ?opts b2 = (ec3, sl, b3)" by (metis prod_cases3)
      then have wb: "ec2 = kWouldBlock" "PublishWithBackpressure env r m p pol b = (ec3, b3)"
        and L: "retry_loop (send_once env r m p pol) ?opts 0 (initial_backoff_ms ?opts) [] b2 = (ec3, sl, b3)"
        using ret False s d by (auto simp: PublishWithBackpressure_def Let_def RetryOnWouldBlock_def split: if_splits)
      have "gained m 0 b2 (ec3, b3)"
        by (rule gained_retry_loop [OF _ n2 L]) (simp add: sent_send_once gained_send_once)
      then show ?thesis using gained_trans [OF g2] wb by fastforce
    qed
  qed
qed

lemma holdings_quiet: "quiet b b' \<Longrightarrow> holdings contents b' = holdings contents b"
  by (rule holdings_same) (simp_all add: quiet_fields)

lemma gained_from: "holdings contents b1 = holdings contents b \<Longrightarrow> gained m n b1 res \<Longrightarrow> gained m n b res"
  by (simp add: gained_def)

lemma gained_fail:
  assumes "ec \<noteq> kOk" "\<And>x. holdings contents (f x) = holdings contents x"
  shows "gained m 0 b (publish_fail env f ec b)"
proof -
  let ?b1 = "count_up (\<lambda>c. c\<lparr>tx_fail_count := tx_fail_count c + 1\<rparr>) b"
  have "holdings contents (RefreshAggregatedMetrics env False (f ?b1)) = holdings contents b"
    unfolding holdings_quiet [OF quiet_refresh] assms(2) by (simp add: holdings_def)
  then show ?thesis using assms(1) by (simp add: gained_def publish_fail_def)
qed

lemma gained_ok:
  assumes "holdings contents b2 = holdings contents b1" "gained m n b (kOk, b1)"
  shows "gained m n b (kOk, RefreshAggregatedMetrics env False b2)"
  using assms holdings_quiet [OF quiet_refresh [of b2 env False]] by (simp add: gained_def)

lemma gained_failover:
  assumes "ec \<noteq> kOk" "transport_at b r \<noteq> None"
  shows "gained m 1 b (publish_failover env r m p pol ec b)"
proof -
  let ?b = "b\<lparr>transport_orchestrator := OnPrimarySendFailure (transport_orchestrator b)\<rparr>"
  have hb: "holdings contents ?b = holdings contents b" by (simp add: holdings_def)
  have up: "gained m 0 b1 (publish_fail env (\<lambda>x. count_up (\<lambda>c. c\<lparr>transport_error_count := transport_error_count c + 1\<rparr>) x) ec (set_health 0 0 b1))"
    for b1 :: "('t, 'w) bridge"
    by (rule gained_from [OF _ gained_fail [OF assms(1)]]) (simp_all add: holdings_def set_health_def)
  show ?thesis
  proof (cases "ResolveFailover (transport_orchestrator ?b) (Some r) (transport_ptr ?b V2R) (transport_ptr ?b R2V)
       (failover_from_vehicle_to_robot_enabled (flow ?b)) (failover_from_robot_to_vehicle_enabled (flow ?b))")
    case None
    then show ?thesis using gained_from [OF hb gained_mono [OF up, of 1]] by (simp add: publish_failover_def Let_def)
  next
    case (Some other)
    then have "transport_at ?b other \<noteq> None"
      by (auto simp: ResolveFailover_alt transport_ptr_def split: if_splits)
    obtain fec b1 where P: "PublishWithBackpressure env other m p pol ?b = (fec, b1)" by fastforce
    then have g: "gained m 1 ?b (fec, b1)" using gained_PublishWithBackpressure [OF \<open>transport_at ?b other \<noteq> None\<close>] by metis
    show ?thesis
    proof (cases "fec = kOk")
      case True
      let ?f = "\<lambda>x. count_tx (set_health 0 1 (count_up (\<lambda>c. c\<lparr>failover_hit_count := failover_hit_count c + 1,
         diag_failover_event_count := diag_failover_event_count c + 1\<rparr>) x))"
      have "holdings contents (?f b1) = holdings contents b1" by (simp add: holdings_def count_tx_def set_health_def)
      from gained_ok [OF this] g True Some P gained_from [OF hb] show ?thesis
        by (simp add: publish_failover_def Let_def)
    next
      case False
      from gained_trans [OF g False up [of b1]] Some P False gained_from [OF hb] show ?thesis
        by (simp add: publish_failover_def Let_def)
    qed
  qed
qed

lemma slot_transports: "AcquireFlowSlot t b = (ok, b1) \<Longrightarrow> transport_at b1 q = transport_at b q \<and> holdings contents b1 = holdings contents b"
  by (cases q) (auto simp: AcquireFlowSlot_def Let_def holdings_def split: if_splits)

lemma release_transports: "transport_at (ReleaseFlowSlot t b) q = transport_at b q \<and> holdings contents (ReleaseFlowSlot t b) = holdings contents b"
  by (cases q) (simp_all add: ReleaseFlowSlot_def holdings_def)

lemma gained_encoded:
  assumes "transport_at b r \<noteq> None"
  shows "gained m 2 b (publish_encoded env r e m b)"
proof -
  obtain pol b1 where R: "ResolvePolicy env e b = (pol, b1)" by fastforce
  then have q: "quiet b b1" using quiet_ResolvePolicy by (metis snd_conv)
  define prio where "prio = ResolvePriorityForPublish e (Some r) b1"
  obtain ok b2 where A: "AcquireFlowSlot (Some r) b1 = (ok, b2)" by fastforce
  have "transport_at b1 r \<noteq> None" using assms quiet_fields(2,3) [OF q] by (cases r) simp_all
  then have n2: "transport_at b2 r \<noteq> None" using slot_transports [OF A, of r] by simp
  have h2: "holdings contents b2 = holdings contents b" using slot_transports [OF A] holdings_quiet [OF q] by simp
  obtain ec b3 where P: "PublishWithBackpressure env r m prio pol b2 = (ec, b3)" by fastforce
  have g: "gained m 1 b2 (ec, b3)" using gained_PublishWithBackpressure [OF n2] P by metis
  have n3: "transport_at b3 r \<noteq> None" using sent_not_null [OF sent_PublishWithBackpressure] P by (metis snd_conv)
  let ?b4 = "ReleaseFlowSlot (Some r) b3"
  have "gained m 2 b2 (publish_encoded env r e m b)"
  proof (cases ok)
    case False
    have "gained m 0 b2 (publish_fail env (\<lambda>x. count_up (\<lambda>c. c\<lparr>backpressure_drop_count := backpressure_drop_count c + 1\<rparr>) x) kWouldBlock b2)"
      by (rule gained_fail) (simp_all add: holdings_def)
    then show ?thesis using False R A gained_mono [of m 0 b2 _ 2] by (simp add: publish_encoded_def Let_def)
  next
    case True
    show ?thesis
    proof (cases "ec = kOk")
      case ok: True
      let ?f = "\<lambda>x. count_tx_maps e (count_tx (set_health 1 1 (?b4\<lparr>transport_orchestrator := OnPrimarySendSuccess (transport_orchestrator ?b4)\<rparr>)))"
      have "holdings contents (?f b3) = holdings contents b3" using release_transports [of "Some r" b3 V2R] release_transports [of "Some r" b3 R2V]
        by (simp add: holdings_def count_tx_def count_tx_maps_def set_health_def)
      from gained_ok [OF this, of m 1 b2] g ok R A P \<open>ok\<close> gained_mono [of m 1 b2 _ 2] show ?thesis
        by (simp add: publish_encoded_def Let_def flip: prio_def)
    next
      case False
      have "gained m 1 ?b4 (publish_failover env r m prio pol ec ?b4)"
        using gained_failover [OF False] n3 release_transports by metis
      then have "gained m 1 b3 (publish_failover env r m prio pol ec ?b4)"
        using gained_from release_transports by metis
      from gained_trans [OF g False this] show ?thesis
        using R A P \<open>ok\<close> False by (simp add: publish_encoded_def Let_def numeral_2_eq_2 flip: prio_def)
    qed
  qed
  then show ?thesis by (rule gained_from [OF h2])
qed

lemma gained_Publish:
  "gained (wire_text (ResolveMode (config b) e) e) 2 b (Publish env (transport_ptr b r) e b)" (is "gained ?m 2 b ?res")
proof (cases rule: Publish_cases [of b "transport_ptr b r" env e])
  case stopped
  then show ?thesis using gained_mono [OF gained_fail [of kThreadStartFailed id]] by simp
next
  case invalid
  then show ?thesis by (simp only:) (rule gained_mono [OF gained_fail], simp_all add: count_invalid_def holdings_def)
next
  case (unauthenticated validate)
  then show ?thesis by (simp only:) (rule gained_mono [OF gained_fail], simp_all add: count_invalid_def holdings_def)
next
  case (canary b1)
  have h: "holdings contents b1 = holdings contents b" using holdings_quiet [OF canary_quiet [of b env e]] canary(1) by simp
  show ?thesis unfolding canary(2)
    by (rule gained_from [OF h gained_mono [OF gained_fail]]) (simp_all add: record_event_def NowUnixMs_def holdings_def)
next
  case (duplicate b1 keys)
  have h: "holdings contents (b1\<lparr>idempotency_recent_keys := keys\<rparr>) = holdings contents b"
    using holdings_quiet [OF canary_quiet [of b env e]] duplicate(1) by (simp add: holdings_def)
  show ?thesis unfolding duplicate(3)
    by (rule gained_from [OF h gained_mono [OF gained_fail]]) (simp_all add: record_event_def NowUnixMs_def holdings_def)
next
  case (sending q b1 keys)
  have qt: "quiet b b1" using canary_quiet [of b env e] sending(5) by simp
  have "transport_at b q \<noteq> None" using sending(2) by (auto simp: transport_ptr_def split: if_splits)
  then have "transport_at (b1\<lparr>idempotency_recent_keys := keys\<rparr>) q \<noteq> None"
    using quiet_fields(2,3) [OF qt] by (cases q) simp_all
  from gained_encoded [OF this] have "gained ?m 2 (b1\<lparr>idempotency_recent_keys := keys\<rparr>) ?res" unfolding sending(7) .
  moreover have "holdings contents (b1\<lparr>idempotency_recent_keys := keys\<rparr>) = holdings contents b"
    using holdings_quiet [OF qt] by (simp add: holdings_def)
  ultimately show ?thesis using gained_from by blast
qed

end

section \<open>Bridges on message queues\<close>

definition mq_bridge_env ::
  "'k mq_api \<Rightarrow> (nat \<Rightarrow> u64) \<Rightarrow> (string \<Rightarrow> u64) \<Rightarrow> template_body \<Rightarrow> (string \<Rightarrow> bool)
     \<Rightarrow> ((string \<times> string) list \<Rightarrow> (string \<times> string) list) \<Rightarrow> 'k PosixMessageQueue bridge_env" where
  "mq_bridge_env api clk hash body cw order = \<lparr>v2r_ops = PosixMqTransport api, r2v_ops = PosixMqTransport api, clock = clk,
     string_hash = hash, body_choice = body, can_write_file = cw, field_order = order\<rparr>"

interpretation mqb: bridge_transports "mq_bridge_env ref_api clk hash body cw order" "mq_contents ref_queue" for clk hash body cw order
  by (simp add: bridge_transports_def mq_bridge_env_def ref.contract)

text \<open>A bridge that is up, on the reference kernel, with a default configuration and nothing sent yet.\<close>

definition sample_bridge :: "'t \<Rightarrow> 't \<Rightarrow> 'w \<Rightarrow> ('t, 'w) bridge" where
  "sample_bridge v r w = \<lparr>bridge_running = True, worker_pool = new_pool, vehicle_to_robot_transport = Some v,
     robot_to_vehicle_transport = Some r, transport_orchestrator = new_orchestrator, config = default_BridgeConfig,
     vehicle_router = empty_router, robot_router = empty_router, app = w,
     samples = \<lparr>trace_sample_counter = 0, trace_rate_percent = 10, trace_interval_ms = 2000, sla_violation_interval_ms = 5000,
       report_interval_ms = 1000, last_diagnostics_report_ms = 0, reporting_enabled = False\<rparr>,
     counters = default_BridgeMetrics,
     gates = \<lparr>last_metrics_refresh_ms = 0, last_receive_error_log_ms = 0, last_decode_fail_log_ms = 0,
       last_invalid_envelope_log_ms = 0, last_expired_log_ms = 0, last_trace_id_sample_ms = 0, last_sla_violation_log_ms = 0,
       last_route_miss_log_ms = 0, last_handler_error_log_ms = 0, last_policy_conflict_log_ms = 0\<rparr>,
     policy_cache_state = empty_cache, idempotency_recent_keys = Map.empty, trace_ix = empty_trace_index,
     history = \<lparr>cfg_version = 0, cfg_source = ''direct'', last_known_good_config = default_BridgeConfig,
       last_known_good_version = 0, last_known_good_source = [], last_known_good_signature = 0, last_loaded_signature = 0,
       last_reload_audit_summary = []\<rparr>,
     diagnostics_reporter = None, authenticator = None, lint_report = None,
     flow = \<lparr>flow_limit_vehicle = 256, flow_limit_robot = 256, high_priority_threshold_vehicle = 1,
       high_priority_threshold_robot = 1, failover_from_vehicle_to_robot_enabled = False,
       failover_from_robot_to_vehicle_enabled = False, inflight_vehicle = 0, inflight_robot = 0\<rparr>,
     receive_mode = kLegacyPipe, idempotency_drop_count = 0, diagnostic_snapshot_write_count = 0,
     metrics_aggregator = new_aggregator, capability = initial_capability, disk = Map.empty, ticks = 0\<rparr>"

section \<open>Properties\<close>


definition sample_envelope :: MessageEnvelope where
  "sample_envelope = default_envelope\<lparr>source := ''vehicle'', target := ''robot'', topic := ''brake''\<rparr>"


end
