(* ===== verification/Bridge_Inbound.thy ===== *)
theory Bridge_Inbound
  imports Bridge_Delivery
begin

text \<open>
  The receiving path of \<^verbatim>\<open>interconnect/interconnect_bridge.cpp\<close>: one pass of \<^verbatim>\<open>ProcessInbound\<close>'s loop with
  every \<^verbatim>\<open>continue\<close> of it, and the two loops. Which exit a pass took is returned next to the state. A
  decoder that lets an exception escape ends the process. Sleeping and log lines leave no trace in the
  state; a handler acts on the state of the application, not on the bridge.
\<close>

section \<open>Steps of a pass\<close>

text \<open>Reads the clock and passes the gate in front of a log line.\<close>

definition throttle ::
  "'t bridge_env \<Rightarrow> (log_gates \<Rightarrow> u64) \<Rightarrow> (u64 \<Rightarrow> log_gates \<Rightarrow> log_gates) \<Rightarrow> ('t, 'w) bridge \<Rightarrow> ('t, 'w) bridge" where
  "throttle env get_ms set_ms b0 =
     (case NowUnixMs env b0 of
        (now_ms, b) \<Rightarrow> b\<lparr>gates := set_ms (snd (NextLogAllowedMs (get_ms (gates b)) now_ms kLogThrottleIntervalMs)) (gates b)\<rparr>)"

definition receive_text :: "'t bridge_env \<Rightarrow> tref \<Rightarrow> ('t, 'w) bridge \<Rightarrow> (ErrorCode \<times> string \<times> u32) \<times> ('t, 'w) bridge" where
  "receive_text env r b =
     on_transport r (ReceiveWithTimeout (transport_ops env r) [] 0
       (transport_receive_timeout_ms (default_policy (table_of b)))) b"

definition note_receive_error :: "'t bridge_env \<Rightarrow> ('t, 'w) bridge \<Rightarrow> ('t, 'w) bridge" where
  "note_receive_error env b =
     RefreshAggregatedMetrics env False
       (throttle env last_receive_error_log_ms (\<lambda>t g. g\<lparr>last_receive_error_log_ms := t\<rparr>)
         (count_up (\<lambda>c. c\<lparr>transport_error_count := transport_error_count c + 1\<rparr>) b))"

definition note_decode_failure :: "'t bridge_env \<Rightarrow> ('t, 'w) bridge \<Rightarrow> ('t, 'w) bridge" where
  "note_decode_failure env b =
     RefreshAggregatedMetrics env False
       (throttle env last_decode_fail_log_ms (\<lambda>t g. g\<lparr>last_decode_fail_log_ms := t\<rparr>)
         (count_up (\<lambda>c. c\<lparr>decode_fail_count := decode_fail_count c + 1\<rparr>) b))"

definition note_invalid_envelope :: "'t bridge_env \<Rightarrow> ('t, 'w) bridge \<Rightarrow> ('t, 'w) bridge" where
  "note_invalid_envelope env b =
     RefreshAggregatedMetrics env False
       (throttle env last_invalid_envelope_log_ms (\<lambda>t g. g\<lparr>last_invalid_envelope_log_ms := t\<rparr>)
         (count_up (\<lambda>c. c\<lparr>invalid_envelope_count := invalid_envelope_count c + 1\<rparr>) b))"

definition count_rx_maps :: "MessageEnvelope \<Rightarrow> ('t, 'w) bridge \<Rightarrow> ('t, 'w) bridge" where
  "count_rx_maps e b = count_up (\<lambda>c. c\<lparr>topic_rx_count := bump (topic_rx_count c) (topic e),
     channel_rx_count := bump (channel_rx_count c) (channel e), qos_rx_count := bump (qos_rx_count c) (qos e)\<rparr>) b"

text \<open>The sampling of trace ids: the gate, the counter modulo 100 and the rate.\<close>

definition sample_trace :: "u64 \<Rightarrow> ('t, 'w) bridge \<Rightarrow> ('t, 'w) bridge" where
  "sample_trace now_ms b =
     (case NextLogAllowedMs (last_trace_id_sample_ms (gates b)) now_ms (trace_interval_ms (samples b)) of
        (sample_gate, ts) \<Rightarrow>
          let b1 = b\<lparr>gates := (gates b)\<lparr>last_trace_id_sample_ms := ts\<rparr>\<rparr> in
          if sample_gate = now_ms then
            let k = (trace_sample_counter (samples b1) + 1) mod 100;
                b2 = b1\<lparr>samples := (samples b1)\<lparr>trace_sample_counter := k\<rparr>\<rparr> in
            if k < trace_rate_percent (samples b2)
            then count_up (\<lambda>c. c\<lparr>trace_id_sampled_count := trace_id_sampled_count c + 1\<rparr>) b2 else b2
          else b1)"

definition trace_message :: "'t bridge_env \<Rightarrow> MessageEnvelope \<Rightarrow> ('t, 'w) bridge \<Rightarrow> ('t, 'w) bridge" where
  "trace_message env e b =
     (if trace_id e \<noteq> [] then
        (case NowUnixMs env (count_up (\<lambda>c. c\<lparr>trace_id_present_count := trace_id_present_count c + 1\<rparr>) b) of
           (now_ms, b1) \<Rightarrow>
             let b2 = sample_trace now_ms b1 in
             (case note_trace (trace_id e) now_ms (trace_ix b2) of
                (hit, ix) \<Rightarrow>
                  count_up (\<lambda>c. (if hit then c\<lparr>trace_index_hit_count := trace_index_hit_count c + 1\<rparr>
                                 else c\<lparr>trace_index_miss_count := trace_index_miss_count c + 1\<rparr>)
                      \<lparr>trace_linked_event_count := trace_linked_event_count c + 1\<rparr>)
                    (b2\<lparr>trace_ix := ix\<rparr>)))
      else count_up (\<lambda>c. c\<lparr>trace_id_missing_count := trace_id_missing_count c + 1\<rparr>) b)"

definition note_expired :: "'t bridge_env \<Rightarrow> MessageEnvelope \<Rightarrow> u64 \<Rightarrow> ('t, 'w) bridge \<Rightarrow> ('t, 'w) bridge" where
  "note_expired env e now_ms b0 =
     (let b = count_up (\<lambda>c. c\<lparr>expired_drop_count := expired_drop_count c + 1,
                  topic_expired_drop_count := bump (topic_expired_drop_count c) (topic e),
                  channel_expired_drop_count := bump (channel_expired_drop_count c) (channel e),
                  qos_expired_drop_count := bump (qos_expired_drop_count c) (qos e)\<rparr>) b0;
          b1 = b\<lparr>gates := (gates b)\<lparr>last_expired_log_ms :=
                  snd (NextLogAllowedMs (last_expired_log_ms (gates b)) now_ms kLogThrottleIntervalMs)\<rparr>\<rparr>
      in case NextLogAllowedMs (last_sla_violation_log_ms (gates b1)) now_ms (sla_violation_interval_ms (samples b1)) of
           (r, ts) \<Rightarrow>
             let b2 = b1\<lparr>gates := (gates b1)\<lparr>last_sla_violation_log_ms := ts\<rparr>\<rparr>;
                 b3 = (if r = now_ms
                       then count_up (\<lambda>c. c\<lparr>sla_violation_sampled_count := sla_violation_sampled_count c + 1\<rparr>) b2 else b2)
             in RefreshAggregatedMetrics env False b3)"

definition note_route_miss :: "'t bridge_env \<Rightarrow> u64 \<Rightarrow> ('t, 'w) bridge \<Rightarrow> ('t, 'w) bridge" where
  "note_route_miss env now_ms b0 =
     (let b = count_up (\<lambda>c. c\<lparr>route_miss_count := route_miss_count c + 1,
                  diag_route_event_count := diag_route_event_count c + 1\<rparr>) b0
      in RefreshAggregatedMetrics env False (b\<lparr>gates := (gates b)\<lparr>last_route_miss_log_ms :=
           snd (NextLogAllowedMs (last_route_miss_log_ms (gates b)) now_ms kLogThrottleIntervalMs)\<rparr>\<rparr>))"

definition note_handler_error :: "'t bridge_env \<Rightarrow> u64 \<Rightarrow> ('t, 'w) bridge \<Rightarrow> ('t, 'w) bridge" where
  "note_handler_error env now_ms b0 =
     (let b = count_up (\<lambda>c. c\<lparr>handler_error_count := handler_error_count c + 1,
                  diag_route_event_count := diag_route_event_count c + 1\<rparr>) b0
      in RefreshAggregatedMetrics env False (b\<lparr>gates := (gates b)\<lparr>last_handler_error_log_ms :=
           snd (NextLogAllowedMs (last_handler_error_log_ms (gates b)) now_ms kLogThrottleIntervalMs)\<rparr>\<rparr>))"

definition report_diagnostics :: "'t bridge_env \<Rightarrow> ('t, 'w) bridge \<Rightarrow> ('t, 'w) bridge" where
  "report_diagnostics env b0 =
     (case (reporting_enabled (samples b0), diagnostics_reporter b0) of
        (True, Some submit) \<Rightarrow>
          (case NowUnixMs env b0 of
             (now_ms, b) \<Rightarrow>
               if now_ms - last_diagnostics_report_ms (samples b) \<ge> report_interval_ms (samples b)
               then (case NowUnixMs env b of
                       (export_ms, b1) \<Rightarrow>
                         b1\<lparr>app := submit (ExportJsonLightweight export_ms (metrics_aggregator b1)) (app b1),
                            samples := (samples b1)\<lparr>last_diagnostics_report_ms := now_ms\<rparr>\<rparr>)
               else b)
      | _ \<Rightarrow> b0)"

section \<open>One pass\<close>

datatype inbound_exit = NothingReceived | ReceiveFailed | DecodeFailed | InvalidReceived | ExpiredDropped
  | NoRoute | HandlerFailed | Handled

fun loop_transport :: "inbound_loop \<Rightarrow> tref" where
  "loop_transport VehicleLoop = V2R"
| "loop_transport RobotLoop = R2V"

fun loop_router :: "inbound_loop \<Rightarrow> ('t, 'w) bridge \<Rightarrow> 'w MessageRouter" where
  "loop_router VehicleLoop b = robot_router b"
| "loop_router RobotLoop b = vehicle_router b"

text \<open>From a valid envelope on.\<close>

definition dispatch_envelope ::
  "'t bridge_env \<Rightarrow> inbound_loop \<Rightarrow> MessageEnvelope \<Rightarrow> ('t, 'w) bridge \<Rightarrow> inbound_exit \<times> ('t, 'w) bridge" where
  "dispatch_envelope env l e b =
     (case ResolvePolicy env e (trace_message env e (count_rx_maps e b)) of
        (pol, b1) \<Rightarrow>
          (case NowUnixMs env b1 of
             (now_ms, b2) \<Rightarrow>
               if IsExpired e now_ms (max_end_to_end_latency_ms pol) then (ExpiredDropped, note_expired env e now_ms b2)
               else
                 (case Route (loop_router l b2) e (app b2) of
                    (res, w) \<Rightarrow>
                      let b3 = b2\<lparr>app := w\<rparr> in
                      (case res of
                         route_kNoHandler \<Rightarrow> (NoRoute, note_route_miss env now_ms b3)
                       | route_kHandlerError \<Rightarrow> (HandlerFailed, note_handler_error env now_ms b3)
                       | route_kOk \<Rightarrow> (Handled, report_diagnostics env (RefreshAggregatedMetrics env False b3))))))"

text \<open>A received text.\<close>

definition process_text ::
  "'t bridge_env \<Rightarrow> inbound_loop \<Rightarrow> string \<Rightarrow> ('t, 'w) bridge \<Rightarrow> (inbound_exit \<times> ('t, 'w) bridge) run" where
  "process_text env l s b0 =
     (let b = count_up (\<lambda>c. c\<lparr>rx_count := rx_count c + 1\<rparr>) b0 in
      case DecodeByProtocol (receive_mode b) s (Some default_envelope) of
        Terminated \<Rightarrow> Terminated
      | Completed (decode_ec, out) \<Rightarrow>
          if decode_ec \<noteq> kOk then Completed (DecodeFailed, note_decode_failure env b)
          else if \<not> IsEnvelopeValidForPublish (the out) then Completed (InvalidReceived, note_invalid_envelope env b)
          else Completed (dispatch_envelope env l (the out) b))"

definition inbound_pass ::
  "'t bridge_env \<Rightarrow> inbound_loop \<Rightarrow> ('t, 'w) bridge \<Rightarrow> (inbound_exit \<times> ('t, 'w) bridge) run" where
  "inbound_pass env l b0 =
     (case receive_text env (loop_transport l) b0 of
        ((recv_ec, s, prio), b) \<Rightarrow>
          if recv_ec = kTimeout \<or> recv_ec = kWouldBlock then Completed (NothingReceived, b)
          else if recv_ec \<noteq> kOk then Completed (ReceiveFailed, note_receive_error env b)
          else process_text env l s b)"

text \<open>
  The loop, for a bounded number of passes: it goes on while the bridge runs, which only another thread
  changes. The exits of the passes are collected.
\<close>

fun ProcessInbound ::
  "'t bridge_env \<Rightarrow> inbound_loop \<Rightarrow> nat \<Rightarrow> ('t, 'w) bridge \<Rightarrow> (inbound_exit list \<times> ('t, 'w) bridge) run" where
  "ProcessInbound env l 0 b = Completed ([], b)"
| "ProcessInbound env l (Suc n) b =
     (if \<not> bridge_running b then Completed ([], b)
      else case inbound_pass env l b of
        Terminated \<Rightarrow> Terminated
      | Completed (x, b1) \<Rightarrow>
          (case ProcessInbound env l n b1 of
             Terminated \<Rightarrow> Terminated
           | Completed (xs, b2) \<Rightarrow> Completed (x # xs, b2)))"

section \<open>Frames\<close>

text \<open>Housekeeping of the receiving path may also touch the trace index and the sampling state.\<close>

definition calm :: "('t, 'w) bridge \<Rightarrow> ('t, 'w) bridge \<Rightarrow> bool" where
  "calm b b' \<longleftrightarrow> (\<exists>ix sm. quiet (b\<lparr>trace_ix := ix, samples := sm\<rparr>) b')"

lemma quiet_calm: "quiet b b' \<Longrightarrow> calm b b'"
  unfolding calm_def by (rule exI [of _ "trace_ix b"], rule exI [of _ "samples b"]) simp

lemma quiet_with_trace: "quiet a b \<Longrightarrow> quiet (a\<lparr>trace_ix := ix, samples := sm\<rparr>) (b\<lparr>trace_ix := ix, samples := sm\<rparr>)"
  by (drule quietD) (auto simp: quiet_def steady_def)

lemma calm_trans: "calm a b \<Longrightarrow> calm b c \<Longrightarrow> calm a c"
proof -
  assume "calm a b" "calm b c"
  then obtain ix sm ix' sm' where q: "quiet (a\<lparr>trace_ix := ix, samples := sm\<rparr>) b" "quiet (b\<lparr>trace_ix := ix', samples := sm'\<rparr>) c"
    unfolding calm_def by blast
  from quiet_trans [OF quiet_with_trace [OF q(1)] q(2)] show ?thesis unfolding calm_def by auto
qed

lemma calm_fields:
  assumes "calm b b'"
  shows "bridge_running b' = bridge_running b" "vehicle_to_robot_transport b' = vehicle_to_robot_transport b"
    "robot_to_vehicle_transport b' = robot_to_vehicle_transport b" "config b' = config b" "flow b' = flow b"
    "app b' = app b" "history b' = history b" "receive_mode b' = receive_mode b"
    "vehicle_router b' = vehicle_router b" "robot_router b' = robot_router b"
    "diagnostics_reporter b' = diagnostics_reporter b" "traffic (counters b') = traffic (counters b)"
  using assms by (auto simp: calm_def quiet_fields) (simp add: quiet_def)

lemma calm_count:
  assumes "traffic (f (counters b)) = traffic (counters b)"
  shows "calm b (b\<lparr>counters := f (counters b)\<rparr>)"
  using assms by (intro quiet_calm) (simp add: quiet_def steady_def)

lemma quiet_throttle: "quiet b (throttle env g s b)"
  by (simp add: throttle_def NowUnixMs_def quiet_def steady_def)

lemma quiet_throttled_refresh: "quiet b (RefreshAggregatedMetrics env force (throttle env g s b))"
  using quiet_trans [OF quiet_throttle quiet_refresh] .

lemma calm_sample_trace: "calm b (sample_trace now b)"
proof -
  have "quiet (b\<lparr>trace_ix := trace_ix b, samples := samples (sample_trace now b)\<rparr>) (sample_trace now b)"
    by (simp add: sample_trace_def quiet_def steady_def traffic_def Let_def split: prod.split)
  then show ?thesis unfolding calm_def by blast
qed

lemma calm_trace_message: "calm b (trace_message env e b)"
proof (cases "trace_id e = []")
  case True
  then show ?thesis by (simp add: trace_message_def calm_count traffic_def)
next
  case False
  define b1 where "b1 = snd (NowUnixMs env (count_up (\<lambda>c. c\<lparr>trace_id_present_count := trace_id_present_count c + 1\<rparr>) b))"
  define now where "now = clock env (ticks b)"
  define b2 where "b2 = sample_trace now b1"
  have "calm b b1" unfolding b1_def
    by (intro quiet_calm) (simp add: NowUnixMs_def quiet_def steady_def traffic_def)
  moreover have "calm b1 b2" unfolding b2_def by (rule calm_sample_trace)
  moreover have "quiet (b2\<lparr>trace_ix := trace_ix (trace_message env e b), samples := samples b2\<rparr>) (trace_message env e b)"
    using False unfolding b2_def b1_def now_def
    by (simp add: trace_message_def NowUnixMs_def Let_def quiet_def steady_def traffic_def split: prod.split)
  then have "calm b2 (trace_message env e b)" unfolding calm_def by blast
  ultimately show ?thesis using calm_trans by blast
qed

lemma calm_count_rx_maps: "calm b (count_rx_maps e b)"
  by (rule quiet_calm) (simp add: count_rx_maps_def quiet_def steady_def traffic_def)

lemma quiet_note_expired: "quiet (count_up (\<lambda>c. c\<lparr>expired_drop_count := expired_drop_count c + 1\<rparr>) b) (note_expired env e now b)"
proof -
  obtain r ts where n: "NextLogAllowedMs (last_sla_violation_log_ms (gates b)) now (sla_violation_interval_ms (samples b)) = (r, ts)"
    by fastforce
  show ?thesis unfolding note_expired_def Let_def
    by (simp add: n, intro conjI impI; rule quiet_trans [OF _ quiet_refresh]; simp add: quiet_def steady_def traffic_def)
qed

lemma quiet_note_route_miss: "quiet (count_up (\<lambda>c. c\<lparr>route_miss_count := route_miss_count c + 1\<rparr>) b) (note_route_miss env now b)"
  unfolding note_route_miss_def Let_def by (rule quiet_trans [OF _ quiet_refresh]) (simp add: quiet_def steady_def traffic_def)

lemma quiet_note_handler_error: "quiet (count_up (\<lambda>c. c\<lparr>handler_error_count := handler_error_count c + 1\<rparr>) b) (note_handler_error env now b)"
  unfolding note_handler_error_def Let_def by (rule quiet_trans [OF _ quiet_refresh]) (simp add: quiet_def steady_def traffic_def)

lemma quiet_note_receive_error:
  "quiet (count_up (\<lambda>c. c\<lparr>transport_error_count := transport_error_count c + 1\<rparr>) b) (note_receive_error env b)"
  unfolding note_receive_error_def by (rule quiet_throttled_refresh)

lemma quiet_note_decode_failure:
  "quiet (count_up (\<lambda>c. c\<lparr>decode_fail_count := decode_fail_count c + 1\<rparr>) b) (note_decode_failure env b)"
  unfolding note_decode_failure_def by (rule quiet_throttled_refresh)

lemma quiet_note_invalid_envelope:
  "quiet (count_up (\<lambda>c. c\<lparr>invalid_envelope_count := invalid_envelope_count c + 1\<rparr>) b) (note_invalid_envelope env b)"
  unfolding note_invalid_envelope_def by (rule quiet_throttled_refresh)

text \<open>Reporting acts on the application, through the reporter, and on the time of the last report.\<close>

lemma calm_report: "calm (b\<lparr>app := app (report_diagnostics env b)\<rparr>) (report_diagnostics env b)"
proof -
  have "quiet ((b\<lparr>app := app (report_diagnostics env b)\<rparr>)\<lparr>trace_ix := trace_ix b, samples := samples (report_diagnostics env b)\<rparr>)
      (report_diagnostics env b)"
    by (simp add: report_diagnostics_def NowUnixMs_def quiet_def steady_def split: option.split bool.split)
  then show ?thesis unfolding calm_def by blast
qed

lemma report_off: "diagnostics_reporter b = None \<Longrightarrow> report_diagnostics env b = b"
  by (simp add: report_diagnostics_def split: bool.split)

section \<open>Accounting\<close>

text \<open>What a pass that leaves through an exit adds to the counters of traffic.\<close>

fun exit_counts :: "inbound_exit \<Rightarrow> BridgeMetrics \<Rightarrow> BridgeMetrics" where
  "exit_counts NothingReceived c = c"
| "exit_counts ReceiveFailed c = c\<lparr>transport_error_count := transport_error_count c + 1\<rparr>"
| "exit_counts DecodeFailed c = c\<lparr>rx_count := rx_count c + 1, decode_fail_count := decode_fail_count c + 1\<rparr>"
| "exit_counts InvalidReceived c = c\<lparr>rx_count := rx_count c + 1, invalid_envelope_count := invalid_envelope_count c + 1\<rparr>"
| "exit_counts ExpiredDropped c = c\<lparr>rx_count := rx_count c + 1, expired_drop_count := expired_drop_count c + 1\<rparr>"
| "exit_counts NoRoute c = c\<lparr>rx_count := rx_count c + 1, route_miss_count := route_miss_count c + 1\<rparr>"
| "exit_counts HandlerFailed c = c\<lparr>rx_count := rx_count c + 1, handler_error_count := handler_error_count c + 1\<rparr>"
| "exit_counts Handled c = c\<lparr>rx_count := rx_count c + 1\<rparr>"

lemma exit_counts_cong: "traffic c = traffic d \<Longrightarrow> traffic (exit_counts x c) = traffic (exit_counts x d)"
  by (cases x) (simp_all add: traffic_def)

text \<open>A pass from a valid envelope on, with the result of the route.\<close>

lemma dispatch_cases:
  obtains (expired) b1 now pol where "calm b b1" "fst (ResolvePolicy env e (trace_message env e (count_rx_maps e b))) = pol"
      "IsExpired e now (max_end_to_end_latency_ms pol)" "dispatch_envelope env l e b = (ExpiredDropped, note_expired env e now b1)"
  | (routed) b1 now pol res w where "calm b b1" "fst (ResolvePolicy env e (trace_message env e (count_rx_maps e b))) = pol"
      "\<not> IsExpired e now (max_end_to_end_latency_ms pol)"
      "Route (loop_router l b) e (app b) = (res, w)"
      "dispatch_envelope env l e b =
         (case res of route_kNoHandler \<Rightarrow> (NoRoute, note_route_miss env now (b1\<lparr>app := w\<rparr>))
          | route_kHandlerError \<Rightarrow> (HandlerFailed, note_handler_error env now (b1\<lparr>app := w\<rparr>))
          | route_kOk \<Rightarrow> (Handled, report_diagnostics env (RefreshAggregatedMetrics env False (b1\<lparr>app := w\<rparr>))))"
proof -
  obtain pol b1 where R: "ResolvePolicy env e (trace_message env e (count_rx_maps e b)) = (pol, b1)" by fastforce
  have "calm b b1"
    using calm_trans [OF calm_trans [OF calm_count_rx_maps calm_trace_message] quiet_calm [OF quiet_ResolvePolicy]] R by (metis snd_conv)
  moreover obtain now b2 where N: "NowUnixMs env b1 = (now, b2)" by fastforce
  moreover from this have "calm b1 b2" using quiet_calm [OF quiet_now [of b1 env]] by simp
  ultimately have c: "calm b b2" using calm_trans by blast
  have r: "loop_router l b2 = loop_router l b" "app b2 = app b" using calm_fields [OF c] by (cases l; simp)+
  obtain res w where "Route (loop_router l b) e (app b) = (res, w)" by fastforce
  then show ?thesis using that c R N r
    by (cases "IsExpired e now (max_end_to_end_latency_ms pol)")
      (auto simp: dispatch_envelope_def Let_def)
qed

text \<open>What a pass keeps: everything but counters, gates, caches, traces, the application and its transport.\<close>

definition core :: "('t, 'w) bridge \<Rightarrow> _" where
  "core b = (bridge_running b, config b, flow b, history b, receive_mode b, vehicle_router b, robot_router b,
     diagnostics_reporter b)"

lemma calm_core: "calm b b' \<Longrightarrow> core b' = core b"
  by (simp add: core_def calm_fields)

lemma calm_transport: "calm b b' \<Longrightarrow> transport_at b' r = transport_at b r"
  by (cases r) (simp_all add: calm_fields)

lemma core_counters [simp]: "core (b\<lparr>counters := c\<rparr>) = core b" "transport_at (b\<lparr>counters := c\<rparr>) r = transport_at b r"
  by (simp add: core_def) (cases r; simp)

definition accounted_pass :: "inbound_exit \<Rightarrow> ('t, 'w) bridge \<Rightarrow> ('t, 'w) bridge \<Rightarrow> bool" where
  "accounted_pass x b b' \<longleftrightarrow> traffic (counters b') = traffic (exit_counts x (counters b)) \<and> core b' = core b \<and>
     (\<forall>r. transport_at b' r = transport_at b r)"

lemma accounted_calm:
  assumes "calm (b1\<lparr>counters := c, app := w\<rparr>) b'" "calm b b1"
    "traffic (c) = traffic (exit_counts x (counters b0))" "core b = core b0" "\<And>r. transport_at b r = transport_at b0 r"
  shows "accounted_pass x b0 b'"
proof -
  have "transport_at (b1\<lparr>counters := c, app := w\<rparr>) r = transport_at b1 r" for r by (cases r) simp_all
  moreover have "core (b1\<lparr>counters := c, app := w\<rparr>) = core b1" by (simp add: core_def)
  ultimately show ?thesis
    using calm_core [OF assms(1)] calm_core [OF assms(2)] calm_transport [OF assms(1)] calm_transport [OF assms(2)] calm_fields(12) [OF assms(1)] assms(3-5)
    by (simp add: accounted_pass_def)
qed

lemma quiet_app1: "quiet (b\<lparr>counters := c\<rparr>) b' \<Longrightarrow> calm (b\<lparr>counters := c, app := app b\<rparr>) b'"
  by (rule quiet_calm) simp

lemma quiet_app2:
  assumes "quiet (b\<lparr>app := w, counters := c\<rparr>) b'"
  shows "calm (b\<lparr>counters := c, app := w\<rparr>) b'"
proof -
  have "b\<lparr>counters := c, app := w\<rparr> = b\<lparr>app := w, counters := c\<rparr>" by simp
  then show ?thesis using quiet_calm [OF assms] by (simp only:)
qed

lemma dispatch_accounted:
  assumes "dispatch_envelope env l e (count_up (\<lambda>c. c\<lparr>rx_count := rx_count c + 1\<rparr>) b) = (x, b')"
  shows "accounted_pass x b b'"
proof -
  let ?b = "count_up (\<lambda>c. c\<lparr>rx_count := rx_count c + 1\<rparr>) b"
  have t: "traffic (counters b1) = traffic (counters ?b)" if "calm ?b b1" for b1 using calm_fields(12) [OF that] .
  show ?thesis
  proof (cases rule: dispatch_cases [of ?b env e l])
    case (expired b1 now pol)
    show ?thesis
    proof (rule accounted_calm [OF quiet_app1 expired(1) _ core_counters])
      show "quiet (b1\<lparr>counters := (counters b1)\<lparr>expired_drop_count := expired_drop_count (counters b1) + 1\<rparr>\<rparr>) b'"
        using expired(4) assms quiet_note_expired [of b1 env e now] by simp
    qed (use t [OF expired(1)] expired(4) assms in \<open>simp add: traffic_def\<close>)
  next
    case (routed b1 now pol res w)
    show ?thesis
    proof (cases res)
      case route_kNoHandler
      show ?thesis
      proof (rule accounted_calm [OF quiet_app2 routed(1) _ core_counters])
        show "quiet (b1\<lparr>app := w, counters := (counters b1)\<lparr>route_miss_count := route_miss_count (counters b1) + 1\<rparr>\<rparr>) b'"
          using routed(5) route_kNoHandler assms quiet_note_route_miss [of "b1\<lparr>app := w\<rparr>" env now] by simp
      qed (use t [OF routed(1)] routed(5) route_kNoHandler assms in \<open>simp add: traffic_def\<close>)
    next
      case route_kHandlerError
      show ?thesis
      proof (rule accounted_calm [OF quiet_app2 routed(1) _ core_counters])
        show "quiet (b1\<lparr>app := w, counters := (counters b1)\<lparr>handler_error_count := handler_error_count (counters b1) + 1\<rparr>\<rparr>) b'"
          using routed(5) route_kHandlerError assms quiet_note_handler_error [of "b1\<lparr>app := w\<rparr>" env now] by simp
      qed (use t [OF routed(1)] routed(5) route_kHandlerError assms in \<open>simp add: traffic_def\<close>)
    next
      case route_kOk
      define b2 where "b2 = RefreshAggregatedMetrics env False (b1\<lparr>app := w\<rparr>)"
      have b': "b' = report_diagnostics env b2" "x = Handled" using routed(5) route_kOk assms by (simp_all add: b2_def)
      have "quiet (b1\<lparr>app := w\<rparr>) b2" unfolding b2_def by (rule quiet_refresh)
      then have "calm (b1\<lparr>counters := counters b1, app := app b'\<rparr>) (b2\<lparr>app := app b'\<rparr>)"
        by (intro quiet_calm) (drule quietD, auto simp: quiet_def steady_def)
      then have c: "calm (b1\<lparr>counters := counters b1, app := app b'\<rparr>) b'"
        using calm_report [of env b2] calm_trans b'(1) by metis
      show ?thesis by (rule accounted_calm [OF c routed(1) _ core_counters]) (use t [OF routed(1)] b'(2) in \<open>simp add: traffic_def\<close>)
    qed
  qed
qed

lemma quiet_accounted:
  assumes "quiet (b\<lparr>counters := c\<rparr>) b'" "traffic c = traffic (exit_counts x (counters b))"
  shows "accounted_pass x b b'"
  using calm_core [OF quiet_calm [OF assms(1)]] calm_transport [OF quiet_calm [OF assms(1)]]
    calm_fields(12) [OF quiet_calm [OF assms(1)]] assms(2) by (simp add: accounted_pass_def)

lemma process_text_accounted:
  assumes "process_text env l s b = Completed (x, b')"
  shows "accounted_pass x b b'"
proof -
  let ?b = "count_up (\<lambda>c. c\<lparr>rx_count := rx_count c + 1\<rparr>) b"
  have dec: "accounted_pass DecodeFailed b (note_decode_failure env ?b)"
    using quiet_note_decode_failure [of ?b env]
      quiet_accounted [of "(counters b)\<lparr>rx_count := rx_count (counters b) + 1, decode_fail_count := decode_fail_count (counters b) + 1\<rparr>" b]
    by simp
  have inv: "accounted_pass InvalidReceived b (note_invalid_envelope env ?b)"
    using quiet_note_invalid_envelope [of ?b env]
      quiet_accounted [of "(counters b)\<lparr>rx_count := rx_count (counters b) + 1, invalid_envelope_count := invalid_envelope_count (counters b) + 1\<rparr>" b]
    by simp
  from assms dec inv show ?thesis
    by (auto simp: process_text_def Let_def intro: dispatch_accounted split: run.splits if_splits)
qed

text \<open>A pass: receiving, which touches the transport of the loop alone, then the rest.\<close>

lemma receive_text_state:
  assumes "receive_text env r b = (res, b1)"
  shows "\<exists>s. b1 = set_transport r s b"
  using assms by (auto simp: receive_text_def on_transport_def split: prod.splits)

lemma set_transport_core [simp]: "core (set_transport r s b) = core b" "counters (set_transport r s b) = counters b"
  "transport_at (set_transport r s b) q = (if q = r then Some s else transport_at b q)" "app (set_transport r s b) = app b"
  by (cases r; cases q; simp add: core_def)+

lemma inbound_pass_accounted:
  assumes "inbound_pass env l b = Completed (x, b')"
  shows "traffic (counters b') = traffic (exit_counts x (counters b)) \<and> core b' = core b \<and>
    (\<forall>r. r \<noteq> loop_transport l \<longrightarrow> transport_at b' r = transport_at b r)"
proof -
  obtain ec s p b1 where R: "receive_text env (loop_transport l) b = ((ec, s, p), b1)" by (metis prod.collapse)
  obtain t where b1: "b1 = set_transport (loop_transport l) t b" using receive_text_state [OF R] by blast
  have "accounted_pass x b1 b'"
  proof (cases "ec = kTimeout \<or> ec = kWouldBlock")
    case True
    then show ?thesis using assms R by (auto simp: inbound_pass_def accounted_pass_def)
  next
    case no: False
    show ?thesis
    proof (cases "ec = kOk")
      case True
      then show ?thesis using assms R by (auto simp: inbound_pass_def intro: process_text_accounted)
    next
      case False
      then have "x = ReceiveFailed" "b' = note_receive_error env b1" using assms R no by (auto simp: inbound_pass_def)
      then show ?thesis using quiet_note_receive_error [of b1 env] by (intro quiet_accounted) simp_all
    qed
  qed
  then show ?thesis by (simp add: accounted_pass_def b1)
qed

lemma fold_exit_counts_cong:
  "traffic c = traffic d \<Longrightarrow> traffic (fold exit_counts xs c) = traffic (fold exit_counts xs d)"
proof (induction xs arbitrary: c d)
  case (Cons x xs)
  from Cons.IH [OF exit_counts_cong [OF Cons.prems]] show ?case by simp
qed simp

lemma ProcessInbound_accounted:
  "ProcessInbound env l n b = Completed (xs, b') \<Longrightarrow>
     traffic (counters b') = traffic (fold exit_counts xs (counters b)) \<and> core b' = core b"
proof (induction env l n b arbitrary: xs b' rule: ProcessInbound.induct)
  case (2 env l n b)
  show ?case
  proof (cases "bridge_running b")
    case False
    then show ?thesis using 2(2) by simp
  next
    case True
    then obtain x b1 ys where P: "inbound_pass env l b = Completed (x, b1)" "ProcessInbound env l n b1 = Completed (ys, b')" "xs = x # ys"
      using 2(2) by (auto split: run.splits prod.splits)
    have "traffic (counters b') = traffic (fold exit_counts ys (counters b1)) \<and> core b' = core b1"
      using 2(1) [OF _ P(1) refl P(2)] True by blast
    then show ?thesis using inbound_pass_accounted [OF P(1)] P(3) fold_exit_counts_cong [of "counters b1" "exit_counts x (counters b)" ys]
      by simp
  qed
qed simp

definition was_received :: "inbound_exit \<Rightarrow> bool" where
  "was_received x \<longleftrightarrow> x \<noteq> NothingReceived \<and> x \<noteq> ReceiveFailed"

lemma fold_exit_counts:
  "rx_count (fold exit_counts xs c) = rx_count c + of_nat (length (filter was_received xs))"
  "decode_fail_count (fold exit_counts xs c) = decode_fail_count c + of_nat (count_list xs DecodeFailed)"
  "invalid_envelope_count (fold exit_counts xs c) = invalid_envelope_count c + of_nat (count_list xs InvalidReceived)"
  "expired_drop_count (fold exit_counts xs c) = expired_drop_count c + of_nat (count_list xs ExpiredDropped)"
  "route_miss_count (fold exit_counts xs c) = route_miss_count c + of_nat (count_list xs NoRoute)"
  "handler_error_count (fold exit_counts xs c) = handler_error_count c + of_nat (count_list xs HandlerFailed)"
  "transport_error_count (fold exit_counts xs c) = transport_error_count c + of_nat (count_list xs ReceiveFailed)"
  "tx_count (fold exit_counts xs c) = tx_count c" "tx_fail_count (fold exit_counts xs c) = tx_fail_count c"
proof (induction xs arbitrary: c)
  case (Cons x xs)
  case 1 show ?case using Cons(1) by (cases x) (simp_all add: was_received_def add.commute add.left_commute)
  case 2 show ?case using Cons(2) by (cases x) simp_all
  case 3 show ?case using Cons(3) by (cases x) simp_all
  case 4 show ?case using Cons(4) by (cases x) simp_all
  case 5 show ?case using Cons(5) by (cases x) simp_all
  case 6 show ?case using Cons(6) by (cases x) simp_all
  case 7 show ?case using Cons(7) by (cases x) simp_all
  case 8 show ?case using Cons(8) by (cases x) simp_all
  case 9 show ?case using Cons(9) by (cases x) simp_all
qed simp_all

section \<open>Properties\<close>

text \<open>
  C7: every received message is accounted for. Over any number of passes of an inbound loop, whatever the
  transports, the clock and the handlers do: the received counter grows by the number of texts taken from the
  transport, and each of them that was not handled is counted exactly once, under the reason it was not
  (decoding, validity, expiry, no handler, a handler that threw); a failed receive is a transport error; the
  counters of publications, the flow slots and the configuration are untouched.
\<close>

theorem Inbound_accounts:
  assumes "ProcessInbound env l n b = Completed (xs, b')"
  shows "rx_count (counters b') = rx_count (counters b) + of_nat (length (filter was_received xs)) \<and>
    rx_count (counters b') - rx_count (counters b) =
      (decode_fail_count (counters b') - decode_fail_count (counters b)) +
      (invalid_envelope_count (counters b') - invalid_envelope_count (counters b)) +
      (expired_drop_count (counters b') - expired_drop_count (counters b)) +
      (route_miss_count (counters b') - route_miss_count (counters b)) +
      (handler_error_count (counters b') - handler_error_count (counters b)) + of_nat (count_list xs Handled) \<and>
    transport_error_count (counters b') = transport_error_count (counters b) + of_nat (count_list xs ReceiveFailed) \<and>
    tx_count (counters b') = tx_count (counters b) \<and> tx_fail_count (counters b') = tx_fail_count (counters b) \<and>
    flow b' = flow b \<and> config b' = config b"
proof -
  have "length (filter was_received xs) = count_list xs DecodeFailed + count_list xs InvalidReceived + count_list xs ExpiredDropped
      + count_list xs NoRoute + count_list xs HandlerFailed + count_list xs Handled"
  proof (induction xs)
    case (Cons x xs)
    then show ?case by (cases x) (simp_all add: was_received_def)
  qed simp
  moreover have "traffic (counters b') = traffic (fold exit_counts xs (counters b))" "core b' = core b"
    using ProcessInbound_accounted [OF assms] by simp_all
  ultimately show ?thesis by (simp add: traffic_def fold_exit_counts core_def)
qed

text \<open>A bridge whose vehicle queue holds a text that is no message.\<close>

definition noisy_bridge :: "(ref_state PosixMessageQueue, unit) bridge" where
  "noisy_bridge = sample_bridge (ref_transport_queue [(c_bytes ''x'', 0)]) (ref_transport_queue []) ()"

definition quiet_env :: "ref_state PosixMessageQueue bridge_env" where
  "quiet_env = mq_bridge_env ref_api (\<lambda>_. 0) (\<lambda>_. 0) FirstBody (\<lambda>_. False) id"

theorem Inbound_accounts_witness:
  "\<exists>b'. ProcessInbound quiet_env VehicleLoop 1 noisy_bridge = Completed ([DecodeFailed], b') \<and> rx_count (counters b') = 1"
proof -
  have r: "\<exists>p b1. receive_text quiet_env V2R noisy_bridge = ((kOk, ''x'', p), b1) \<and> receive_mode b1 = kLegacyPipe"
    by (simp add: receive_text_def on_transport_def quiet_env_def mq_bridge_env_def noisy_bridge_def sample_bridge_def
        PosixMqTransport_def mq_ReceiveWithTimeout_def ref_transport_queue_def ref_api_def c_string_def c_bytes_def
        default_BridgeConfig_def default_PolicyTable_def default_SlaPolicy_def)
  moreover have "DecodeByProtocol kLegacyPipe ''x'' (Some default_envelope) = Completed (kInvalidParam, Some default_envelope)"
    by code_simp
  ultimately obtain b' where P: "ProcessInbound quiet_env VehicleLoop 1 noisy_bridge = Completed ([DecodeFailed], b')"
    by (auto simp: inbound_pass_def process_text_def Let_def noisy_bridge_def sample_bridge_def)
  moreover have "rx_count (counters noisy_bridge) = 0" by (simp add: noisy_bridge_def sample_bridge_def default_BridgeMetrics_def)
  ultimately show ?thesis using Inbound_accounts [OF P] by (simp add: was_received_def)
qed

end
