(* ===== verification/Bridge_Lifecycle.thy ===== *)
theory Bridge_Lifecycle
  imports Bridge_Inbound
begin

text \<open>
  The life of a bridge (\<^verbatim>\<open>interconnect/interconnect_bridge.cpp\<close>): construction, \<^verbatim>\<open>Start\<close> from a provider and
  from a configuration, \<^verbatim>\<open>Stop\<close>, and \<^verbatim>\<open>ReloadConfigIfChanged\<close> with its guards, its commit and its roll-back.
\<close>

section \<open>Construction\<close>

definition kTraceIdSampleRatePercentDefault :: u32 where "kTraceIdSampleRatePercentDefault = 10"

definition new_bridge :: "'t option \<Rightarrow> 't option \<Rightarrow> 'w \<Rightarrow> ('t, 'w) bridge" where
  "new_bridge v r w = \<lparr>bridge_running = False, worker_pool = new_pool, vehicle_to_robot_transport = v,
     robot_to_vehicle_transport = r, transport_orchestrator = new_orchestrator, config = default_BridgeConfig,
     vehicle_router = empty_router, robot_router = empty_router, app = w,
     samples = \<lparr>trace_sample_counter = 0, trace_rate_percent = kTraceIdSampleRatePercentDefault,
       trace_interval_ms = kTraceIdSampleIntervalMsDefault, sla_violation_interval_ms = kSlaViolationSampleIntervalMsDefault,
       report_interval_ms = 1000, last_diagnostics_report_ms = 0, reporting_enabled = False\<rparr>,
     counters = default_BridgeMetrics\<lparr>transport_primary_healthy := 1, transport_secondary_healthy := 1\<rparr>,
     gates = \<lparr>last_metrics_refresh_ms = 0, last_receive_error_log_ms = 0, last_decode_fail_log_ms = 0,
       last_invalid_envelope_log_ms = 0, last_expired_log_ms = 0, last_trace_id_sample_ms = 0, last_sla_violation_log_ms = 0,
       last_route_miss_log_ms = 0, last_handler_error_log_ms = 0, last_policy_conflict_log_ms = 0\<rparr>,
     policy_cache_state = empty_cache, idempotency_recent_keys = Map.empty, trace_ix = empty_trace_index,
     history = \<lparr>cfg_version = 0, cfg_source = [], last_known_good_config = default_BridgeConfig,
       last_known_good_version = 0, last_known_good_source = [], last_known_good_signature = 0, last_loaded_signature = 0,
       last_reload_audit_summary = []\<rparr>,
     diagnostics_reporter = None, authenticator = None, lint_report = None,
     flow = \<lparr>flow_limit_vehicle = 256, flow_limit_robot = 256, high_priority_threshold_vehicle = 1,
       high_priority_threshold_robot = 1, failover_from_vehicle_to_robot_enabled = False,
       failover_from_robot_to_vehicle_enabled = False, inflight_vehicle = 0, inflight_robot = 0\<rparr>,
     receive_mode = kLegacyPipe, idempotency_drop_count = 0, diagnostic_snapshot_write_count = 0,
     metrics_aggregator = new_aggregator, capability = initial_capability, disk = Map.empty, ticks = 0\<rparr>"

section \<open>Starting\<close>

text \<open>The sampling and reporting intervals of a configuration, zero standing for the defaults.\<close>

definition sampling_of :: "BridgeConfig \<Rightarrow> sampling \<Rightarrow> sampling" where
  "sampling_of c sm = sm\<lparr>
     trace_rate_percent := min (trace_sample_rate_percent c) 100,
     trace_interval_ms := (if trace_sample_interval_ms c = 0 then kTraceIdSampleIntervalMsDefault else trace_sample_interval_ms c),
     sla_violation_interval_ms := (if sla_violation_sample_interval_ms c = 0 then kSlaViolationSampleIntervalMsDefault
        else sla_violation_sample_interval_ms c),
     report_interval_ms := (if diagnostics_report_interval_ms c = 0 then 1000 else diagnostics_report_interval_ms c),
     reporting_enabled := enable_diagnostics_reporting c\<rparr>"

text \<open>The configuration becomes current, and the last known good one if there was none.\<close>

definition adopt_config :: "'t bridge_env \<Rightarrow> BridgeConfig \<Rightarrow> ('t, 'w) bridge \<Rightarrow> ('t, 'w) bridge" where
  "adopt_config env c b0 =
     (let cfg = normalize c; b = b0\<lparr>config := cfg\<rparr>; h = history b;
          sg = ComputePolicySignature (string_hash env) (policy_table cfg);
          h' = (if last_known_good_version h = 0
                then h\<lparr>last_known_good_config := cfg, last_known_good_version := cfg_version h,
                       last_known_good_source := cfg_source h, last_known_good_signature := sg, last_loaded_signature := sg\<rparr>
                else h)
      in RebuildPolicyIndex (PopulateTemplates env
           (b\<lparr>history := h', samples := sampling_of cfg (samples b), receive_mode := protocol_mode cfg\<rparr>)))"

text \<open>The canary gate of \<^verbatim>\<open>Start\<close>: true when the new configuration is not to be used this time.\<close>

definition canary_refuses :: "'t bridge_env \<Rightarrow> ('t, 'w) bridge \<Rightarrow> bool \<times> ('t, 'w) bridge" where
  "canary_refuses env b =
     (if enable_config_canary (config b) \<and> config_canary_percent (config b) < 100
      then (case NowUnixMs env b of
              (now_ms, b') \<Rightarrow> ((ucast (now_ms mod 100) :: u32) \<ge> config_canary_percent (config b), b'))
      else (False, b))"

definition canary_rollback :: "'t bridge_env \<Rightarrow> ('t, 'w) bridge \<Rightarrow> ('t, 'w) bridge" where
  "canary_rollback env b =
     (let h = history b in
      RefreshAggregatedMetrics env False
        (count_up (\<lambda>c. c\<lparr>reload_rollback_count := reload_rollback_count c + 1, reload_fail_count := reload_fail_count c + 1,
            last_reload_status_code := uint (code_value kWouldBlock)\<rparr>)
          (b\<lparr>config := last_known_good_config h,
             history := h\<lparr>cfg_source := last_known_good_source h, cfg_version := last_known_good_version h,
               last_loaded_signature := last_known_good_signature h\<rparr>\<rparr>)))"

definition close_unlink :: "'t bridge_env \<Rightarrow> tref \<Rightarrow> ('t, 'w) bridge \<Rightarrow> ('t, 'w) bridge" where
  "close_unlink env r b =
     (case transport_at b r of
        None \<Rightarrow> b
      | Some s \<Rightarrow> set_transport r (Unlink (transport_ops env r) (Close (transport_ops env r) s)) b)"

text \<open>\<^verbatim>\<open>worker_pool_.Stop()\<close> when it returns: every queued or running loop has been run to its end.\<close>

definition pool_Stop :: "'a ThreadPool \<Rightarrow> 'a ThreadPool" where
  "pool_Stop p =
     (case StopBegin p of
        (False, p') \<Rightarrow> p'
      | (True, p') \<Rightarrow>
          StopEnd (p'\<lparr>executed_count := executed_count p' + of_nat (length (tasks p') + length (busy p'))\<rparr>))"

definition bridge_Stop :: "'t bridge_env \<Rightarrow> ('t, 'w) bridge \<Rightarrow> ('t, 'w) bridge" where
  "bridge_Stop env b0 =
     (if \<not> bridge_running b0 then b0
      else
        let b = b0\<lparr>bridge_running := False, worker_pool := pool_Stop (worker_pool b0)\<rparr>
        in RefreshAggregatedMetrics env True (close_unlink env R2V (close_unlink env V2R b)))"

text \<open>
  How a start ends: it returns a code, or it does not return because the pool made the caller run an inbound
  loop, which runs until another thread stops the bridge.
\<close>

datatype start_end = StartReturns ErrorCode | LoopInCaller inbound_loop

text \<open>\<^verbatim>\<open>Enqueue\<close> of one loop, and what \<^verbatim>\<open>Start\<close> does with the result.\<close>

definition start_loop ::
  "'t bridge_env \<Rightarrow> inbound_loop \<Rightarrow> ('t, 'w) bridge \<Rightarrow> start_end option \<times> ('t, 'w) bridge" where
  "start_loop env l b =
     (case EnqueueLocked (Some l) (worker_pool b) of
        (RunInCaller, p) \<Rightarrow> (Some (LoopInCaller l), b\<lparr>worker_pool := CallerSubmit p\<rparr>)
      | (EnqReturn ec, p) \<Rightarrow>
          if ec \<noteq> kOk \<and> ec \<noteq> kThreadTaskRejected
          then (Some (StartReturns ec), bridge_Stop env (b\<lparr>worker_pool := p\<rparr>))
          else (None, b\<lparr>worker_pool := p\<rparr>))"

text \<open>
  What the other threads contribute to a start: whether the system call for the priority of each worker
  succeeds, and whether a worker has taken the first loop when the second one is queued.
\<close>

record start_schedule =
  priority_set :: "nat \<Rightarrow> bool"
  first_loop_taken :: bool

definition first_worker_takes :: "start_schedule \<Rightarrow> ('t, 'w) bridge \<Rightarrow> ('t, 'w) bridge" where
  "first_worker_takes sch b =
     (if first_loop_taken sch
      then (case WorkerTake 0 (worker_pool b) of None \<Rightarrow> b | Some p \<Rightarrow> b\<lparr>worker_pool := p\<rparr>) else b)"

definition start_loops :: "'t bridge_env \<Rightarrow> start_schedule \<Rightarrow> ('t, 'w) bridge \<Rightarrow> start_end \<times> ('t, 'w) bridge" where
  "start_loops env sch b =
     (case start_loop env VehicleLoop (b\<lparr>bridge_running := True\<rparr>) of
        (Some r, b1) \<Rightarrow> (r, b1)
      | (None, b1) \<Rightarrow>
          (case start_loop env RobotLoop (first_worker_takes sch b1) of
             (Some r, b2) \<Rightarrow> (r, b2)
           | (None, b2) \<Rightarrow> (StartReturns kOk, RefreshAggregatedMetrics env False b2)))"

definition create_transport :: "'t bridge_env \<Rightarrow> tref \<Rightarrow> TransportEndpointConfig \<Rightarrow> ('t, 'w) bridge \<Rightarrow> ErrorCode \<times> ('t, 'w) bridge" where
  "create_transport env r endpoint b = on_transport r (Create (transport_ops env r) endpoint) b"

text \<open>From the tuning on: the two transports, the pool, the loops.\<close>

definition open_bridge :: "'t bridge_env \<Rightarrow> start_schedule \<Rightarrow> ('t, 'w) bridge \<Rightarrow> start_end \<times> ('t, 'w) bridge" where
  "open_bridge env sch b0 =
     (let b = ApplyTransportTuning (config b0) b0 in
      case create_transport env V2R (vehicle_to_robot_endpoint (config b)) b of
        (ec, b1) \<Rightarrow>
          if ec \<noteq> kOk then (StartReturns ec, b1)
          else case create_transport env R2V (robot_to_vehicle_endpoint (config b)) b1 of
            (ec, b2) \<Rightarrow>
              if ec \<noteq> kOk then (StartReturns ec, close_unlink env V2R b2)
              else case pool_Start (priority_set sch) (thread_pool (config b2)) (worker_pool b2) of
                (ec, p) \<Rightarrow>
                  let b3 = b2\<lparr>worker_pool := p\<rparr> in
                  if ec \<noteq> kOk then (StartReturns ec, close_unlink env R2V (close_unlink env V2R b3))
                  else start_loops env sch b3)"

definition Start_config ::
  "'t bridge_env \<Rightarrow> start_schedule \<Rightarrow> BridgeConfig \<Rightarrow> ('t, 'w) bridge \<Rightarrow> start_end \<times> ('t, 'w) bridge" where
  "Start_config env sch cfg b0 =
     (if bridge_running b0 then (StartReturns kOk, b0)
      else
        let b = (if cfg_source (history b0) = [] then b0\<lparr>history := (history b0)\<lparr>cfg_source := ''direct''\<rparr>\<rparr> else b0) in
        if vehicle_to_robot_transport b = None \<or> robot_to_vehicle_transport b = None then (StartReturns kInvalidParam, b)
        else case canary_refuses env (adopt_config env cfg b) of
          (True, b1) \<Rightarrow> (StartReturns kWouldBlock, canary_rollback env b1)
        | (False, b1) \<Rightarrow> open_bridge env sch b1)"

definition Start_provider ::
  "'t bridge_env \<Rightarrow> start_schedule \<Rightarrow> 'p IConfigProvider \<Rightarrow> 'p option \<Rightarrow> ('t, 'w) bridge
     \<Rightarrow> (start_end \<times> ('t, 'w) bridge) \<times> 'p option" where
  "Start_provider env sch ops provider b =
     (case provider of
        None \<Rightarrow> ((StartReturns kInvalidParam, b), None)
      | Some p \<Rightarrow>
          (case LoadBridgeConfig ops (Some default_BridgeConfig) (Some []) p of
             ((ec, c, s), p') \<Rightarrow>
               if ec \<noteq> kOk then ((StartReturns ec, b), Some p')
               else
                 let cfg = the c; sg = ComputePolicySignature (string_hash env) (policy_table cfg) in
                 (Start_config env sch cfg
                    (b\<lparr>history := (history b)\<lparr>cfg_source := the s, cfg_version := GetVersion ops p',
                        last_known_good_config := cfg, last_known_good_version := GetVersion ops p',
                        last_known_good_source := the s, last_known_good_signature := sg, last_loaded_signature := sg\<rparr>\<rparr>),
                  Some p')))"

section \<open>Reloading\<close>

text \<open>Outcome of a reload in the counters: the status stored and the reason code.\<close>

definition reload_status :: "ErrorCode \<Rightarrow> int \<Rightarrow> ('t, 'w) bridge \<Rightarrow> ('t, 'w) bridge" where
  "reload_status ec reason b =
     count_up (\<lambda>c. c\<lparr>last_reload_status_code := uint (code_value ec), reload_rollback_reason_code := reason\<rparr>) b"

definition reload_failed :: "('t, 'w) bridge \<Rightarrow> ('t, 'w) bridge" where
  "reload_failed b = count_up (\<lambda>c. c\<lparr>reload_fail_count := reload_fail_count c + 1\<rparr>) b"

definition reload_rolled_back :: "('t, 'w) bridge \<Rightarrow> ('t, 'w) bridge" where
  "reload_rolled_back b = count_up (\<lambda>c. c\<lparr>reload_fail_count := reload_fail_count c + 1,
     reload_rollback_count := reload_rollback_count c + 1\<rparr>) b"

definition set_audit :: "string \<Rightarrow> ('t, 'w) bridge \<Rightarrow> ('t, 'w) bridge" where
  "set_audit msg b = b\<lparr>history := (history b)\<lparr>last_reload_audit_summary := msg\<rparr>\<rparr>"

definition should_preserve_locked_policy :: "BridgeConfig \<Rightarrow> BridgeConfig \<Rightarrow> bool" where
  "should_preserve_locked_policy cur next_cfg =
     (let current = default_policy (policy_table cur); candidate = default_policy (policy_table next_cfg) in
      if \<not> lock_policy current then True
      else max_end_to_end_latency_ms current = max_end_to_end_latency_ms candidate
         \<and> transport_receive_timeout_ms current = transport_receive_timeout_ms candidate
         \<and> transport_send_timeout_ms current = transport_send_timeout_ms candidate
         \<and> backpressure_policy current = backpressure_policy candidate
         \<and> drop_policy current = drop_policy candidate
         \<and> budget_max_retries (retry_budget current) = budget_max_retries (retry_budget candidate)
         \<and> budget_initial_backoff_ms (retry_budget current) = budget_initial_backoff_ms (retry_budget candidate)
         \<and> budget_max_backoff_ms (retry_budget current) = budget_max_backoff_ms (retry_budget candidate))"

definition risk_score :: "BridgeConfig \<Rightarrow> BridgeConfig \<Rightarrow> u32" where
  "risk_score cur next_cfg =
     of_bool (max_end_to_end_latency_ms (default_policy (policy_table next_cfg)) \<noteq> max_end_to_end_latency_ms (default_policy (policy_table cur)))
     + of_bool (protocol_mode next_cfg \<noteq> protocol_mode cur)
     + of_bool (worker_count (thread_pool next_cfg) \<noteq> worker_count (thread_pool cur))"

definition config_valid :: "BridgeConfig \<Rightarrow> bool" where
  "config_valid c \<longleftrightarrow> worker_count (thread_pool c) > 0 \<and> queue_capacity (thread_pool c) > 0
     \<and> name (vehicle_to_robot_endpoint c) \<noteq> [] \<and> name (robot_to_vehicle_endpoint c) \<noteq> []
     \<and> budget_initial_backoff_ms (retry_budget (default_policy (policy_table c))) \<ge> 0
     \<and> budget_max_backoff_ms (retry_budget (default_policy (policy_table c)))
         \<ge> budget_initial_backoff_ms (retry_budget (default_policy (policy_table c)))"

definition reload_audit :: "string \<Rightarrow> string \<Rightarrow> u64 \<Rightarrow> u64 \<Rightarrow> u64 \<Rightarrow> u64 \<Rightarrow> string" where
  "reload_audit src src' ver ver' sg sg' =
     ''reload_audit:{src:'' @ src @ ''->'' @ src' @ '',ver:'' @ show_nat (unat ver) @ ''->'' @ show_nat (unat ver') @
     '',sig:'' @ show_nat (unat sg) @ ''->'' @ show_nat (unat sg') @ ''}''"

text \<open>
  From the guards passed on: the new configuration is installed, then committed, or rolled back when it is
  invalid or its signature is not the last known good one.
\<close>

definition install_config :: "'t bridge_env \<Rightarrow> BridgeConfig \<Rightarrow> string \<Rightarrow> u64 \<Rightarrow> ('t, 'w) bridge \<Rightarrow> ErrorCode \<times> ('t, 'w) bridge" where
  "install_config env next_config src new_version b0 =
     (let h = history b0;
          next_signature = ComputePolicySignature (string_hash env) (policy_table next_config);
          audit = reload_audit (cfg_source h) src (cfg_version h) new_version (last_loaded_signature h) next_signature;
          b = RebuildPolicyIndex (PopulateTemplates env
                (b0\<lparr>config := next_config, samples := sampling_of next_config (samples b0)\<rparr>));
          signature_ok = (last_known_good_signature h = 0 \<or> next_signature = last_known_good_signature h)
      in if \<not> config_valid (config b) \<or> \<not> signature_ok
         then let status = (if signature_ok then kInvalidParam else kQueueCreateFailed) in
           (status, RefreshAggregatedMetrics env True
              (set_audit (audit @ '',status=rollback'')
                (reload_status status (if signature_ok then 3 else 4)
                  (reload_rolled_back (b\<lparr>config := config b0\<rparr>)))))
         else
           (case NowUnixMs env (count_up (\<lambda>c. c\<lparr>reload_success_count := reload_success_count c + 1\<rparr>)
                   (b\<lparr>history := (history b)\<lparr>cfg_source := src, cfg_version := new_version, last_loaded_signature := next_signature,
                      last_known_good_config := config b, last_known_good_version := new_version,
                      last_known_good_source := src, last_known_good_signature := next_signature\<rparr>\<rparr>)) of
              (now_ms, b1) \<Rightarrow>
                (kOk, RefreshAggregatedMetrics env True
                  (set_audit (audit @ '',status=ok'')
                    (reload_status kOk 0 (count_up (\<lambda>c. c\<lparr>last_reload_timestamp_ms := now_ms\<rparr>) b1))))))"

text \<open>From a loaded configuration on: normalisation and the two guards.\<close>

definition guard_config :: "'t bridge_env \<Rightarrow> BridgeConfig \<Rightarrow> string \<Rightarrow> u64 \<Rightarrow> ('t, 'w) bridge \<Rightarrow> ErrorCode \<times> ('t, 'w) bridge" where
  "guard_config env cfg src new_version b =
     (let next_config = normalize cfg in
      if enable_config_risk_guard (config b) \<and> auto_rollback_on_high_risk (config b)
         \<and> risk_score (config b) next_config \<ge> high_risk_block_threshold (config b)
      then (kInvalidParam, RefreshAggregatedMetrics env True
             (record_event env ''high_risk_config_change'' None
               (set_audit ''reload_audit:{status=rollback,reason=high_risk_config_change}''
                 (reload_status kInvalidParam 6 (reload_rolled_back b)))))
      else if \<not> should_preserve_locked_policy (config b) next_config
      then (kInvalidParam, RefreshAggregatedMetrics env True
             (set_audit ''reload_audit:{status=rollback,reason=policy_lock_violation}''
               (reload_status kInvalidParam 5 (reload_rolled_back b))))
      else install_config env next_config src new_version b)"

definition ReloadConfigIfChanged ::
  "'t bridge_env \<Rightarrow> 'p IConfigProvider \<Rightarrow> 'p option \<Rightarrow> ('t, 'w) bridge \<Rightarrow> (ErrorCode \<times> ('t, 'w) bridge) \<times> 'p option" where
  "ReloadConfigIfChanged env ops provider b =
     (case provider of
        None \<Rightarrow> ((kInvalidParam, b), None)
      | Some p0 \<Rightarrow>
          (case ReloadProvider ops p0 of
             (reload_ec, p1) \<Rightarrow>
               if reload_ec \<noteq> kOk
               then ((reload_ec,
                      set_audit ''reload_audit:{reload_stage=provider_reload,status=fail,reason=provider_reload_fail}''
                        (reload_status reload_ec 1 (reload_failed b))), Some p1)
               else
                 let new_version = GetVersion ops p1 in
                 if new_version = cfg_version (history b)
                 then ((kOk, set_audit ''reload_audit:{status=noop}'' (reload_status kOk 0 b)), Some p1)
                 else
                   (case LoadBridgeConfig ops (Some default_BridgeConfig) (Some []) p1 of
                      ((load_ec, c, s), p2) \<Rightarrow>
                        if load_ec \<noteq> kOk
                        then ((load_ec,
                               set_audit ''reload_audit:{reload_stage=provider_load,status=fail,reason=provider_load_fail}''
                                 (reload_status load_ec 2 (reload_failed b))), Some p2)
                        else (guard_config env (the c) (the s) new_version b, Some p2))))"

section \<open>Lemmas\<close>

lemma refresh_keeps [simp]:
  "config (RefreshAggregatedMetrics env force b) = config b" "history (RefreshAggregatedMetrics env force b) = history b"
  "counters (RefreshAggregatedMetrics env force b) = counters b" "samples (RefreshAggregatedMetrics env force b) = samples b"
  "bridge_running (RefreshAggregatedMetrics env force b) = bridge_running b" "flow (RefreshAggregatedMetrics env force b) = flow b"
  "transport_at (RefreshAggregatedMetrics env force b) r = transport_at b r"
  "worker_pool (RefreshAggregatedMetrics env force b) = worker_pool b"
  "receive_mode (RefreshAggregatedMetrics env force b) = receive_mode b"
  "policy_cache_state (RefreshAggregatedMetrics env force b) = policy_cache_state b"
  by (cases r; simp add: RefreshAggregatedMetrics_def NowUnixMs_def Let_def)+

lemmas reload_defs = set_audit_def reload_status_def reload_failed_def reload_rolled_back_def record_event_def NowUnixMs_def

text \<open>What a reload may leave behind when it does not commit: the audit line and the counters.\<close>

definition unchanged :: "('t, 'w) bridge \<Rightarrow> ('t, 'w) bridge \<Rightarrow> bool" where
  "unchanged b b' \<longleftrightarrow> config b' = config b \<and>
     history b' = (history b)\<lparr>last_reload_audit_summary := last_reload_audit_summary (history b')\<rparr>"

definition committed :: "'t bridge_env \<Rightarrow> BridgeConfig \<Rightarrow> string \<Rightarrow> u64 \<Rightarrow> ('t, 'w) bridge \<Rightarrow> ('t, 'w) bridge \<Rightarrow> bool" where
  "committed env next_config src ver b b' \<longleftrightarrow>
     (let sg = ComputePolicySignature (string_hash env) (policy_table next_config);
          t = rebuild_index (PopulateDefaultTemplateRules (body_choice env) (policy_table next_config)) in
      config b' = next_config\<lparr>policy_table := t\<rparr> \<and> config_valid (config b') \<and>
      last_known_good_signature (history b) \<in> {0, sg} \<and>
      history b' = (history b)\<lparr>cfg_source := src, cfg_version := ver, last_loaded_signature := sg,
        last_known_good_config := config b', last_known_good_version := ver, last_known_good_source := src,
        last_known_good_signature := sg, last_reload_audit_summary := last_reload_audit_summary (history b')\<rparr>)"

definition reload_result :: "'t bridge_env \<Rightarrow> BridgeConfig \<Rightarrow> string \<Rightarrow> u64 \<Rightarrow> ('t, 'w) bridge \<Rightarrow> ErrorCode \<times> ('t, 'w) bridge \<Rightarrow> bool" where
  "reload_result env next_config src ver b res \<longleftrightarrow>
     (if fst res = kOk then committed env next_config src ver b (snd res) else unchanged b (snd res)) \<and>
     reload_fail_count (counters (snd res)) = reload_fail_count (counters b) + of_bool (fst res \<noteq> kOk) \<and>
     reload_success_count (counters (snd res)) = reload_success_count (counters b) + of_bool (fst res = kOk)"

lemma config_valid_table:
  "config_valid (c\<lparr>policy_table := rebuild_index (PopulateDefaultTemplateRules body (policy_table c))\<rparr>) = config_valid c"
  by (simp add: config_valid_def rebuild_index_def PopulateDefaultTemplateRules_def)

lemma install_result: "reload_result env c src ver b (install_config env c src ver b)"
  by (auto simp: reload_result_def install_config_def committed_def unchanged_def Let_def reload_defs
      RebuildPolicyIndex_def PopulateTemplates_def)

lemma guard_result: "reload_result env (normalize c) src ver b (guard_config env c src ver b)"
  using install_result [of env "normalize c" src ver b]
  by (auto simp: guard_config_def Let_def) (auto simp: reload_result_def unchanged_def reload_defs)

section \<open>Properties\<close>

text \<open>
  C13: a reload commits or changes nothing. Whatever the provider does, if the reload returns an error, the
  configuration, its version, its source, the signatures and the last known good configuration are as
  before, down to the policy index; if it returns ok, either the provider had no new version and they are as
  before, too, or the provider's configuration, normalised, with the default templates and a rebuilt index,
  is in force, valid, recorded as the last known good one, and its policies have the signature the last known
  good ones had, if these had one. An error counts as one failure and ok as none.
\<close>

theorem reload_all_or_nothing:
  assumes "ReloadConfigIfChanged env ops (Some p) b = ((ec, b'), p')"
  shows "(ec \<noteq> kOk \<longrightarrow> unchanged b b') \<and>
    (ec = kOk \<longrightarrow> (let q = snd (ReloadProvider ops p); ver = GetVersion ops q;
        loaded = fst (LoadBridgeConfig ops (Some default_BridgeConfig) (Some []) q) in
      if ver = cfg_version (history b) then unchanged b b'
      else committed env (normalize (the (fst (snd loaded)))) (the (snd (snd loaded))) ver b b')) \<and>
    reload_fail_count (counters b') = reload_fail_count (counters b) + of_bool (ec \<noteq> kOk)"
proof -
  obtain rec q where R: "ReloadProvider ops p = (rec, q)" by fastforce
  obtain lec c s q' where L: "LoadBridgeConfig ops (Some default_BridgeConfig) (Some []) q = ((lec, c, s), q')"
    by (metis prod.collapse)
  note G = guard_result [of env "the c" "the s" "GetVersion ops q" b]
  consider "rec \<noteq> kOk" | "rec = kOk" "GetVersion ops q = cfg_version (history b)"
    | "rec = kOk" "GetVersion ops q \<noteq> cfg_version (history b)" "lec \<noteq> kOk"
    | "rec = kOk" "GetVersion ops q \<noteq> cfg_version (history b)" "lec = kOk" by blast
  then show ?thesis
  proof cases
    case 4
    then have "guard_config env (the c) (the s) (GetVersion ops q) b = (ec, b')"
      using assms R L by (simp add: ReloadConfigIfChanged_def Let_def)
    with G 4 R L show ?thesis by (simp add: reload_result_def split: if_splits)
  qed (use assms R L in \<open>auto simp: ReloadConfigIfChanged_def Let_def unchanged_def reload_defs\<close>)
qed

text \<open>A provider that holds a configuration of version 2.\<close>

definition named_config :: BridgeConfig where
  "named_config = default_BridgeConfig\<lparr>vehicle_to_robot_endpoint := default_endpoint\<lparr>name := ''/v2r''\<rparr>,
     robot_to_vehicle_endpoint := default_endpoint\<lparr>name := ''/r2v''\<rparr>\<rparr>"

definition updated_provider :: "BridgeConfig \<Rightarrow> StaticConfigProvider" where
  "updated_provider c = UpdateConfigForTest c ''test'' (new_StaticConfigProvider named_config ''boot'')"

definition plain_env :: "'t ITransport \<Rightarrow> 't bridge_env" where
  "plain_env t = \<lparr>v2r_ops = t, r2v_ops = t, clock = (\<lambda>_. 0), string_hash = (\<lambda>_. 0), body_choice = FirstBody,
     can_write_file = (\<lambda>_. False), field_order = id\<rparr>"

lemma updated_provider_ops:
  "ReloadProvider static_provider (updated_provider c) = (kOk, updated_provider c)"
  "GetVersion static_provider (updated_provider c) = 2"
  "LoadBridgeConfig static_provider (Some default_BridgeConfig) (Some []) (updated_provider c) =
     ((kOk, Some c, Some ''test''), updated_provider c)"
  by (simp_all add: static_provider_def updated_provider_def UpdateConfigForTest_def new_StaticConfigProvider_def
      scp_LoadBridgeConfig_def)

lemma normalize_named: "normalize named_config = named_config"
  by (simp add: NormalizePolicyDefaults_def named_config_def default_BridgeConfig_def normalized_policy_def fill_policy_def
      default_PolicyTable_def looks_default_def default_SlaPolicy_def default_RetryBudget_def Let_def)

lemma named_valid: "config_valid named_config"
  by (simp add: config_valid_def named_config_def default_BridgeConfig_def default_ThreadConfig_def default_PolicyTable_def
      default_SlaPolicy_def default_RetryBudget_def)

theorem reload_all_or_nothing_witness:
  "\<exists>b' p'. ReloadConfigIfChanged (plain_env (PosixMqTransport ref_api)) static_provider (Some (updated_provider named_config))
        (new_bridge None None ()) = ((kOk, b'), p') \<and>
     committed (plain_env (PosixMqTransport ref_api)) named_config ''test'' 2 (new_bridge None None ()) b'"
proof -
  let ?b = "new_bridge None None () :: (ref_state PosixMessageQueue, unit) bridge"
  let ?env = "plain_env (PosixMqTransport ref_api)"
  obtain ec b' p' where R: "ReloadConfigIfChanged ?env static_provider (Some (updated_provider named_config)) ?b = ((ec, b'), p')"
    by (metis prod.collapse)
  have "fst (install_config ?env named_config ''test'' 2 ?b) = kOk"
    using config_valid_table [of FirstBody named_config] named_valid
    by (simp add: install_config_def Let_def new_bridge_def plain_env_def RebuildPolicyIndex_def PopulateTemplates_def NowUnixMs_def)
  moreover have v: "cfg_version (history ?b) = 0" by (simp add: new_bridge_def)
  moreover have "config ?b = default_BridgeConfig" by (simp add: new_bridge_def)
  moreover have "\<not> enable_config_risk_guard default_BridgeConfig" "should_preserve_locked_policy default_BridgeConfig named_config"
    by (simp_all add: default_BridgeConfig_def default_PolicyTable_def default_SlaPolicy_def should_preserve_locked_policy_def)
  ultimately have "ec = kOk"
    using R by (simp add: ReloadConfigIfChanged_def updated_provider_ops guard_config_def normalize_named Let_def)
  then show ?thesis using reload_all_or_nothing [OF R] R v
    by (simp add: updated_provider_ops normalize_named)
qed

text \<open>
  C36: a reload cannot change the policies. Once a last known good signature is recorded, every loaded
  configuration whose policies have another signature is refused, however valid it is, and the bridge stays
  with the configuration it had.
\<close>

theorem reload_refuses_new_policies:
  assumes "ReloadProvider ops p = (kOk, q)" and "GetVersion ops q \<noteq> cfg_version (history b)"
    and "LoadBridgeConfig ops (Some default_BridgeConfig) (Some []) q = ((kOk, Some c, Some s), q')"
    and "last_known_good_signature (history b) \<noteq> 0"
    and "ComputePolicySignature (string_hash env) (policy_table (normalize c)) \<noteq> last_known_good_signature (history b)"
  shows "\<exists>ec b'. ReloadConfigIfChanged env ops (Some p) b = ((ec, b'), Some q') \<and> ec \<noteq> kOk \<and> unchanged b b'"
proof -
  obtain ec b' where G: "guard_config env c s (GetVersion ops q) b = (ec, b')" by fastforce
  then have "reload_result env (normalize c) s (GetVersion ops q) b (ec, b')" using guard_result [of env c s _ b] by metis
  then have "ec \<noteq> kOk" "unchanged b b'" using assms(4,5) by (auto simp: reload_result_def committed_def Let_def split: if_splits)
  then show ?thesis using assms(1-3) G by (simp add: ReloadConfigIfChanged_def Let_def)
qed

definition stricter_config :: BridgeConfig where
  "stricter_config = named_config\<lparr>sla_policy := default_SlaPolicy\<lparr>max_end_to_end_latency_ms := 20\<rparr>\<rparr>"

lemma stricter_signature:
  "ComputePolicySignature (\<lambda>_. 0) (policy_table named_config) \<noteq> 0"
  "ComputePolicySignature (\<lambda>_. 0) (policy_table (normalize stricter_config)) \<noteq>
     ComputePolicySignature (\<lambda>_. 0) (policy_table named_config)"
  by code_simp+

theorem reload_refuses_new_policies_witness:
  "let sg = ComputePolicySignature (\<lambda>_. 0) (policy_table named_config);
       b = (new_bridge None None ())\<lparr>history := (history (new_bridge None None () :: (ref_state PosixMessageQueue, unit) bridge))
             \<lparr>cfg_version := 1, last_known_good_signature := sg\<rparr>\<rparr>
   in \<exists>ec b'. ReloadConfigIfChanged (plain_env (PosixMqTransport ref_api)) static_provider
        (Some (updated_provider stricter_config)) b = ((ec, b'), Some (updated_provider stricter_config)) \<and>
      ec \<noteq> kOk \<and> unchanged b b'"
  unfolding Let_def
  by (rule reload_refuses_new_policies [OF updated_provider_ops(1)])
    (use stricter_signature in \<open>simp_all add: updated_provider_ops plain_env_def\<close>)

end
