(* ===== verification/Bridge_Startup.thy ===== *)
theory Bridge_Startup
  imports Bridge_Lifecycle
begin

text \<open>
  What a start and a stop leave behind: the pool, the two inbound loops in it, and whether the bridge runs.
\<close>

section \<open>The pool\<close>

definition pool_idle :: "'a ThreadPool \<Rightarrow> bool" where
  "pool_idle p \<longleftrightarrow> \<not> pool_running p \<and> tasks p = [] \<and> workers p = []"

lemma pool_Stop_idle: "pool_running p \<Longrightarrow> pool_idle (pool_Stop p)"
  by (simp add: pool_Stop_def StopBegin_def StopEnd_def pool_idle_def)

lemma spawn_loop_result:
  "pool_running p \<Longrightarrow> spawn_loop sched i n p = (ec, p') \<Longrightarrow>
     if ec = kOk then p' = p\<lparr>workers := workers p @ replicate n Waiting\<rparr> else pool_idle p'"
proof (induction sched i n p rule: spawn_loop.induct)
  case (2 sched i n p)
  show ?case
  proof (cases "enable_realtime (pool_config (SpawnWorker p)) \<and> ConfigureRealtimePriority (sched i) \<noteq> kOk")
    case True
    then show ?thesis using 2(2,3) by (auto simp: StopBegin_def StopEnd_def pool_idle_def SpawnWorker_def Let_def)
  next
    case False
    then have "spawn_loop sched (Suc i) n (SpawnWorker p) = (ec, p')" using 2(3) by (simp add: Let_def split: if_splits)
    from 2(1) [OF refl False _ this] 2(2)
    have "if ec = kOk then p' = (SpawnWorker p)\<lparr>workers := workers (SpawnWorker p) @ replicate n Waiting\<rparr> else pool_idle p'"
      by (simp add: SpawnWorker_def)
    then show ?thesis by (simp add: SpawnWorker_def split: if_splits)
  qed
qed simp

lemma pool_Start_result:
  assumes "pool_idle p" "pool_Start sched c p = (ec, p')"
  shows "if ec = kOk then pool_running p' \<and> tasks p' = [] \<and> (\<exists>n. workers p' = replicate (Suc n) Waiting) else pool_idle p'"
proof (cases "worker_count c = 0 \<or> queue_capacity c = 0")
  case True
  then show ?thesis using assms by (auto simp: pool_Start_def)
next
  case False
  let ?p = "ResetCounters (StartBegin c p)"
  have "pool_running ?p" "tasks ?p = []" "workers ?p = []"
    using assms(1) by (simp_all add: ResetCounters_def StartBegin_def pool_idle_def)
  moreover have "spawn_loop sched 0 (worker_count c) ?p = (ec, p')"
    using False assms by (simp add: pool_Start_def pool_idle_def)
  moreover obtain n where "worker_count c = Suc n" using False by (cases "worker_count c") auto
  ultimately show ?thesis using spawn_loop_result [of ?p sched 0 "worker_count c" ec p']
    by (auto split: if_splits)
qed

section \<open>The loops\<close>

text \<open>Queuing a loop on a running bridge.\<close>

lemma start_loop_cases:
  assumes "start_loop env l b = (res, b')" "pool_running (worker_pool b)" "bridge_running b"
  obtains (queued) "res = None" "bridge_running b'" "pool_running (worker_pool b')"
      "tasks (worker_pool b') = tasks (worker_pool b) @ [l]" "workers (worker_pool b') = workers (worker_pool b)"
  | (refused) "res = Some (StartReturns kThreadQueueFull)" "\<not> bridge_running b'" "pool_idle (worker_pool b')"
  | (in_caller) "res = Some (LoopInCaller l)" "bridge_running b'"
      "rejection_policy (pool_config (worker_pool b)) = kCallerRuns"
proof (cases "length (tasks (worker_pool b)) < queue_capacity (pool_config (worker_pool b))")
  case True
  then show ?thesis using assms queued by (auto simp: start_loop_def EnqueueLocked_def)
next
  case False
  let ?p = "(worker_pool b)\<lparr>rejected_count := rejected_count (worker_pool b) + 1\<rparr>"
  have idle: "pool_idle (pool_Stop ?p)" by (rule pool_Stop_idle) (simp add: assms(2))
  have cl: "bridge_running (close_unlink env r x) = bridge_running x" "worker_pool (close_unlink env r x) = worker_pool x"
    for r and x :: "('a, 'b) bridge" by (cases r; simp add: close_unlink_def split: option.split)+
  show ?thesis
  proof (cases "rejection_policy (pool_config (worker_pool b)) = kCallerRuns")
    case True
    then show ?thesis using False assms in_caller by (auto simp: start_loop_def EnqueueLocked_def Let_def)
  next
    case no: False
    then have "res = Some (StartReturns kThreadQueueFull)" "b' = bridge_Stop env (b\<lparr>worker_pool := ?p\<rparr>)"
      using False assms by (auto simp: start_loop_def EnqueueLocked_def Let_def)
    then show ?thesis using refused idle assms(3) by (simp add: bridge_Stop_def Let_def cl)
  qed
qed

definition loops_of :: "('t, 'w) bridge \<Rightarrow> inbound_loop multiset" where
  "loops_of b = mset (tasks (worker_pool b)) + mset (busy (worker_pool b))"

lemma first_worker_takes_loops:
  assumes "pool_running (worker_pool b)" "tasks (worker_pool b) = [l]" "workers (worker_pool b) = replicate (Suc n) Waiting"
  shows "pool_running (worker_pool (first_worker_takes sch b)) \<and> bridge_running (first_worker_takes sch b) = bridge_running b \<and>
    loops_of (first_worker_takes sch b) = {#l#}"
proof (cases "first_loop_taken sch")
  case True
  obtain q where q: "WorkerTake 0 (worker_pool b) = Some q" using assms by (simp add: WorkerTake_def)
  have "mset (tasks q) + mset (busy q) = mset (tasks (worker_pool b)) + mset (busy (worker_pool b))"
    using WorkerTake_busy(1) [OF _ _ q] assms(3) by (simp add: add.commute)
  moreover have "busy (worker_pool b) = []" using assms(3) by (simp add: busy_def)
  moreover have "pool_running q" using q assms(1) by (auto simp: WorkerTake_def split: if_splits)
  ultimately show ?thesis using True q assms by (simp add: first_worker_takes_def loops_of_def)
next
  case False
  have "busy (worker_pool b) = []" using assms(3) by (simp add: busy_def)
  then show ?thesis using False assms by (simp add: first_worker_takes_def loops_of_def)
qed

definition start_outcome :: "start_end \<times> ('t, 'w) bridge \<Rightarrow> bool" where
  "start_outcome res \<longleftrightarrow> (case fst res of
     StartReturns ec \<Rightarrow>
       if ec = kOk then bridge_running (snd res) \<and> pool_running (worker_pool (snd res)) \<and>
         loops_of (snd res) = {#VehicleLoop, RobotLoop#}
       else \<not> bridge_running (snd res) \<and> pool_idle (worker_pool (snd res))
   | LoopInCaller l \<Rightarrow> bridge_running (snd res))"

lemma start_loops_outcome:
  assumes "pool_running (worker_pool b)" "tasks (worker_pool b) = []" "workers (worker_pool b) = replicate (Suc n) Waiting"
  shows "start_outcome (start_loops env sch b)"
proof -
  let ?b = "b\<lparr>bridge_running := True\<rparr>"
  obtain r1 b1 where S1: "start_loop env VehicleLoop ?b = (r1, b1)" by fastforce
  have up: "pool_running (worker_pool ?b)" "bridge_running ?b" using assms(1) by simp_all
  from S1 up show ?thesis
  proof (cases rule: start_loop_cases)
    case queued
    let ?b1 = "first_worker_takes sch b1"
    have t: "pool_running (worker_pool ?b1)" "bridge_running ?b1" "loops_of ?b1 = {#VehicleLoop#}"
      using first_worker_takes_loops [of b1 VehicleLoop n sch] queued assms(2,3) by simp_all
    obtain r2 b2 where S2: "start_loop env RobotLoop ?b1 = (r2, b2)" by fastforce
    from S2 t(1,2) show ?thesis
    proof (cases rule: start_loop_cases)
      case q2: queued
      have "loops_of b2 = {#VehicleLoop, RobotLoop#}"
        using t(3) q2(4,5) by (simp add: loops_of_def busy_def add.commute add.left_commute)
      then show ?thesis using S1 S2 queued(1) q2 by (simp add: start_loops_def start_outcome_def loops_of_def)
    qed (use S1 S2 queued(1) in \<open>simp_all add: start_loops_def start_outcome_def\<close>)
  qed (use S1 in \<open>simp_all add: start_loops_def start_outcome_def\<close>)
qed

lemma close_unlink_keeps [simp]:
  "bridge_running (close_unlink env r b) = bridge_running b" "worker_pool (close_unlink env r b) = worker_pool b"
  by (cases r; simp add: close_unlink_def split: option.split)+

lemma create_transport_keeps:
  "create_transport env r ep b = (ec, b') \<Longrightarrow> bridge_running b' = bridge_running b \<and> worker_pool b' = worker_pool b"
  by (cases r) (auto simp: create_transport_def on_transport_def split: prod.splits)

lemma open_bridge_outcome:
  assumes "pool_idle (worker_pool b)" "\<not> bridge_running b"
  shows "start_outcome (open_bridge env sch b)"
proof -
  let ?b = "ApplyTransportTuning (config b) b"
  have k: "bridge_running ?b = bridge_running b" "worker_pool ?b = worker_pool b" by (simp_all add: ApplyTransportTuning_def)
  obtain ec1 b1 where c1: "create_transport env V2R (vehicle_to_robot_endpoint (config ?b)) ?b = (ec1, b1)" by fastforce
  obtain ec2 b2 where c2: "create_transport env R2V (robot_to_vehicle_endpoint (config ?b)) b1 = (ec2, b2)" by fastforce
  have k2: "\<not> bridge_running b1" "worker_pool b1 = worker_pool b" "\<not> bridge_running b2" "worker_pool b2 = worker_pool b"
    using create_transport_keeps [OF c1] create_transport_keeps [OF c2] k assms(2) by simp_all
  obtain ec3 p where P: "pool_Start (priority_set sch) (thread_pool (config b2)) (worker_pool b2) = (ec3, p)" by fastforce
  have R: "if ec3 = kOk then pool_running p \<and> tasks p = [] \<and> (\<exists>n. workers p = replicate (Suc n) Waiting) else pool_idle p"
    using pool_Start_result [OF _ P] assms(1) k2 by simp
  have started: "start_outcome (start_loops env sch (b2\<lparr>worker_pool := p\<rparr>))" if ok: "ec3 = kOk"
  proof -
    obtain n where "pool_running p" "tasks p = []" "workers p = replicate (Suc n) Waiting" using R unfolding if_P [OF ok] by blast
    then show ?thesis using start_loops_outcome [of "b2\<lparr>worker_pool := p\<rparr>" n env sch] by simp
  qed
  show ?thesis using started R k2 assms(1) c1 c2 P
    by (auto simp: open_bridge_def Let_def start_outcome_def [of "(StartReturns _, _)"] split: if_splits)
qed

lemma bridge_keeps_adopt:
  "bridge_running (adopt_config env c b) = bridge_running b" "worker_pool (adopt_config env c b) = worker_pool b"
  by (simp_all add: adopt_config_def RebuildPolicyIndex_def PopulateTemplates_def Let_def)

lemma canary_keeps:
  "canary_refuses env b = (no, b1) \<Longrightarrow> bridge_running b1 = bridge_running b \<and> worker_pool b1 = worker_pool b"
  by (auto simp: canary_refuses_def NowUnixMs_def split: if_splits)

section \<open>Properties\<close>

text \<open>
  C14: a start is all or nothing for the threads of the bridge. From a bridge that does not run, with its pool
  stopped: if \<^verbatim>\<open>Start\<close> returns ok, the bridge runs, its pool runs, and exactly the two inbound loops have
  been given to it, each once; if it returns any other code (missing transport, refused by the canary gate,
  a transport or the pool that does not come up, a full queue), the bridge does not run and the pool is
  stopped and empty; and otherwise it does not return because it runs an inbound loop itself.
\<close>

theorem Start_outcome:
  assumes "\<not> bridge_running b" and "pool_idle (worker_pool b)" and "Start_config env sch cfg b = (res, b')"
  shows "case res of
     StartReturns ec \<Rightarrow>
       if ec = kOk then bridge_running b' \<and> pool_running (worker_pool b') \<and>
         mset (tasks (worker_pool b')) + mset (busy (worker_pool b')) = {#VehicleLoop, RobotLoop#}
       else \<not> bridge_running b' \<and> pool_idle (worker_pool b')
   | LoopInCaller l \<Rightarrow> bridge_running b'"
proof -
  let ?b = "if cfg_source (history b) = [] then b\<lparr>history := (history b)\<lparr>cfg_source := ''direct''\<rparr>\<rparr> else b"
  have k: "bridge_running ?b = bridge_running b" "worker_pool ?b = worker_pool b" by simp_all
  obtain no b1 where n: "canary_refuses env (adopt_config env cfg ?b) = (no, b1)" by fastforce
  have k1: "bridge_running b1 = bridge_running b" "worker_pool b1 = worker_pool b"
    using canary_keeps [OF n] k by (simp_all add: bridge_keeps_adopt)
  have "start_outcome (open_bridge env sch b1)" using open_bridge_outcome k1 assms(1,2) by metis
  then have "start_outcome (Start_config env sch cfg b)"
    using assms(1,2) k k1 n
    by (cases no) (auto simp: Start_config_def Let_def start_outcome_def [of "(StartReturns _, _)"] canary_rollback_def)
  then show ?thesis unfolding assms(3) start_outcome_def loops_of_def fst_conv snd_conv .
qed

text \<open>A transport that comes up and does nothing.\<close>

definition silent_transport :: "unit ITransport" where
  "silent_transport = \<lparr>Name = ''silent'', Caps = \<lparr>supports_priority = False, supports_discard_oldest = False, supports_unlink = False\<rparr>,
     Create = (\<lambda>_ s. (kOk, s)), SendWithTimeout = (\<lambda>_ _ _ s. (kTimeout, s)),
     ReceiveWithTimeout = (\<lambda>m p _ s. ((kTimeout, m, p), s)), DiscardOldest = (\<lambda>s. (kOk, s)), Close = id, Unlink = id\<rparr>"

theorem Start_outcome_witness:
  "\<exists>b'. Start_config (plain_env silent_transport) \<lparr>priority_set = (\<lambda>_. True), first_loop_taken = True\<rparr> named_config
       (new_bridge (Some ()) (Some ()) ()) = (StartReturns kOk, b') \<and> bridge_running b' \<and>
     mset (tasks (worker_pool b')) + mset (busy (worker_pool b')) = {#VehicleLoop, RobotLoop#}"
proof -
  let ?b = "new_bridge (Some ()) (Some ()) ()"
  let ?sch = "\<lparr>priority_set = (\<lambda>_. True), first_loop_taken = True\<rparr>"
  obtain res b' where S: "Start_config (plain_env silent_transport) ?sch named_config ?b = (res, b')" by fastforce
  have ?thesis if "res = StartReturns kOk"
    using that Start_outcome [OF _ _ S] S by (simp add: new_bridge_def new_pool_def pool_idle_def)
  moreover have "\<not> enable_config_canary named_config"
    "thread_pool named_config = \<lparr>worker_count = Suc (Suc 0), enable_realtime = False, realtime_priority = 10, queue_capacity = 64,
       rejection_policy = kRejectNewTask\<rparr>"
    by (simp_all add: named_config_def default_BridgeConfig_def default_ThreadConfig_def)
  then have "res = StartReturns kOk" using S
    by (simp add: Start_config_def Let_def adopt_config_def RebuildPolicyIndex_def PopulateTemplates_def canary_refuses_def
        normalize_named open_bridge_def create_transport_def on_transport_def plain_env_def silent_transport_def new_bridge_def
        ApplyTransportTuning_def
        pool_Start_def StartBegin_def ResetCounters_def new_pool_def SpawnWorker_def start_loops_def start_loop_def EnqueueLocked_def
        first_worker_takes_def WorkerTake_def)
  ultimately show ?thesis by blast
qed

end
