(* ===== verification/Bridge_Invariants.thy ===== *)
theory Bridge_Invariants
  imports Bridge_Lifecycle
begin

text \<open>
  The bridge as a transition system: its public operations and the passes of its two inbound loops are the
  steps, in any order and any number. A locale states what a predicate on the state has to survive (the
  updates that touch the policy cache, the trace index, the configuration and the transports) and carries it
  through every operation; it is interpreted for the policy cache, the trace index and the transports.
\<close>

section \<open>What operations do to the vital parts\<close>

definition vitals :: "('t, 'w) bridge \<Rightarrow> BridgeConfig \<times> policy_cache \<times> trace_index \<times> bool \<times> bool" where
  "vitals b = (config b, policy_cache_state b, trace_ix b, transport_at b V2R = None, transport_at b R2V = None)"

definition still :: "('t, 'w) bridge \<Rightarrow> ('t, 'w) bridge \<Rightarrow> bool" where
  "still b b' \<longleftrightarrow> vitals b' = vitals b"

text \<open>What housekeeping, publishing and receiving are made of.\<close>

inductive evolves :: "'t bridge_env \<Rightarrow> ('t, 'w) bridge \<Rightarrow> ('t, 'w) bridge \<Rightarrow> bool" for env where
  same: "still b b' \<Longrightarrow> evolves env b b'"
| resolve: "evolves env b (snd (ResolvePolicy env e b))"
| trace: "evolves env b (b\<lparr>trace_ix := snd (note_trace t now (trace_ix b))\<rparr>)"
| chain: "evolves env a b \<Longrightarrow> evolves env b c \<Longrightarrow> evolves env a c"

lemma still_refl [simp]: "still b b"
  by (simp add: still_def)

lemma still_trans: "still a b \<Longrightarrow> still b c \<Longrightarrow> still a c"
  by (simp add: still_def)

lemma evolves_refl [simp]: "evolves env b b"
  by (rule evolves.same) simp

lemma evolves_still: "evolves env a b \<Longrightarrow> still b c \<Longrightarrow> evolves env a c"
  using evolves.chain evolves.same by blast

lemma still_evolves: "still a b \<Longrightarrow> evolves env b c \<Longrightarrow> evolves env a c"
  using evolves.chain evolves.same by blast

lemma vitals_now [simp]: "vitals (snd (NowUnixMs env b)) = vitals b"
  by (simp add: NowUnixMs_def vitals_def)

lemma vitals_refresh [simp]: "vitals (RefreshAggregatedMetrics env force b) = vitals b"
  by (simp add: RefreshAggregatedMetrics_def NowUnixMs_def vitals_def Let_def)

lemma vitals_updates [simp]:
  "vitals (b\<lparr>counters := c\<rparr>) = vitals b" "vitals (b\<lparr>gates := g\<rparr>) = vitals b" "vitals (b\<lparr>flow := fl\<rparr>) = vitals b"
  "vitals (b\<lparr>history := h\<rparr>) = vitals b" "vitals (b\<lparr>transport_orchestrator := t\<rparr>) = vitals b" "vitals (b\<lparr>samples := s\<rparr>) = vitals b"
  "vitals (b\<lparr>idempotency_recent_keys := k\<rparr>) = vitals b" "vitals (b\<lparr>idempotency_drop_count := n\<rparr>) = vitals b"
  "vitals (b\<lparr>app := w\<rparr>) = vitals b" "vitals (b\<lparr>worker_pool := p\<rparr>) = vitals b" "vitals (b\<lparr>bridge_running := r\<rparr>) = vitals b"
  "vitals (b\<lparr>receive_mode := m\<rparr>) = vitals b" "vitals (b\<lparr>vehicle_router := vr\<rparr>) = vitals b"
  "vitals (b\<lparr>robot_router := vr\<rparr>) = vitals b" "vitals (b\<lparr>diagnostics_reporter := d\<rparr>) = vitals b"
  "vitals (b\<lparr>authenticator := a\<rparr>) = vitals b" "vitals (b\<lparr>lint_report := l\<rparr>) = vitals b"
  "vitals (b\<lparr>metrics_aggregator := ag\<rparr>) = vitals b"
  by (simp_all add: vitals_def)

lemma vitals_ops [simp]:
  "vitals (set_health p q b) = vitals b" "vitals (count_invalid b) = vitals b" "vitals (count_tx b) = vitals b"
  "vitals (count_tx_maps e b) = vitals b" "vitals (record_event env event envelope b) = vitals b"
  "vitals (snd (AcquireFlowSlot t b)) = vitals b" "vitals (ReleaseFlowSlot t b) = vitals b"
  "vitals (snd (ShouldApplyCanaryForEnvelope env e b)) = vitals b" "vitals (throttle env gt st b) = vitals b"
  "vitals (count_rx_maps e b) = vitals b" "vitals (set_audit msg b) = vitals b" "vitals (reload_status ec reason b) = vitals b"
  "vitals (reload_failed b) = vitals b" "vitals (reload_rolled_back b) = vitals b" "vitals (ApplyTransportTuning cfg b) = vitals b"
  by (simp_all add: set_health_def count_invalid_def count_tx_def count_tx_maps_def record_event_def NowUnixMs_def
      AcquireFlowSlot_def ReleaseFlowSlot_def ShouldApplyCanaryForEnvelope_def throttle_def count_rx_maps_def set_audit_def
      reload_status_def reload_failed_def reload_rolled_back_def ApplyTransportTuning_def vitals_def Let_def)

lemma vitals_set_transport: "transport_at b r \<noteq> None \<Longrightarrow> vitals (set_transport r s b) = vitals b"
  by (cases r) (simp_all add: vitals_def)

lemma vitals_on_transport: "transport_at b r \<noteq> None \<Longrightarrow> vitals (snd (on_transport r f b)) = vitals b"
  by (simp add: on_transport_def vitals_set_transport split: prod.split)

lemma vitals_sent: "transport_at b r \<noteq> None \<Longrightarrow> sent r b b' \<Longrightarrow> vitals b' = vitals b"
  by (cases r) (auto simp: sent_def vitals_def)

lemma vitals_present: "vitals b' = vitals b \<Longrightarrow> transport_at b r \<noteq> None \<Longrightarrow> transport_at b' r \<noteq> None"
  by (cases r) (auto simp: vitals_def)

lemma vitals_publish_fail: "(\<And>x. vitals (f x) = vitals x) \<Longrightarrow> vitals (snd (publish_fail env f ec b)) = vitals b"
  by (simp add: publish_fail_def)

section \<open>Publishing\<close>

lemma vitals_failover:
  assumes "transport_at b r \<noteq> None"
  shows "vitals (snd (publish_failover env r x p pol ec b)) = vitals b"
proof -
  let ?b = "b\<lparr>transport_orchestrator := OnPrimarySendFailure (transport_orchestrator b)\<rparr>"
  show ?thesis
  proof (cases "ResolveFailover (transport_orchestrator ?b) (Some r) (transport_ptr ?b V2R) (transport_ptr ?b R2V)
       (failover_from_vehicle_to_robot_enabled (flow ?b)) (failover_from_robot_to_vehicle_enabled (flow ?b))")
    case None
    then show ?thesis by (simp add: publish_failover_def Let_def vitals_publish_fail)
  next
    case (Some other)
    then have nn: "transport_at ?b other \<noteq> None"
      by (auto simp: ResolveFailover_alt transport_ptr_def split: if_splits)
    obtain fec b1 where P: "PublishWithBackpressure env other x p pol ?b = (fec, b1)" by fastforce
    have "vitals b1 = vitals ?b" using vitals_sent [OF nn] sent_PublishWithBackpressure P by (metis snd_conv)
    then show ?thesis using Some P by (simp add: publish_failover_def Let_def vitals_publish_fail)
  qed
qed

lemma evolves_publish_encoded:
  assumes "transport_at b r \<noteq> None"
  shows "evolves env b (snd (publish_encoded env r e x b))"
proof -
  obtain pol b1 where R: "ResolvePolicy env e b = (pol, b1)" by fastforce
  have nn1: "transport_at b1 r \<noteq> None"
    using quiet_fields(2,3) [OF quiet_ResolvePolicy [of b env e]] assms R by (cases r) simp_all
  obtain ok b2 where A: "AcquireFlowSlot (Some r) b1 = (ok, b2)" by fastforce
  then have v2: "vitals b2 = vitals b1" using vitals_ops(6) [of "Some r" b1] by simp
  define prio where "prio = ResolvePriorityForPublish e (Some r) b1"
  obtain ec b3 where P: "PublishWithBackpressure env r x prio pol b2 = (ec, b3)" by fastforce
  have v3: "vitals b3 = vitals b2"
    using vitals_sent [OF vitals_present [OF v2 nn1] sent_PublishWithBackpressure] P by (metis snd_conv)
  let ?b4 = "ReleaseFlowSlot (Some r) b3"
  have nn4: "transport_at ?b4 r \<noteq> None" using vitals_present [of ?b4 b1 r] v2 v3 nn1 by simp
  have "still b1 (snd (publish_encoded env r e x b))"
    using R A P v2 v3 vitals_failover [OF nn4, of env x prio pol ec]
    by (cases ok; cases "ec = kOk") (simp_all add: publish_encoded_def still_def Let_def vitals_publish_fail flip: prio_def)
  then show ?thesis using evolves_still [OF evolves.resolve [of env b e]] R by simp
qed

lemma evolves_Publish: "evolves env b (snd (Publish env (transport_ptr b r) e b))"
proof (cases rule: Publish_cases [of b "transport_ptr b r" env e])
  case (canary b1)
  then have "vitals b1 = vitals b" using vitals_ops(8) [of env e b] by simp
  then show ?thesis using canary by (intro evolves.same) (simp add: still_def vitals_publish_fail)
next
  case (duplicate b1 keys)
  then have "vitals b1 = vitals b" using vitals_ops(8) [of env e b] by simp
  then show ?thesis using duplicate by (intro evolves.same) (simp add: still_def vitals_publish_fail)
next
  case (sending q b1 keys)
  have v: "vitals (b1\<lparr>idempotency_recent_keys := keys\<rparr>) = vitals b" using vitals_ops(8) [of env e b] sending(5) by simp
  have "transport_at b q \<noteq> None" using sending(2) by (auto simp: transport_ptr_def split: if_splits)
  from evolves_publish_encoded [OF vitals_present [OF v this]] show ?thesis
    using still_evolves v sending(7) by (metis still_def)
qed (simp_all add: evolves.same still_def vitals_publish_fail)

section \<open>Receiving\<close>

lemma vitals_notes [simp]:
  "vitals (note_receive_error env b) = vitals b" "vitals (note_decode_failure env b) = vitals b"
  "vitals (note_invalid_envelope env b) = vitals b" "vitals (note_route_miss env now b) = vitals b"
  "vitals (note_handler_error env now b) = vitals b"
  by (simp_all add: note_receive_error_def note_decode_failure_def note_invalid_envelope_def note_route_miss_def
      note_handler_error_def Let_def)

lemma vitals_note_expired [simp]: "vitals (note_expired env e now b) = vitals b"
  by (simp add: note_expired_def Let_def split: prod.split)

lemma vitals_report [simp]: "vitals (report_diagnostics env b) = vitals b"
  by (simp add: report_diagnostics_def NowUnixMs_def vitals_def split: option.split bool.split)

lemma vitals_sample_trace [simp]: "vitals (sample_trace now b) = vitals b"
  by (simp add: sample_trace_def Let_def split: prod.split)

lemma evolves_trace_message: "evolves env b (trace_message env e b)"
proof (cases "trace_id e = []")
  case True
  then show ?thesis by (intro evolves.same) (simp add: trace_message_def still_def)
next
  case False
  define b2 where "b2 = sample_trace (clock env (ticks b))
      (snd (NowUnixMs env (count_up (\<lambda>c. c\<lparr>trace_id_present_count := trace_id_present_count c + 1\<rparr>) b)))"
  have "still b b2" by (simp add: b2_def still_def)
  moreover have "evolves env b2 (b2\<lparr>trace_ix := snd (note_trace (trace_id e) (clock env (ticks b)) (trace_ix b2))\<rparr>)"
    by (rule evolves.trace)
  moreover have "still (b2\<lparr>trace_ix := snd (note_trace (trace_id e) (clock env (ticks b)) (trace_ix b2))\<rparr>) (trace_message env e b)"
    using False by (simp add: trace_message_def b2_def still_def NowUnixMs_def Let_def split: prod.split)
  ultimately show ?thesis using still_evolves evolves_still by blast
qed

lemma evolves_dispatch: "evolves env b (snd (dispatch_envelope env l e b))"
proof -
  let ?b1 = "trace_message env e (count_rx_maps e b)"
  obtain pol b2 where R: "ResolvePolicy env e ?b1 = (pol, b2)" by fastforce
  have "still b (count_rx_maps e b)" by (simp add: still_def)
  then have "evolves env b ?b1" using still_evolves evolves_trace_message by blast
  moreover have "evolves env ?b1 b2" using evolves.resolve [of env ?b1 e] R by simp
  moreover have "still b2 (snd (dispatch_envelope env l e b))"
    using R by (simp add: dispatch_envelope_def NowUnixMs_def still_def Let_def split: prod.split RouteResult.split) (simp add: vitals_def)
  ultimately show ?thesis using evolves.chain evolves_still by blast
qed

lemma evolves_pass:
  assumes "inbound_pass env l b = Completed (x, b')" "transport_at b (loop_transport l) \<noteq> None"
  shows "evolves env b b'"
proof -
  obtain ec s p b1 where R: "receive_text env (loop_transport l) b = ((ec, s, p), b1)" by (metis prod.collapse)
  have v: "vitals b1 = vitals b" using vitals_on_transport [OF assms(2)] R by (metis receive_text_def snd_conv)
  define b2 where "b2 = count_up (\<lambda>c. c\<lparr>rx_count := rx_count c + 1\<rparr>) b1"
  have "evolves env b2 (snd (dispatch_envelope env l e b2))" for e by (rule evolves_dispatch)
  then have d: "evolves env b b'" if "dispatch_envelope env l e b2 = (x, b')" for e
    using that still_evolves [of b b2] v by (metis b2_def still_def snd_conv vitals_updates(1))
  have st: "evolves env b b'" if "vitals b' = vitals b" using that by (intro evolves.same) (simp add: still_def)
  consider "vitals b' = vitals b" | e where "dispatch_envelope env l e b2 = (x, b')"
    using assms(1) R v by (auto simp: inbound_pass_def process_text_def Let_def b2_def split: run.splits if_splits)
  then show ?thesis using d st by cases blast+
qed

section \<open>Starting, stopping, reloading\<close>

text \<open>A change of configuration empties the policy cache.\<close>

definition reconfigured :: "BridgeConfig \<Rightarrow> ('t, 'w) bridge \<Rightarrow> ('t, 'w) bridge" where
  "reconfigured c b = b\<lparr>config := c, policy_cache_state := (policy_cache_state b)\<lparr>cache_items := [], cache_index := Map.empty\<rparr>\<rparr>"

definition changes :: "('t, 'w) bridge \<Rightarrow> ('t, 'w) bridge \<Rightarrow> bool" where
  "changes b b' \<longleftrightarrow> still b b' \<or> (\<exists>c. still (reconfigured c b) b')"

lemma vitals_cong_config: "vitals a = vitals b \<Longrightarrow> vitals (reconfigured c a) = vitals (reconfigured c b)"
  by (simp add: vitals_def reconfigured_def)

lemma vitals_changes: "vitals b' = vitals b \<Longrightarrow> changes b b'"
  by (simp add: changes_def still_def)

lemma changes_still: "changes a b \<Longrightarrow> still b c \<Longrightarrow> changes a c"
  unfolding changes_def using still_trans by blast

lemma still_changes: "still a b \<Longrightarrow> changes b c \<Longrightarrow> changes a c"
  unfolding changes_def still_def using vitals_cong_config by metis

lemma vitals_close_unlink [simp]: "vitals (close_unlink env r b) = vitals b"
  by (cases r) (auto simp: close_unlink_def vitals_def split: option.split)

lemma vitals_Stop [simp]: "vitals (bridge_Stop env b) = vitals b"
  by (simp add: bridge_Stop_def Let_def)

lemma vitals_start_loop: "start_loop env l b = (r, b') \<Longrightarrow> vitals b' = vitals b"
  by (auto simp: start_loop_def split: prod.splits enqueue_result.splits if_splits)

lemma vitals_takes [simp]: "vitals (first_worker_takes sch b) = vitals b"
  by (simp add: first_worker_takes_def split: option.split)

lemma vitals_start_loops: "vitals (snd (start_loops env sch b)) = vitals b"
  by (auto simp: start_loops_def dest!: vitals_start_loop split: prod.split option.split)

lemma vitals_open_bridge:
  assumes "transport_at b V2R \<noteq> None" "transport_at b R2V \<noteq> None"
  shows "vitals (snd (open_bridge env sch b)) = vitals b"
proof -
  let ?b = "ApplyTransportTuning (config b) b"
  obtain ec1 b1 where c1: "create_transport env V2R (vehicle_to_robot_endpoint (config ?b)) ?b = (ec1, b1)" by fastforce
  obtain ec2 b2 where c2: "create_transport env R2V (robot_to_vehicle_endpoint (config ?b)) b1 = (ec2, b2)" by fastforce
  have "transport_at ?b V2R \<noteq> None" using assms(1) by (simp add: ApplyTransportTuning_def)
  then have v1: "vitals b1 = vitals b"
    using vitals_on_transport [of ?b V2R] c1 by (metis create_transport_def snd_conv vitals_ops(15))
  have v2: "vitals b2 = vitals b"
    using vitals_on_transport [OF vitals_present [OF v1 assms(2)]] c2 v1 by (metis create_transport_def snd_conv)
  show ?thesis using c1 c2 v1 v2
    by (simp add: open_bridge_def Let_def vitals_start_loops split: prod.split)
qed

lemma adopt_changes: "\<exists>c. still (reconfigured c b) (adopt_config env cfg b)"
  by (rule exI [of _ "config (adopt_config env cfg b)"])
    (simp add: adopt_config_def RebuildPolicyIndex_def PopulateTemplates_def reconfigured_def still_def vitals_def Let_def)

lemma changes_Start: "changes b (snd (Start_config env sch cfg b))"
proof -
  let ?b = "if cfg_source (history b) = [] then b\<lparr>history := (history b)\<lparr>cfg_source := ''direct''\<rparr>\<rparr> else b"
  have s: "still b ?b" by (simp add: still_def)
  show ?thesis
  proof (cases "bridge_running b \<or> vehicle_to_robot_transport ?b = None \<or> robot_to_vehicle_transport ?b = None")
    case True
    then show ?thesis using s by (auto simp: Start_config_def changes_def Let_def)
  next
    case up: False
    obtain c where c: "still (reconfigured c ?b) (adopt_config env cfg ?b)" using adopt_changes by blast
    obtain no b1 where n: "canary_refuses env (adopt_config env cfg ?b) = (no, b1)" by fastforce
    then have v1: "vitals b1 = vitals (reconfigured c ?b)"
      using c by (auto simp: canary_refuses_def NowUnixMs_def still_def vitals_def split: if_splits)
    then have nn: "transport_at b1 V2R \<noteq> None" "transport_at b1 R2V \<noteq> None"
      using up by (auto simp: vitals_def reconfigured_def split: if_splits)
    have "changes ?b (snd (Start_config env sch cfg b))"
    proof (cases no)
      case True
      have "still (reconfigured (last_known_good_config (history b1)) ?b) (canary_rollback env b1)"
        using v1 by (auto simp: canary_rollback_def still_def Let_def) (auto simp: vitals_def reconfigured_def)
      then show ?thesis using up n True by (auto simp: Start_config_def changes_def Let_def)
    next
      case False
      then show ?thesis using up n vitals_open_bridge [OF nn, of env sch] v1 by (auto simp: Start_config_def changes_def still_def Let_def)
    qed
    with s show ?thesis by (rule still_changes)
  qed
qed

lemma changes_Start_provider: "changes b (snd (fst (Start_provider env sch ops provider b)))"
proof (cases provider)
  case None
  then show ?thesis by (simp add: Start_provider_def changes_def)
next
  case (Some p)
  have "changes b (snd (Start_config env sch cfg (b\<lparr>history := h\<rparr>)))" for cfg h
    by (rule still_changes [OF _ changes_Start]) (simp add: still_def)
  with Some show ?thesis by (auto simp: Start_provider_def changes_def [of b b] Let_def split: prod.split)
qed

lemma changes_install: "changes b (snd (install_config env cfg src ver b))"
proof -
  have "\<exists>c. still (reconfigured c b) (snd (install_config env cfg src ver b))"
    by (rule exI [of _ "config (snd (install_config env cfg src ver b))"])
      (simp add: install_config_def still_def Let_def NowUnixMs_def RefreshAggregatedMetrics_def set_audit_def reload_status_def
        reload_rolled_back_def RebuildPolicyIndex_def PopulateTemplates_def reconfigured_def vitals_def)
  then show ?thesis by (simp add: changes_def)
qed

lemma changes_guard: "changes b (snd (guard_config env cfg src ver b))"
  by (simp add: guard_config_def Let_def changes_install vitals_changes)

lemma changes_Reload: "changes b (snd (fst (ReloadConfigIfChanged env ops provider b)))"
  by (cases provider) (simp_all add: ReloadConfigIfChanged_def Let_def changes_guard vitals_changes split: prod.split)

section \<open>The transition system\<close>

text \<open>
  The operations of the public interface and the passes of the inbound loops of a running bridge. A start
  that leaves a loop running in the caller is a step too: the passes of that loop are further steps.
\<close>

inductive bridge_step :: "'t bridge_env \<Rightarrow> 'p IConfigProvider \<Rightarrow> ('t, 'w) bridge \<Rightarrow> ('t, 'w) bridge \<Rightarrow> bool"
  for env :: "'t bridge_env" and ops :: "'p IConfigProvider" where
  publish: "bridge_step env ops b (snd (Publish env (transport_ptr b r) e b))"
| receive: "bridge_running b \<Longrightarrow> inbound_pass env l b = Completed (x, b') \<Longrightarrow> bridge_step env ops b b'"
| start: "bridge_step env ops b (snd (Start_config env sch cfg b))"
| start_provided: "bridge_step env ops b (snd (fst (Start_provider env sch ops provider b)))"
| reload: "bridge_step env ops b (snd (fst (ReloadConfigIfChanged env ops provider b)))"
| stop: "bridge_step env ops b (bridge_Stop env b)"
| register_vehicle: "bridge_step env ops b (b\<lparr>vehicle_router := snd (Register (vehicle_router b) tp h)\<rparr>)"
| register_robot: "bridge_step env ops b (b\<lparr>robot_router := snd (Register (robot_router b) tp h)\<rparr>)"
| reporter: "bridge_step env ops b (SetDiagnosticsReporter d b)"
| authenticate: "bridge_step env ops b (SetMessageAuthenticator a b)"
| command: "bridge_step env ops b (snd (ExecuteDiagnosticCommand view cmd b))"
| snapshot: "bridge_step env ops b (snd (CaptureMetricsSnapshot env b))"
| delta: "bridge_step env ops b (snd (ExportMetricsDelta env b))"

inductive bridge_reachable ::
  "'t bridge_env \<Rightarrow> 'p IConfigProvider \<Rightarrow> 't option \<Rightarrow> 't option \<Rightarrow> ('t, 'w) bridge \<Rightarrow> bool"
  for env :: "'t bridge_env" and ops :: "'p IConfigProvider" and v :: "'t option" and r :: "'t option" where
  created: "bridge_reachable env ops v r (new_bridge v r w)"
| stepped: "bridge_reachable env ops v r b \<Longrightarrow> bridge_step env ops b b' \<Longrightarrow> bridge_reachable env ops v r b'"

lemma vitals_reports [simp]:
  "vitals (snd (ExecuteDiagnosticCommand view cmd b)) = vitals b" "vitals (snd (CaptureMetricsSnapshot env b)) = vitals b"
  "vitals (snd (ExportMetricsDelta env b)) = vitals b" "vitals (SetDiagnosticsReporter d b) = vitals b"
  "vitals (SetMessageAuthenticator a b) = vitals b"
proof -
  show "vitals (snd (ExecuteDiagnosticCommand view cmd b)) = vitals b"
    by (simp add: ExecuteDiagnosticCommand_def DumpRuntimeState_def GetPolicyLintReport_def Let_def split: option.split)
  show "vitals (snd (CaptureMetricsSnapshot env b)) = vitals b" "vitals (snd (ExportMetricsDelta env b)) = vitals b"
    using vitals_refresh [of env True b]
    by (simp_all add: CaptureMetricsSnapshot_def ExportMetricsDelta_def NowUnixMs_def vitals_def split: prod.split)
qed (simp_all add: SetDiagnosticsReporter_def SetMessageAuthenticator_def)

text \<open>
  What a predicate has to survive in order to hold in every state of a bridge: parts of the state it does
  not look at, a resolution of a policy, the noting of a trace, and a change of configuration that empties
  the cache. The transports must be there for an inbound loop to run, which the bridge itself ensures.
\<close>

locale bridge_invariant =
  fixes env :: "'t bridge_env" and I :: "('t, 'w) bridge \<Rightarrow> bool"
  assumes I_same: "I b \<Longrightarrow> still b b' \<Longrightarrow> I b'"
    and I_resolve: "I b \<Longrightarrow> I (snd (ResolvePolicy env e b))"
    and I_trace: "I b \<Longrightarrow> I (b\<lparr>trace_ix := snd (note_trace t now (trace_ix b))\<rparr>)"
    and I_config: "I b \<Longrightarrow> I (reconfigured c b)"
begin

lemma I_evolves: "evolves env b b' \<Longrightarrow> I b \<Longrightarrow> I b'"
  by (induction rule: evolves.induct) (blast intro: I_same I_resolve I_trace)+

lemma I_changes: "changes b b' \<Longrightarrow> I b \<Longrightarrow> I b'"
  unfolding changes_def using I_same I_config by blast

lemma I_step:
  assumes "bridge_step env ops b b'" "transport_at b V2R \<noteq> None" "transport_at b R2V \<noteq> None" "I b"
  shows "I b'"
  using assms
proof (cases rule: bridge_step.cases)
  case (publish r e)
  then show ?thesis using I_evolves [OF evolves_Publish] assms(4) by blast
next
  case (receive l x)
  then show ?thesis using I_evolves [OF evolves_pass] assms(2-4) by (cases l) auto
next
  case (start sch cfg)
  then show ?thesis using I_changes [OF changes_Start] assms(4) by blast
next
  case (start_provided sch provider)
  then show ?thesis using I_changes [OF changes_Start_provider] assms(4) by blast
next
  case (reload provider)
  then show ?thesis using I_changes [OF changes_Reload] assms(4) by blast
qed (use I_same [OF assms(4)] in \<open>simp_all add: still_def\<close>)

lemma I_reachable:
  assumes "bridge_reachable env ops (Some v) (Some r) b" "\<And>w. I (new_bridge (Some v) (Some r) w)"
    "\<And>b :: ('t, 'w) bridge. bridge_reachable env ops (Some v) (Some r) b \<Longrightarrow> transport_at b V2R \<noteq> None \<and> transport_at b R2V \<noteq> None"
  shows "I b"
  using assms(1)
proof (induction rule: bridge_reachable.induct)
  case (created w)
  then show ?case by (rule assms(2))
next
  case (stepped b b')
  then show ?case using I_step [OF stepped(2)] assms(3) by blast
qed

end

text \<open>The transports stay where they are.\<close>

definition has_transports :: "('t, 'w) bridge \<Rightarrow> bool" where
  "has_transports b \<longleftrightarrow> transport_at b V2R \<noteq> None \<and> transport_at b R2V \<noteq> None"

interpretation ports: bridge_invariant env has_transports for env
proof
  fix b b' :: "('a, 'b) bridge" and e t now c
  show "has_transports b \<Longrightarrow> still b b' \<Longrightarrow> has_transports b'" by (simp add: has_transports_def still_def vitals_def)
  show "has_transports b \<Longrightarrow> has_transports (snd (ResolvePolicy env e b))"
    using quiet_fields(2,3) [OF quiet_ResolvePolicy [of b env e]] by (simp add: has_transports_def)
qed (simp_all add: has_transports_def reconfigured_def)

lemma reachable_transports:
  assumes "bridge_reachable env ops (Some v) (Some r) b"
  shows "has_transports b"
  using assms
proof (induction rule: bridge_reachable.induct)
  case (created w)
  then show ?case by (simp add: has_transports_def new_bridge_def)
next
  case (stepped b b')
  then show ?case using ports.I_step [OF stepped(2)] by (simp add: has_transports_def)
qed

text \<open>The trace index stays well formed.\<close>

interpretation traces: bridge_invariant env "\<lambda>b. trace_wf (trace_ix b)" for env
proof
  fix b b' :: "('a, 'b) bridge" and e t now c
  show "trace_wf (trace_ix b) \<Longrightarrow> trace_wf (trace_ix (snd (ResolvePolicy env e b)))"
    using quiet_fields(8) [OF quiet_ResolvePolicy [of b env e]] by simp
qed (simp_all add: still_def vitals_def reconfigured_def note_trace_wf)

section \<open>The policy cache is transparent\<close>

text \<open>
  The cache is well formed and, when no rule looks at the source or the target, every entry is what the
  current table resolves for each envelope with its key.
\<close>

definition entry_of :: "BridgePolicyTable \<Rightarrow> MessageEnvelope \<Rightarrow> PolicyCacheEntry" where
  "entry_of t e = (case ResolvePolicyInternal t e of
     (p, ov, cf) \<Rightarrow> \<lparr>entry_policy = p, entry_override_applied = ov, entry_conflict_detected = cf\<rparr>)"

definition cached_faithfully :: "BridgePolicyTable \<Rightarrow> policy_cache \<Rightarrow> bool" where
  "cached_faithfully t c \<longleftrightarrow>
     (\<forall>e entry. fst (LookupPolicyCache c (cache_key e)) = Some entry \<longrightarrow> entry = entry_of t e)"

definition cache_ok :: "('t, 'w) bridge \<Rightarrow> bool" where
  "cache_ok b \<longleftrightarrow> cache_wf (policy_cache_state b) \<and>
     (endpoint_blind (table_of b) \<longrightarrow> cached_faithfully (table_of b) (policy_cache_state b))"

lemma note_resolution_cache [simp]:
  "policy_cache_state (note_resolution env ov cf b) = policy_cache_state b" "config (note_resolution env ov cf b) = config b"
  by (simp_all add: note_resolution_def note_conflict_def NowUnixMs_def Let_def split: prod.split)

text \<open>A resolution in terms of the cache and the table.\<close>

lemma ResolvePolicy_cache:
  assumes "cache_wf (policy_cache_state b)"
  shows "config (snd (ResolvePolicy env e b)) = config b"
    and "fst (ResolvePolicy env e b) =
       (case fst (LookupPolicyCache (policy_cache_state b) (cache_key e)) of
          Some entry \<Rightarrow> entry_policy entry | None \<Rightarrow> fst (ResolvePolicyInternal (table_of b) e))"
    and "policy_cache_state (snd (ResolvePolicy env e b)) =
       (let c = snd (LookupPolicyCache (policy_cache_state b) (cache_key e)) in
        case fst (LookupPolicyCache (policy_cache_state b) (cache_key e)) of
          Some entry \<Rightarrow> c | None \<Rightarrow> snd (StorePolicyCache c (cache_key e) (entry_of (table_of b) e)))"
proof -
  obtain hit c where L: "LookupPolicyCache (policy_cache_state b) (cache_key e) = (hit, c)" by fastforce
  obtain p ov cf where R: "ResolvePolicyInternal (table_of b) e = (p, ov, cf)" by (metis prod_cases3)
  have "cache_wf c" using Lookup_wf [OF assms, of "cache_key e"] L by simp
  then have v: "fst (StorePolicyCache c (cache_key e) x) = Some x" for x by (rule Store_value)
  note defs = ResolvePolicy_def L R entry_of_def Let_def
  show "config (snd (ResolvePolicy env e b)) = config b"
    by (cases hit) (simp_all add: defs split: prod.split)
  show "fst (ResolvePolicy env e b) = (case fst (LookupPolicyCache (policy_cache_state b) (cache_key e)) of
      Some entry \<Rightarrow> entry_policy entry | None \<Rightarrow> fst (ResolvePolicyInternal (table_of b) e))"
    using v [of "\<lparr>entry_policy = p, entry_override_applied = ov, entry_conflict_detected = cf\<rparr>"]
    by (cases hit) (auto simp: defs split: prod.split option.split)
  show "policy_cache_state (snd (ResolvePolicy env e b)) =
     (let c = snd (LookupPolicyCache (policy_cache_state b) (cache_key e)) in
      case fst (LookupPolicyCache (policy_cache_state b) (cache_key e)) of
        Some entry \<Rightarrow> c | None \<Rightarrow> snd (StorePolicyCache c (cache_key e) (entry_of (table_of b) e)))"
    by (cases hit) (simp_all add: defs split: prod.split)
qed

lemma entry_of_key: "endpoint_blind t \<Longrightarrow> cache_key e = cache_key e' \<Longrightarrow> entry_of t e = entry_of t e'"
  using ResolvePolicyInternal_blind [of t e e'] by (simp add: entry_of_def cache_key_def)

lemma faithful_lookup:
  "cache_wf c \<Longrightarrow> cached_faithfully t c \<Longrightarrow> cached_faithfully t (snd (LookupPolicyCache c k))"
  by (simp add: cached_faithfully_def pc.get_after_get)

lemma faithful_store:
  assumes "cache_wf c" "cached_faithfully t c" "endpoint_blind t"
  shows "cached_faithfully t (snd (StorePolicyCache c (cache_key e) (entry_of t e)))"
  unfolding cached_faithfully_def
proof (intro allI impI)
  fix e' entry
  assume g: "fst (LookupPolicyCache (snd (StorePolicyCache c (cache_key e) (entry_of t e))) (cache_key e')) = Some entry"
  show "entry = entry_of t e'"
  proof (cases "cache_key e' = cache_key e")
    case True
    have "entry = entry_of t e" using g pc.get_after_put [OF assms(1), of "cache_key e" "entry_of t e"] True by simp
    then show ?thesis using entry_of_key [OF assms(3) True] by simp
  next
    case False
    then show ?thesis using pc.put_invents_nothing [OF assms(1) False g] assms(2) by (simp add: cached_faithfully_def)
  qed
qed

interpretation cache: bridge_invariant env cache_ok for env
proof
  fix b b' :: "('a, 'b) bridge" and e t now c
  show "cache_ok b \<Longrightarrow> still b b' \<Longrightarrow> cache_ok b'" by (simp add: cache_ok_def still_def vitals_def)
  show "cache_ok b \<Longrightarrow> cache_ok (b\<lparr>trace_ix := snd (note_trace t now (trace_ix b))\<rparr>)" by (simp add: cache_ok_def)
  show "cache_ok (reconfigured c b)" if "cache_ok b"
  proof -
    have "cache_wf ((policy_cache_state b)\<lparr>cache_items := [], cache_index := Map.empty\<rparr>)" by (simp add: cache_wf_def)
    then show ?thesis
      by (simp add: cache_ok_def reconfigured_def cached_faithfully_def Lookup_value cache_view_def)
  qed
  show "cache_ok (snd (ResolvePolicy env e b))" if "cache_ok b"
  proof -
    have wf: "cache_wf (policy_cache_state b)" using that by (simp add: cache_ok_def)
    let ?c = "snd (LookupPolicyCache (policy_cache_state b) (cache_key e))"
    have c: "cache_wf ?c" "endpoint_blind (table_of b) \<longrightarrow> cached_faithfully (table_of b) ?c"
      using that Lookup_wf [OF wf] faithful_lookup [OF wf] by (auto simp: cache_ok_def)
    show ?thesis
    proof (cases "fst (LookupPolicyCache (policy_cache_state b) (cache_key e))")
      case None
      then show ?thesis using c(2) Store_wf [OF c(1)] faithful_store [OF c(1)]
        by (simp add: cache_ok_def ResolvePolicy_cache [OF wf] Let_def)
    next
      case (Some entry)
      then show ?thesis using c by (simp add: cache_ok_def ResolvePolicy_cache [OF wf] Let_def)
    qed
  qed
qed

lemma entry_policy_of [simp]: "entry_policy (entry_of t e) = fst (ResolvePolicyInternal t e)"
  by (simp add: entry_of_def split: prod.split)

lemma cache_ok_resolves:
  assumes "cache_ok b" "endpoint_blind (table_of b)"
  shows "fst (ResolvePolicy env e b) = fst (ResolvePolicyInternal (table_of b) e)"
proof (cases "fst (LookupPolicyCache (policy_cache_state b) (cache_key e))")
  case (Some entry)
  then have "entry = entry_of (table_of b) e" using assms by (simp add: cache_ok_def cached_faithfully_def)
  then show ?thesis using Some assms(1) by (simp add: cache_ok_def ResolvePolicy_cache)
qed (use assms(1) in \<open>simp add: cache_ok_def ResolvePolicy_cache\<close>)

lemma cache_ok_new: "cache_ok (new_bridge v r w)"
  using cache_wf_empty by (simp add: cache_ok_def new_bridge_def cached_faithfully_def Lookup_value) (simp add: cache_view_def empty_cache_def)

lemma reachable_present:
  "bridge_reachable env ops (Some v) (Some r) b \<Longrightarrow> transport_at b V2R \<noteq> None \<and> transport_at b R2V \<noteq> None"
  by (drule reachable_transports) (simp add: has_transports_def)

lemma reachable_cache_ok: "bridge_reachable env ops (Some v) (Some r) b \<Longrightarrow> cache_ok b"
  by (rule cache.I_reachable [OF _ cache_ok_new reachable_present])

lemma trace_wf_new: "trace_wf (trace_ix (new_bridge v r w))"
  by (simp add: new_bridge_def trace_wf_def empty_trace_index_def)

lemma reachable_trace_wf: "bridge_reachable env ops (Some v) (Some r) b \<Longrightarrow> trace_wf (trace_ix b)"
  by (rule traces.I_reachable [OF _ trace_wf_new reachable_present])

section \<open>Properties\<close>

text \<open>
  C8: the invariant of the bridge. Whatever sequence of starts, stops, reloads, publications, inbound
  passes, registrations and commands a bridge built on two transports has gone through, its transports are
  there, the list and the index of its policy cache agree and hold at most 256 entries, and its trace index
  is coherent and holds at most 1024 traces.
\<close>

theorem bridge_state_invariant:
  assumes "bridge_reachable env ops (Some v) (Some r) b"
  shows "vehicle_to_robot_transport b \<noteq> None \<and> robot_to_vehicle_transport b \<noteq> None \<and>
    cache_wf (policy_cache_state b) \<and> length (cache_items (policy_cache_state b)) \<le> 256 \<and>
    trace_wf (trace_ix b) \<and> length (insert_order (trace_ix b)) \<le> 1024"
proof -
  have "cache_wf (policy_cache_state b)" using reachable_cache_ok [OF assms] by (simp add: cache_ok_def)
  then show ?thesis using cache_wfD(4) reachable_trace_wf [OF assms] reachable_present [OF assms]
    by (simp add: trace_wf_def kTraceIndexMaxEntries_def kPolicyCacheMaxEntries_def)
qed

text \<open>A bridge on message queues that was built, refused a publication, and was stopped.\<close>

definition idle_env :: "ref_state PosixMessageQueue bridge_env" where
  "idle_env = mq_bridge_env ref_api (\<lambda>_. 0) (\<lambda>_. 0) FirstBody (\<lambda>_. False) id"

definition idle_bridge :: "(ref_state PosixMessageQueue, unit) bridge" where
  "idle_bridge = new_bridge (Some (ref_transport_queue [])) (Some (ref_transport_queue [])) ()"

definition refused_bridge :: "(ref_state PosixMessageQueue, unit) bridge" where
  "refused_bridge = snd (Publish idle_env (transport_ptr idle_bridge V2R) sample_envelope idle_bridge)"

lemma refused_reachable:
  "bridge_reachable idle_env static_provider (Some (ref_transport_queue [])) (Some (ref_transport_queue [])) refused_bridge"
  unfolding refused_bridge_def
  by (rule bridge_reachable.stepped [OF _ bridge_step.publish]) (simp add: idle_bridge_def bridge_reachable.created)

theorem bridge_state_invariant_witness:
  "cache_wf (policy_cache_state refused_bridge) \<and> trace_wf (trace_ix refused_bridge)"
  using bridge_state_invariant [OF refused_reachable] by blast

text \<open>
  C9: the policy cache changes no decision. In every state a bridge can reach, if no rule of the current
  table looks at the source or the target of a message, the policy that is resolved through the cache, for
  any message, is the one the table resolves directly; starts, reloads and roll-backs included.
\<close>

theorem policy_cache_transparent:
  assumes "bridge_reachable env ops (Some v) (Some r) b" and "endpoint_blind (table_of b)"
  shows "fst (ResolvePolicy env e b) = fst (ResolvePolicyInternal (table_of b) e)"
  using cache_ok_resolves [OF reachable_cache_ok [OF assms(1)] assms(2)] .

theorem policy_cache_transparent_witness:
  "fst (ResolvePolicy idle_env sample_envelope refused_bridge) =
     fst (ResolvePolicyInternal (table_of refused_bridge) sample_envelope)"
proof (rule policy_cache_transparent [OF refused_reachable])
  have "Publish idle_env (transport_ptr idle_bridge V2R) sample_envelope idle_bridge =
      publish_fail idle_env id kThreadStartFailed idle_bridge"
    by (simp add: Publish_def idle_bridge_def new_bridge_def)
  then have "config refused_bridge = config idle_bridge"
    by (simp add: refused_bridge_def publish_fail_def quiet_fields(4) [OF quiet_refresh])
  then show "endpoint_blind (table_of refused_bridge)"
    by (simp add: idle_bridge_def new_bridge_def default_BridgeConfig_def default_PolicyTable_def endpoint_blind_def)
qed

text \<open>
  The cache does not know about endpoints. Right after a message was resolved, any other message with
  the same topic, channel and quality of service gets the same policy, whatever its source and target are
  and whatever the table says about them.
\<close>

theorem policy_shared_by_key:
  assumes "cache_wf (policy_cache_state b)" and "cache_key e' = cache_key e"
  shows "fst (ResolvePolicy env e' (snd (ResolvePolicy env e b))) = fst (ResolvePolicy env e b)"
proof -
  note wf = assms(1)
  let ?c = "snd (LookupPolicyCache (policy_cache_state b) (cache_key e))"
  have c: "cache_wf ?c" by (rule Lookup_wf [OF wf])
  have n: "cache_wf (policy_cache_state (snd (ResolvePolicy env e b)))"
    using c Store_wf [OF c] by (simp add: ResolvePolicy_cache [OF wf] Let_def split: option.split)
  show ?thesis
  proof (cases "fst (LookupPolicyCache (policy_cache_state b) (cache_key e))")
    case None
    then show ?thesis using pc.get_after_put [OF c]
      by (simp add: ResolvePolicy_cache [OF n] ResolvePolicy_cache [OF wf] assms(2))
  next
    case (Some entry)
    then show ?thesis using pc.get_after_get [OF wf]
      by (simp add: ResolvePolicy_cache [OF n] ResolvePolicy_cache [OF wf] assms(2))
  qed
qed

text \<open>A table with a stricter rule for one source.\<close>

definition pump_rule :: PolicyRule where
  "pump_rule = default_PolicyRule\<lparr>match_any_source := False, rule_source := ''pump'', rule_topic := ''*'',
     policy := default_SlaPolicy\<lparr>max_end_to_end_latency_ms := 5\<rparr>\<rparr>"

definition pump_bridge :: "(ref_state PosixMessageQueue, unit) bridge" where
  "pump_bridge = idle_bridge\<lparr>config := default_BridgeConfig\<lparr>policy_table := rebuild_index (default_PolicyTable\<lparr>rules := [pump_rule]\<rparr>)\<rparr>\<rparr>"

definition from_pump :: MessageEnvelope where
  "from_pump = sample_envelope\<lparr>source := ''pump''\<rparr>"

lemma pump_table: "table_of pump_bridge = rebuild_index (default_PolicyTable\<lparr>rules := [pump_rule]\<rparr>)"
  by (simp add: pump_bridge_def default_BridgeConfig_def)

lemma pump_resolves:
  "fst (ResolvePolicyInternal (table_of pump_bridge) e) = (if source e = ''pump'' then policy pump_rule else default_SlaPolicy)"
  unfolding pump_table
  by (simp add: ResolvePolicyInternal_def rebuild_index_def find_best_indexed Let_def candidates_def RuleMatches_def
      pump_rule_def default_PolicyRule_def default_PolicyTable_def)

theorem policy_shared_by_key_witness:
  "fst (ResolvePolicy idle_env sample_envelope (snd (ResolvePolicy idle_env from_pump pump_bridge))) = policy pump_rule \<and>
   fst (ResolvePolicyInternal (table_of pump_bridge) sample_envelope) = default_SlaPolicy \<and> policy pump_rule \<noteq> default_SlaPolicy"
proof -
  have wf: "cache_wf (policy_cache_state pump_bridge)"
    by (simp add: pump_bridge_def idle_bridge_def new_bridge_def cache_wf_empty)
  have miss: "fst (LookupPolicyCache (policy_cache_state pump_bridge) (cache_key from_pump)) = None"
    using wf by (simp add: Lookup_value cache_view_def pump_bridge_def idle_bridge_def new_bridge_def) (simp add: empty_cache_def)
  then have "fst (ResolvePolicy idle_env from_pump pump_bridge) = policy pump_rule"
    by (simp add: ResolvePolicy_cache [OF wf] pump_resolves from_pump_def)
  moreover have "cache_key sample_envelope = cache_key from_pump" by (simp add: cache_key_def from_pump_def sample_envelope_def)
  moreover have "policy pump_rule \<noteq> default_SlaPolicy" by (simp add: pump_rule_def default_SlaPolicy_def default_PolicyRule_def)
  ultimately show ?thesis using policy_shared_by_key [OF wf, of sample_envelope from_pump idle_env]
    by (simp add: pump_resolves sample_envelope_def)
qed

end
