(* ===== verification/Bridge_Conservation.thy ===== *)
theory Bridge_Conservation
  imports Bridge_Invariants Bridge_Startup
begin

text \<open>
  Publishing and receiving together, over transports that keep their contract: no message is lost,
  duplicated or invented between the two, and a message that was published reaches the handler of its topic.
\<close>

section \<open>What a pass takes\<close>

lemma process_text_received:
  assumes "process_text env l s b = Completed (x, b')"
  shows "was_received x"
proof -
  have "was_received (fst (dispatch_envelope env l e b1))" for e and b1 :: "('a, 'b) bridge"
    by (simp add: dispatch_envelope_def was_received_def Let_def split: prod.split RouteResult.split)
  then have "dispatch_envelope env l e b1 = (x, b') \<Longrightarrow> was_received x" for e b1 by (metis fst_conv)
  with assms show ?thesis
    by (auto simp: process_text_def Let_def was_received_def split: run.splits if_splits)
qed

lemma inbound_pass_split:
  assumes "inbound_pass env l b = Completed (x, b')"
  obtains ec s p b1 where "receive_text env (loop_transport l) b = ((ec, s, p), b1)" "was_received x \<longleftrightarrow> ec = kOk"
    "accounted_pass x b1 b'" "ec = kOk \<Longrightarrow> process_text env l s b1 = Completed (x, b')"
proof -
  obtain ec s p b1 where R: "receive_text env (loop_transport l) b = ((ec, s, p), b1)" by (metis prod.collapse)
  consider "ec = kTimeout \<or> ec = kWouldBlock" "x = NothingReceived" "b' = b1"
    | "ec \<noteq> kOk" "x = ReceiveFailed" "b' = note_receive_error env b1"
    | "ec = kOk" "process_text env l s b1 = Completed (x, b')"
    using assms R by (auto simp: inbound_pass_def split: if_splits)
  then show ?thesis
  proof cases
    case 1
    then show ?thesis using that [OF R] by (auto simp: was_received_def accounted_pass_def)
  next
    case 2
    have "accounted_pass x b1 b'"
      using quiet_accounted [OF quiet_note_receive_error, where x = ReceiveFailed, of b1 env] 2 by simp
    with 2 show ?thesis using that [OF R] by (auto simp: was_received_def)
  next
    case 3
    then show ?thesis using that [OF R] process_text_received process_text_accounted by blast
  qed
qed

context bridge_transports
begin

lemma pass_taken:
  assumes "inbound_pass env l b = Completed (x, b')" "transport_at b (loop_transport l) \<noteq> None"
  shows "\<exists>taken. size taken = of_bool (was_received x) \<and> holdings contents b' + taken = holdings contents b"
proof -
  let ?r = "loop_transport l"
  obtain t where t: "transport_at b ?r = Some t" using assms(2) by auto
  obtain ec s p b1 where R: "receive_text env ?r b = ((ec, s, p), b1)" "was_received x \<longleftrightarrow> ec = kOk" "accounted_pass x b1 b'"
    using inbound_pass_split [OF assms(1)] by metis
  obtain t' where rt: "ReceiveWithTimeout (transport_ops env ?r) [] 0 (transport_receive_timeout_ms (default_policy (table_of b))) t = ((ec, s, p), t')"
    and b1: "b1 = set_transport ?r t' b"
    using R(1) t by (auto simp: receive_text_def on_transport_def split: prod.splits)
  have "\<exists>taken. size taken = of_bool (ec = kOk) \<and> contents t' + taken = contents t"
  proof (cases "ec = kOk")
    case True
    then obtain raw where "contents t = add_mset raw (contents t')"
      using message_transport.receive_ok [OF ops_contract] rt by blast
    then show ?thesis using True by (intro exI [of _ "{#raw#}"]) simp
  qed (use message_transport.receive_fail [OF ops_contract rt] in simp)
  then obtain taken where k: "size taken = of_bool (ec = kOk)" "contents t' + taken = contents t" by blast
  have "holdings contents b1 + contents t = holdings contents b + contents t'" using holdings_set_transport [OF t] b1 by simp
  then have "holdings contents b1 + taken + contents t' = holdings contents b + contents t'"
    unfolding k(2) [symmetric] by (simp only: add.assoc add.commute [of taken])
  then have "holdings contents b1 + taken = holdings contents b" by simp
  moreover have "holdings contents b' = holdings contents b1"
    using R(3) [unfolded accounted_pass_def, THEN conjunct2, THEN conjunct2, THEN spec [of _ V2R]]
      R(3) [unfolded accounted_pass_def, THEN conjunct2, THEN conjunct2, THEN spec [of _ R2V]]
    by (intro holdings_same) simp_all
  ultimately show ?thesis using k(1) R(2) by auto
qed

end

section \<open>Sequences of publications and passes\<close>

datatype traffic_op = PublishOp tref MessageEnvelope | PassOp inbound_loop

text \<open>The texts of the publications that returned ok, the exits of the passes, and the state after.\<close>

fun traffic_run ::
  "'t bridge_env \<Rightarrow> traffic_op list \<Rightarrow> ('t, 'w) bridge \<Rightarrow> (string list \<times> inbound_exit list \<times> ('t, 'w) bridge) run" where
  "traffic_run env [] b = Completed ([], [], b)"
| "traffic_run env (PublishOp r e # ops) b =
     (case Publish env (transport_ptr b r) e b of
        (ec, b1) \<Rightarrow>
          (case traffic_run env ops b1 of
             Terminated \<Rightarrow> Terminated
           | Completed (ok, xs, b2) \<Rightarrow>
               Completed (if ec = kOk then wire_text (ResolveMode (config b) e) e # ok else ok, xs, b2)))"
| "traffic_run env (PassOp l # ops) b =
     (case inbound_pass env l b of
        Terminated \<Rightarrow> Terminated
      | Completed (x, b1) \<Rightarrow>
          (case traffic_run env ops b1 of
             Terminated \<Rightarrow> Terminated
           | Completed (ok, xs, b2) \<Rightarrow> Completed (ok, x # xs, b2)))"

definition publish_count :: "traffic_op list \<Rightarrow> nat" where
  "publish_count ops = length (filter (\<lambda>x. case x of PublishOp r e \<Rightarrow> True | PassOp l \<Rightarrow> False) ops)"

context bridge_transports
begin

lemma run_conserves:
  assumes "traffic_run env ops b = Completed (ok, xs, b')" "has_transports b"
  shows "\<exists>received dropped. size received = length (filter was_received xs) \<and> size dropped \<le> 2 * publish_count ops \<and>
    holdings contents b' + received + dropped = holdings contents b + mset ok"
  using assms
proof (induction ops arbitrary: b ok xs)
  case (Cons op ops)
  show ?case
  proof (cases op)
    case (PublishOp r e)
    obtain ec b1 where P: "Publish env (transport_ptr b r) e b = (ec, b1)" by fastforce
    obtain ok1 where T: "traffic_run env ops b1 = Completed (ok1, xs, b')"
      "ok = (if ec = kOk then wire_text (ResolveMode (config b) e) e # ok1 else ok1)"
      using Cons.prems(1) P PublishOp by (auto split: run.splits)
    have "has_transports b1" using ports.I_evolves [OF evolves_Publish Cons.prems(2)] P by (metis snd_conv)
    then obtain rcv dr where I: "size rcv = length (filter was_received xs)" "size dr \<le> 2 * publish_count ops"
      "holdings contents b' + rcv + dr = holdings contents b1 + mset ok1"
      using Cons.IH [OF T(1)] by blast
    obtain d where d: "size d \<le> 2" "holdings contents b1 + d =
        holdings contents b + (if ec = kOk then {#wire_text (ResolveMode (config b) e) e#} else {#})"
      using gained_Publish [of b e r] P by (auto simp: gained_def)
    have "holdings contents b' + rcv + (dr + d) = holdings contents b1 + d + mset ok1"
      unfolding add.assoc [symmetric] I(3) by (simp only: add.assoc add.commute [of d])
    also have "\<dots> = holdings contents b + mset ok" unfolding d(2) T(2) by simp
    finally show ?thesis using I(1,2) d(1) PublishOp
      by (intro exI [of _ rcv] exI [of _ "dr + d"]) (simp add: publish_count_def)
  next
    case (PassOp l)
    obtain x b1 ys where P: "inbound_pass env l b = Completed (x, b1)"
      and T: "traffic_run env ops b1 = Completed (ok, ys, b')" "xs = x # ys"
      using Cons.prems(1) PassOp by (auto split: run.splits)
    have nn: "transport_at b (loop_transport l) \<noteq> None" using Cons.prems(2) by (cases l) (simp_all add: has_transports_def)
    have "has_transports b1" using ports.I_evolves [OF evolves_pass [OF P nn] Cons.prems(2)] .
    then obtain rcv dr where I: "size rcv = length (filter was_received ys)" "size dr \<le> 2 * publish_count ops"
      "holdings contents b' + rcv + dr = holdings contents b1 + mset ok"
      using Cons.IH [OF T(1)] by blast
    obtain tk where tk: "size tk = of_bool (was_received x)" "holdings contents b1 + tk = holdings contents b"
      using pass_taken [OF P nn] by blast
    have "holdings contents b' + (rcv + tk) + dr = holdings contents b' + rcv + dr + tk" by (simp only: add.assoc add.commute [of tk])
    also have "\<dots> = holdings contents b1 + tk + mset ok" unfolding I(3) by (simp only: add.assoc add.commute [of tk])
    also have "\<dots> = holdings contents b + mset ok" unfolding tk(2) ..
    finally show ?thesis using I(1,2) tk(1) T(2) PassOp
      by (intro exI [of _ "rcv + tk"] exI [of _ dr]) (auto simp: publish_count_def)
  qed
qed simp

end

section \<open>Handlers are not touched by a publication\<close>

definition audience :: "('t, 'w) bridge \<Rightarrow> _" where
  "audience b = (app b, vehicle_router b, robot_router b, diagnostics_reporter b)"

lemma audience_quiet: "quiet b b' \<Longrightarrow> audience b' = audience b"
  by (simp add: audience_def quiet_fields)

lemma audience_sent: "sent r b b' \<Longrightarrow> audience b' = audience b"
  by (cases r) (auto simp: sent_def audience_def)

lemma audience_updates [simp]:
  "audience (b\<lparr>counters := c\<rparr>) = audience b" "audience (b\<lparr>transport_orchestrator := t\<rparr>) = audience b"
  "audience (b\<lparr>history := h\<rparr>) = audience b" "audience (b\<lparr>idempotency_recent_keys := k\<rparr>) = audience b"
  "audience (b\<lparr>idempotency_drop_count := n\<rparr>) = audience b" "audience (b\<lparr>flow := fl\<rparr>) = audience b"
  "audience (set_health p q b) = audience b" "audience (count_invalid b) = audience b" "audience (count_tx b) = audience b"
  "audience (count_tx_maps e b) = audience b" "audience (record_event env event envelope b) = audience b"
  "audience (ReleaseFlowSlot tr b) = audience b" "audience (snd (AcquireFlowSlot tr b)) = audience b"
  "audience (RefreshAggregatedMetrics env force b) = audience b"
  by (simp_all add: audience_def set_health_def count_invalid_def count_tx_def count_tx_maps_def record_event_def NowUnixMs_def
      ReleaseFlowSlot_def AcquireFlowSlot_def RefreshAggregatedMetrics_def Let_def)

lemma audience_fail: "(\<And>x. audience (f x) = audience x) \<Longrightarrow> audience (snd (publish_fail env f ec b)) = audience b"
  by (simp add: publish_fail_def)

lemma audience_send: "PublishWithBackpressure env r x p pol b = (ec, b') \<Longrightarrow> audience b' = audience b"
  using audience_sent [OF sent_PublishWithBackpressure] by (metis snd_conv)

lemma audience_failover: "audience (snd (publish_failover env r x p pol ec b)) = audience b"
  by (auto simp: publish_failover_def Let_def audience_fail dest!: audience_send split: option.split prod.split)

lemma audience_encoded: "audience (snd (publish_encoded env r e x b)) = audience b"
proof -
  obtain pol b1 where R: "ResolvePolicy env e b = (pol, b1)" by fastforce
  have "audience b1 = audience b" using audience_quiet [OF quiet_ResolvePolicy] R by (metis snd_conv)
  moreover obtain ok b2 where A: "AcquireFlowSlot (Some r) b1 = (ok, b2)" by fastforce
  moreover have "audience b2 = audience b1" using audience_updates(13) [of "Some r" b1] A by simp
  ultimately show ?thesis using R
    by (cases ok) (auto simp: publish_encoded_def Let_def audience_fail audience_failover dest!: audience_send split: prod.split)
qed

lemma audience_Publish: "audience (snd (Publish env (transport_ptr b r) e b)) = audience b"
proof -
  have c: "audience b1 = audience b" if "ShouldApplyCanaryForEnvelope env e b = (ok, b1)" for ok b1
    using audience_quiet [OF canary_quiet [of b env e]] that by simp
  show ?thesis
    by (cases rule: Publish_cases [of b "transport_ptr b r" env e]) 
      (auto simp: audience_fail audience_encoded dest: c)
qed

text \<open>Only a valid envelope is published.\<close>

lemma Publish_ok_valid: "Publish env (transport_ptr b r) e b = (kOk, b') \<Longrightarrow> IsEnvelopeValidForPublish e"
  by (cases rule: Publish_cases [of b "transport_ptr b r" env e]) (simp_all add: publish_fail_def)

section \<open>A received message\<close>

lemma dispatch_handles:
  assumes "dispatch_envelope env l e b = (x, b')" "diagnostics_reporter b = None"
  shows "x = ExpiredDropped \<and> app b' = app b \<or>
    (case handlers (loop_router l b) (topic e) of
       None \<Rightarrow> x = NoRoute \<and> app b' = app b
     | Some h \<Rightarrow> x = (if fst (h e (app b)) = Returned then Handled else HandlerFailed) \<and> app b' = snd (h e (app b)))"
proof (cases rule: dispatch_cases [of b env e l])
  case (expired b1 now pol)
  have "app (note_expired env e now b1) = app b1" using quiet_fields(6) [OF quiet_note_expired [of b1 env e now]] by simp
  then show ?thesis using expired assms calm_fields(6) [OF expired(1)] by simp
next
  case (routed b1 now pol res w)
  have "app (note_route_miss env now (b1\<lparr>app := w\<rparr>)) = w"
    using quiet_fields(6) [OF quiet_note_route_miss [of "b1\<lparr>app := w\<rparr>" env now]] by simp
  moreover have "app (note_handler_error env now (b1\<lparr>app := w\<rparr>)) = w"
    using quiet_fields(6) [OF quiet_note_handler_error [of "b1\<lparr>app := w\<rparr>" env now]] by simp
  moreover have "report_diagnostics env (RefreshAggregatedMetrics env False (b1\<lparr>app := w\<rparr>)) = RefreshAggregatedMetrics env False (b1\<lparr>app := w\<rparr>)"
    by (rule report_off) (use assms(2) calm_fields(11) [OF routed(1)] quiet_fields(16) [OF quiet_refresh [of "b1\<lparr>app := w\<rparr>" env False]] in simp)
  moreover have "app (RefreshAggregatedMetrics env False (b1\<lparr>app := w\<rparr>)) = w"
    using quiet_fields(6) [OF quiet_refresh [of "b1\<lparr>app := w\<rparr>" env False]] by simp
  ultimately show ?thesis using routed(4,5) assms(1)
    by (auto simp: Route_def split: option.splits prod.splits call_outcome.splits)
qed

lemma process_wire_text:
  assumes "schema_ok e" "body_fits e"
  shows "process_text env l (wire_text m e) b =
    Completed (if IsEnvelopeValidForPublish (wire_view m e)
      then dispatch_envelope env l (wire_view m e) (count_up (\<lambda>c. c\<lparr>rx_count := rx_count c + 1\<rparr>) b)
      else (InvalidReceived, note_invalid_envelope env (count_up (\<lambda>c. c\<lparr>rx_count := rx_count c + 1\<rparr>) b)))"
  using DecodeByProtocol_wire [OF assms] by (simp add: process_text_def Let_def)

section \<open>Properties\<close>



text \<open>
  C37: only the legacy protocol gets through. A message encoded in any of the other three protocols, which
  carry neither source nor target, is decoded by the receiver and then always discarded as invalid, before
  the handlers, whatever the state of the bridge: it is counted as an invalid envelope and no handler is run.
\<close>

theorem compact_messages_rejected:
  assumes "m \<noteq> kLegacyPipe" and "schema_ok e" and "body_fits e"
  shows "\<exists>b'. process_text env l (wire_text m e) b = Completed (InvalidReceived, b') \<and> app b' = app b \<and>
    invalid_envelope_count (counters b') = invalid_envelope_count (counters b) + 1"
proof -
  let ?b = "count_up (\<lambda>c. c\<lparr>rx_count := rx_count c + 1\<rparr>) b"
  have "\<not> IsEnvelopeValidForPublish (wire_view m e)"
    using assms(1) by (cases m) (simp_all add: IsEnvelopeValidForPublish_def compact_view_def)
  moreover note quiet_fields(6,25) [OF quiet_note_invalid_envelope [of ?b env]]
  ultimately show ?thesis using process_wire_text [OF assms(2,3), of env l m b] by simp
qed

lemma sample_encodable: "schema_ok sample_envelope" "body_fits sample_envelope"
  by (simp_all add: schema_ok_def kSchemaVersionCompatBaseline_def sample_envelope_def default_envelope_def body_fits_def
      compact_fields_def show_nat.simps)

theorem compact_messages_rejected_witness:
  "\<exists>b'. process_text quiet_env VehicleLoop (wire_text kCompact sample_envelope) noisy_bridge = Completed (InvalidReceived, b') \<and>
     app b' = app noisy_bridge \<and> invalid_envelope_count (counters b') = invalid_envelope_count (counters noisy_bridge) + 1"
  by (rule compact_messages_rejected [OF _ sample_encodable]) simp

section \<open>A run\<close>

text \<open>A bridge on two empty message queues whose robot side counts the messages on one topic.\<close>

definition counting_bridge :: "(ref_state PosixMessageQueue, nat) bridge" where
  "counting_bridge = (sample_bridge ((ref_transport_queue [])\<lparr>mq_message_size := 1024\<rparr>) (ref_transport_queue []) 0)
     \<lparr>robot_router := \<lparr>handlers = [''brake'' \<mapsto> (\<lambda>e n. (Returned, n + 1))]\<rparr>\<rparr>"

definition brake_text :: string where
  "brake_text = wire_text kLegacyPipe sample_envelope"

lemma brake_text_length: "length brake_text < 1000" "CHR 0x00 \<notin> set brake_text"
  by code_simp+

lemma counting_fields:
  "bridge_running counting_bridge" "config counting_bridge = default_BridgeConfig" "authenticator counting_bridge = None"
  "policy_cache_state counting_bridge = empty_cache" "diagnostics_reporter counting_bridge = None"
  "transport_at counting_bridge V2R = Some ((ref_transport_queue [])\<lparr>mq_message_size := 1024\<rparr>)"
  "transport_at counting_bridge R2V = Some (ref_transport_queue [])" "app counting_bridge = 0"
  "flow_limit_vehicle (flow counting_bridge) = 256" "inflight_vehicle (flow counting_bridge) = 0"
  by (simp_all add: counting_bridge_def sample_bridge_def)

definition brake_queue :: "u32 \<Rightarrow> ref_state PosixMessageQueue" where
  "brake_queue prio = (ref_transport_queue [(c_bytes brake_text, prio)])\<lparr>mq_message_size := 1024\<rparr>"

lemma brake_sent:
  "SendWithTimeout (transport_ops quiet_env V2R) brake_text prio 50 ((ref_transport_queue [])\<lparr>mq_message_size := 1024\<rparr>) =
     (kOk, brake_queue prio)"
  using brake_text_length(1)
  by (simp add: quiet_env_def mq_bridge_env_def PosixMqTransport_def mq_SendWithTimeout_def ref_transport_queue_def ref_api_def
      too_long_def enqueue_prio_def brake_queue_def)

lemma counting_resolves: "\<exists>b1. ResolvePolicy quiet_env sample_envelope counting_bridge = (default_SlaPolicy, b1) \<and> quiet counting_bridge b1"
proof -
  have wf: "cache_wf (policy_cache_state counting_bridge)" by (simp add: counting_fields cache_wf_empty)
  have "fst (LookupPolicyCache (policy_cache_state counting_bridge) (cache_key sample_envelope)) = None"
    using wf by (simp add: Lookup_value counting_fields cache_view_def) (simp add: empty_cache_def)
  then have "fst (ResolvePolicy quiet_env sample_envelope counting_bridge) = default_SlaPolicy"
    by (simp add: ResolvePolicy_cache [OF wf] counting_fields ResolvePolicyInternal_def FindBestPolicyMatch_def
        candidate_indices_def default_BridgeConfig_def default_PolicyTable_def)
  then show ?thesis using quiet_ResolvePolicy [of counting_bridge quiet_env sample_envelope] by (metis prod.collapse)
qed

lemma counting_publish:
  "\<exists>b1 prio. Publish quiet_env (transport_ptr counting_bridge V2R) sample_envelope counting_bridge = (kOk, b1) \<and>
     transport_at b1 V2R = Some (brake_queue prio) \<and> config b1 = default_BridgeConfig"
proof -
  have enc: "manager_Encode (ResolveMode default_BridgeConfig sample_envelope) sample_envelope (Some []) = (kOk, Some brake_text)"
    by (simp add: manager_Encode_def ResolveMode_def default_BridgeConfig_def default_PolicyTable_def default_SlaPolicy_def
        EncodeByProtocol_ok brake_text_def)
  have valid: "IsEnvelopeValidForPublish sample_envelope" by (simp add: IsEnvelopeValidForPublish_def sample_envelope_def)
  have same: "counting_bridge\<lparr>idempotency_recent_keys := idempotency_recent_keys counting_bridge\<rparr> = counting_bridge" by simp
  have d: "\<not> enable_config_canary default_BridgeConfig" "idempotency_topics default_BridgeConfig = []"
    by (simp_all add: default_BridgeConfig_def)
  have pub: "Publish quiet_env (transport_ptr counting_bridge V2R) sample_envelope counting_bridge =
      publish_encoded quiet_env V2R sample_envelope brake_text counting_bridge"
    using valid enc same d by (simp add: Publish_def counting_fields transport_ptr_def duplicate_check_def
        ShouldApplyCanaryForEnvelope_def ShouldApplyIdempotency_def Let_def counting_fields(6) [simplified])
  obtain b1 where R: "ResolvePolicy quiet_env sample_envelope counting_bridge = (default_SlaPolicy, b1)" "quiet counting_bridge b1"
    using counting_resolves by blast
  note q = quiet_fields [OF R(2)]
  have t1: "transport_at b1 V2R = Some ((ref_transport_queue [])\<lparr>mq_message_size := 1024\<rparr>)" using q(2) counting_fields(6) by simp
  define b2 where "b2 = b1\<lparr>flow := (flow b1)\<lparr>inflight_vehicle := 1\<rparr>\<rparr>"
  have A: "AcquireFlowSlot (Some V2R) b1 = (True, b2)"
    using t1 q(5) counting_fields(9,10) by (simp add: AcquireFlowSlot_def transport_ptr_def b2_def Let_def)
  define prio where "prio = ResolvePriorityForPublish sample_envelope (Some V2R) b1"
  have "transport_at b2 V2R = Some ((ref_transport_queue [])\<lparr>mq_message_size := 1024\<rparr>)" using t1 by (simp add: b2_def)
  moreover have "transport_send_timeout_ms default_SlaPolicy = 50" by (simp add: default_SlaPolicy_def)
  ultimately have "send_once quiet_env V2R brake_text prio default_SlaPolicy b2 = (kOk, set_transport V2R (brake_queue prio) b2)"
    using brake_sent [of prio] by (simp only: send_once_def on_transport_def option.sel prod.case)
  then have P: "PublishWithBackpressure quiet_env V2R brake_text prio default_SlaPolicy b2 = (kOk, set_transport V2R (brake_queue prio) b2)"
    by (simp add: PublishWithBackpressure_def)
  have cfg: "config b1 = default_BridgeConfig" using q(4) counting_fields(2) by simp
  have "\<exists>b3. publish_encoded quiet_env V2R sample_envelope brake_text counting_bridge = (kOk, b3) \<and>
      transport_at b3 V2R = Some (brake_queue prio) \<and> config b3 = default_BridgeConfig"
    using R(1) A P cfg unfolding prio_def
    by (simp add: publish_encoded_def Let_def ReleaseFlowSlot_def count_tx_maps_def count_tx_def set_health_def b2_def
        quiet_fields(2,4) [OF quiet_refresh])
  then show ?thesis using pub by auto
qed

lemma counting_pass:
  assumes "transport_at b V2R = Some (brake_queue prio)" "config b = default_BridgeConfig"
  shows "\<exists>x b2. inbound_pass quiet_env VehicleLoop b = Completed (x, b2) \<and> was_received x"
proof -
  have c: "c_string (c_bytes brake_text) = brake_text"
    unfolding c_string_def c_bytes_def by (subst takeWhile_append2) (use brake_text_length(2) in auto)
  have "transport_receive_timeout_ms (default_policy (table_of b)) = 50"
    using assms(2) by (simp add: default_BridgeConfig_def default_PolicyTable_def default_SlaPolicy_def)
  then have "\<exists>b1. receive_text quiet_env V2R b = ((kOk, brake_text, prio), b1)"
    using assms(1) c by (simp add: receive_text_def on_transport_def brake_queue_def quiet_env_def mq_bridge_env_def
        PosixMqTransport_def mq_ReceiveWithTimeout_def ref_transport_queue_def ref_api_def)
  then obtain b1 where R: "receive_text quiet_env V2R b = ((kOk, brake_text, prio), b1)" by blast
  obtain x b2 where P: "process_text quiet_env VehicleLoop brake_text b1 = Completed (x, b2)"
    unfolding brake_text_def process_wire_text [OF sample_encodable] by (metis prod.collapse)
  then show ?thesis using R process_text_received [OF P] by (simp add: inbound_pass_def)
qed

lemma quiet_env_contracts:
  "message_transport (v2r_ops quiet_env) (mq_contents ref_queue)" "message_transport (r2v_ops quiet_env) (mq_contents ref_queue)"
  using ref.contract by (simp_all add: quiet_env_def mq_bridge_env_def)

lemma counting_empty: "holdings (mq_contents ref_queue) counting_bridge = {#}" "has_transports counting_bridge"
  by (simp_all add: holdings_def held_def has_transports_def counting_bridge_def sample_bridge_def mq_contents_def ref_queue_def
      ref_transport_queue_def)



end
