(* ===== verification/Tcp_Windows.thy ===== *)
theory Tcp_Windows
  imports Tcp_Transport
begin

text \<open>
  \<^verbatim>\<open>interconnect/tcp_transport.cpp\<close>, the Windows branch: the same transport on the WinSock calls, with
  unsigned 64-bit socket handles, a 32-bit \<^verbatim>\<open>long\<close> and byte counts cast to \<^verbatim>\<open>int\<close>. The calls are a parameter;
  \<open>as_posix\<close> presents them as the calls of the POSIX branch, and the theorem of this theory shows that the two
  branches are then the same transport, so that what is proved of one holds of the other.
\<close>

unbundle bit_operations_syntax

section \<open>WinSock\<close>

datatype wsa_error = WSAEINTR | WSAEWOULDBLOCK | WSAEINPROGRESS | WSA_OTHER

text \<open>
  A \<^verbatim>\<open>SOCKET_ERROR\<close> comes with the error that \<^verbatim>\<open>WSAGetLastError\<close> reports. \<^verbatim>\<open>send\<close> is given the bytes from its
  pointer on and the length argument, \<^verbatim>\<open>recv\<close> the length argument.
\<close>

record 'k winsock_api =
  WSAStartup :: "'k \<Rightarrow> 'k"
  ws_socket :: "'k \<Rightarrow> u64 \<times> 'k"
  ioctlsocket_fionbio :: "u64 \<Rightarrow> bool \<Rightarrow> 'k \<Rightarrow> int \<times> 'k"
  InetPtonA :: "string \<Rightarrow> int \<times> u32"
  ws_connect :: "u64 \<Rightarrow> u32 \<Rightarrow> u16 \<Rightarrow> 'k \<Rightarrow> wsa_error option \<times> 'k"
  ws_select :: "u64 \<Rightarrow> bool \<Rightarrow> timeval option \<Rightarrow> 'k \<Rightarrow> int \<times> 'k"
  ws_send :: "u64 \<Rightarrow> string \<Rightarrow> int \<Rightarrow> 'k \<Rightarrow> (wsa_error + nat) \<times> 'k"
  ws_recv :: "u64 \<Rightarrow> int \<Rightarrow> 'k \<Rightarrow> (wsa_error + string) \<times> 'k"
  ws_so_error :: "u64 \<Rightarrow> 'k \<Rightarrow> (int \<times> int) \<times> 'k"
  ws_setsockopt :: "u64 \<Rightarrow> sock_option \<Rightarrow> int \<Rightarrow> 'k \<Rightarrow> 'k"
  closesocket :: "u64 \<Rightarrow> 'k \<Rightarrow> 'k"

definition INVALID_SOCKET :: u64 where
  "INVALID_SOCKET = - 1"

text \<open>\<^verbatim>\<open>static_cast<int>\<close> and \<^verbatim>\<open>static_cast<long>\<close>, both of 32 bits.\<close>

definition to_int32 :: "int \<Rightarrow> int" where
  "to_int32 x = sint (word_of_int x :: u32)"

text \<open>The transport, with the flag of \<^verbatim>\<open>EnsureWsaInit\<close>, which all transports of the process share.\<close>

record 'k win_transport =
  win_socket :: u64
  wsa_once :: bool
  win_net :: 'k

definition new_win_tcp :: "bool \<Rightarrow> 'k \<Rightarrow> 'k win_transport" where
  "new_win_tcp once k = \<lparr>win_socket = INVALID_SOCKET, wsa_once = once, win_net = k\<rparr>"

section \<open>Parsing the endpoint\<close>

definition strtol32 :: "string \<Rightarrow> int \<times> string" where
  "strtol32 s =
     (let s1 = dropWhile is_space s;
          neg = (case s1 of c # _ \<Rightarrow> c = CHR ''-'' | [] \<Rightarrow> False);
          s2 = (case s1 of c # r \<Rightarrow> if c = CHR ''-'' \<or> c = CHR ''+'' then r else s1 | [] \<Rightarrow> []);
          ds = takeWhile is_digit s2;
          v = (if neg then - int (digits_val ds) else int (digits_val ds))
      in if ds = [] then (0, s)
         else (max (- (2 ^ 31)) (min (2 ^ 31 - 1) v), dropWhile is_digit s2))"

definition win_ParsePort :: "string \<Rightarrow> u16 option \<Rightarrow> bool \<times> u16 option" where
  "win_ParsePort value port =
     (if port = None then (False, port)
      else case strtol32 (c_str value) of (parsed, rest) \<Rightarrow>
        if rest = c_str value \<or> rest \<noteq> [] \<or> parsed \<le> 0 \<or> parsed > 65535 then (False, port)
        else (True, Some (word_of_int parsed)))"

definition win_ParseHostPort ::
  "TransportEndpointConfig \<Rightarrow> string option \<Rightarrow> u16 option \<Rightarrow> bool \<times> string option \<times> u16 option" where
  "win_ParseHostPort config host port =
     (if host = None \<or> port = None then (False, host, port)
      else case (params config ''host'', params config ''port'') of
        (Some h, Some p) \<Rightarrow> (case win_ParsePort p port of (ok, port') \<Rightarrow> (ok, Some h, port'))
      | _ \<Rightarrow> (False, host, port))"

section \<open>Waiting and moving bytes\<close>

definition EnsureWsaInit :: "'k winsock_api \<Rightarrow> 'k win_transport \<Rightarrow> 'k win_transport" where
  "EnsureWsaInit w s = (if wsa_once s then s else s\<lparr>wsa_once := True, win_net := WSAStartup w (win_net s)\<rparr>)"

definition win_SetNonBlocking :: "'k winsock_api \<Rightarrow> u64 \<Rightarrow> bool \<Rightarrow> 'k \<Rightarrow> int \<times> 'k" where
  "win_SetNonBlocking w fd enable k = ioctlsocket_fionbio w fd enable k"

definition win_WaitForSocket :: "'k winsock_api \<Rightarrow> u64 \<Rightarrow> bool \<Rightarrow> int \<Rightarrow> 'k \<Rightarrow> ErrorCode \<times> 'k" where
  "win_WaitForSocket w fd write_ready timeout_ms k =
     (let tv = (if timeout_ms \<ge> 0
                then Some \<lparr>tvl_sec = to_int32 (timeout_ms div 1000), tvl_usec = to_int32 ((timeout_ms mod 1000) * 1000)\<rparr>
                else None)
      in case ws_select w fd write_ready tv k of (res, k') \<Rightarrow>
           (if res = 0 then kTimeout else if res < 0 then MapSocketError else kOk, k'))"

definition win_send_pass ::
  "'k winsock_api \<Rightarrow> u64 \<Rightarrow> string \<Rightarrow> int \<Rightarrow> nat \<Rightarrow> 'k \<Rightarrow> ErrorCode \<times> 'k + nat \<times> 'k" where
  "win_send_pass w fd data timeout_ms tot k =
     (case win_WaitForSocket w fd True timeout_ms k of (wait_ec, k1) \<Rightarrow>
        if wait_ec \<noteq> kOk then Inl (wait_ec, k1)
        else (case ws_send w fd (drop tot data) (to_int32 (int (length data - tot))) k1 of (res, k2) \<Rightarrow>
          (case res of
             Inl e \<Rightarrow> if e = WSAEINTR then Inr (tot, k2) else Inl (MapSocketError, k2)
           | Inr moved \<Rightarrow> Inr (tot + moved, k2))))"

partial_function (option) win_send_loop ::
  "'k winsock_api \<Rightarrow> u64 \<Rightarrow> string \<Rightarrow> int \<Rightarrow> nat \<Rightarrow> 'k \<Rightarrow> (ErrorCode \<times> 'k) option" where
  [code]: "win_send_loop w fd data timeout_ms tot k =
     (if tot < length data then
        (case win_send_pass w fd data timeout_ms tot k of
           Inl r \<Rightarrow> Some r
         | Inr (tot', k') \<Rightarrow> win_send_loop w fd data timeout_ms tot' k')
      else Some (kOk, k))"

definition win_SendAll :: "'k winsock_api \<Rightarrow> u64 \<Rightarrow> string \<Rightarrow> int \<Rightarrow> 'k \<Rightarrow> (ErrorCode \<times> 'k) option" where
  "win_SendAll w fd data timeout_ms k = win_send_loop w fd data timeout_ms 0 k"

definition win_recv_pass ::
  "'k winsock_api \<Rightarrow> u64 \<Rightarrow> string \<Rightarrow> int \<Rightarrow> nat \<Rightarrow> 'k \<Rightarrow> ErrorCode \<times> string \<times> 'k + string \<times> nat \<times> 'k" where
  "win_recv_pass w fd buf timeout_ms tot k =
     (case win_WaitForSocket w fd False timeout_ms k of (wait_ec, k1) \<Rightarrow>
        if wait_ec \<noteq> kOk then Inl (wait_ec, buf, k1)
        else (case ws_recv w fd (to_int32 (int (length buf - tot))) k1 of (res, k2) \<Rightarrow>
          (case res of
             Inl e \<Rightarrow> if e = WSAEINTR then Inr (buf, tot, k2) else Inl (MapSocketError, buf, k2)
           | Inr bytes \<Rightarrow>
               if bytes = [] then Inl (kQueueReceiveFailed, buf, k2)
               else Inr (overwrite buf tot bytes, tot + length bytes, k2))))"

partial_function (option) win_recv_loop ::
  "'k winsock_api \<Rightarrow> u64 \<Rightarrow> string \<Rightarrow> int \<Rightarrow> nat \<Rightarrow> 'k \<Rightarrow> (ErrorCode \<times> string \<times> 'k) option" where
  [code]: "win_recv_loop w fd buf timeout_ms tot k =
     (if tot < length buf then
        (case win_recv_pass w fd buf timeout_ms tot k of
           Inl r \<Rightarrow> Some r
         | Inr (buf', tot', k') \<Rightarrow> win_recv_loop w fd buf' timeout_ms tot' k')
      else Some (kOk, buf, k))"

definition win_RecvAll :: "'k winsock_api \<Rightarrow> u64 \<Rightarrow> string \<Rightarrow> int \<Rightarrow> 'k \<Rightarrow> (ErrorCode \<times> string \<times> 'k) option" where
  "win_RecvAll w fd buf timeout_ms k = win_recv_loop w fd buf timeout_ms 0 k"

section \<open>The transport\<close>

definition win_CloseSocket :: "'k winsock_api \<Rightarrow> 'k win_transport \<Rightarrow> 'k win_transport" where
  "win_CloseSocket w s =
     (if win_socket s \<noteq> INVALID_SOCKET
      then s\<lparr>win_net := closesocket w (win_socket s) (win_net s), win_socket := INVALID_SOCKET\<rparr> else s)"

abbreviation win_close_with ::
  "'k winsock_api \<Rightarrow> u64 \<Rightarrow> 'k win_transport \<Rightarrow> ErrorCode \<Rightarrow> 'k \<Rightarrow> ErrorCode \<times> 'k win_transport" where
  "win_close_with w fd s ec k \<equiv> (ec, s\<lparr>win_net := closesocket w fd k\<rparr>)"

definition win_finish_connect ::
  "'k winsock_api \<Rightarrow> u64 \<Rightarrow> bool \<Rightarrow> bool \<Rightarrow> 'k win_transport \<Rightarrow> 'k \<Rightarrow> ErrorCode \<times> 'k win_transport" where
  "win_finish_connect w fd enable_nodelay enable_keepalive s k =
     (case ws_so_error w fd k of ((rc, socket_error), k1) \<Rightarrow>
        if rc \<noteq> 0 \<or> socket_error \<noteq> 0 then win_close_with w fd s kQueueCreateFailed k1
        else
          let k2 = ws_setsockopt w fd TCP_NODELAY (if enable_nodelay then 1 else 0) k1;
              k3 = ws_setsockopt w fd SO_KEEPALIVE (if enable_keepalive then 1 else 0) k2
          in (case win_SetNonBlocking w fd False k3 of (rc, k4) \<Rightarrow>
                if rc \<noteq> 0 then win_close_with w fd s kQueueCreateFailed k4
                else (kOk, s\<lparr>win_net := k4, win_socket := fd\<rparr>)))"

definition win_Connect ::
  "'k winsock_api \<Rightarrow> string \<Rightarrow> u16 \<Rightarrow> int \<Rightarrow> bool \<Rightarrow> bool \<Rightarrow> 'k win_transport \<Rightarrow> ErrorCode \<times> 'k win_transport" where
  "win_Connect w host port timeout_ms enable_nodelay enable_keepalive s0 =
     (let s = win_CloseSocket w s0 in
      case ws_socket w (win_net s) of (fd, k1) \<Rightarrow>
        if fd = INVALID_SOCKET then (kQueueCreateFailed, s\<lparr>win_net := k1\<rparr>)
        else case win_SetNonBlocking w fd True k1 of (rc, k2) \<Rightarrow>
          if rc \<noteq> 0 then win_close_with w fd s kQueueCreateFailed k2
          else case InetPtonA w (c_str host) of (found, addr) \<Rightarrow>
            if found \<noteq> 1 then win_close_with w fd s kInvalidParam k2
            else case ws_connect w fd addr port k2 of (res, k3) \<Rightarrow>
              if res \<noteq> None \<and> res \<noteq> Some WSAEWOULDBLOCK \<and> res \<noteq> Some WSAEINPROGRESS
              then win_close_with w fd s kQueueCreateFailed k3
              else case win_WaitForSocket w fd True timeout_ms k3 of (wait_ec, k4) \<Rightarrow>
                if wait_ec \<noteq> kOk then win_close_with w fd s wait_ec k4
                else win_finish_connect w fd enable_nodelay enable_keepalive s k4)"

definition win_Create :: "'k winsock_api \<Rightarrow> TransportEndpointConfig \<Rightarrow> 'k win_transport \<Rightarrow> ErrorCode \<times> 'k win_transport" where
  "win_Create w config s0 =
     (let s = EnsureWsaInit w s0 in
      case win_ParseHostPort config (Some []) (Some 0) of (ok, host, port) \<Rightarrow>
        if \<not> ok then (kInvalidParam, s)
        else win_Connect w (the host) (the port) 2000 (flag_on config ''tcp_nodelay'') (flag_on config ''tcp_keepalive'') s)"

definition win_SendWithTimeout ::
  "'k winsock_api \<Rightarrow> string \<Rightarrow> u32 \<Rightarrow> int \<Rightarrow> 'k win_transport \<Rightarrow> (ErrorCode \<times> 'k win_transport) option" where
  "win_SendWithTimeout w message priority timeout_ms s =
     (if win_socket s = INVALID_SOCKET then Some (kQueueSendFailed, s)
      else
        let len = of_nat (length message) :: u32 in
        case win_SendAll w (win_socket s) (be32 len) timeout_ms (win_net s) of
          None \<Rightarrow> None
        | Some (len_ec, k) \<Rightarrow>
            if len_ec \<noteq> kOk then Some (len_ec, s\<lparr>win_net := k\<rparr>)
            else if len = 0 then Some (kOk, s\<lparr>win_net := k\<rparr>)
            else map_option (\<lambda>(ec, k'). (ec, s\<lparr>win_net := k'\<rparr>)) (win_SendAll w (win_socket s) message timeout_ms k))"

definition win_ReceiveWithTimeout ::
  "'k winsock_api \<Rightarrow> string option \<Rightarrow> u32 option \<Rightarrow> int \<Rightarrow> 'k win_transport
     \<Rightarrow> ((ErrorCode \<times> string option \<times> u32 option) \<times> 'k win_transport) option" where
  "win_ReceiveWithTimeout w message priority timeout_ms s =
     (if message = None \<or> priority = None then Some ((kInvalidParam, message, priority), s)
      else if win_socket s = INVALID_SOCKET then Some ((kQueueReceiveFailed, message, priority), s)
      else
        case win_RecvAll w (win_socket s) (replicate 4 (CHR 0x00)) timeout_ms (win_net s) of
          None \<Rightarrow> None
        | Some (len_ec, net_len, k) \<Rightarrow>
            if len_ec \<noteq> kOk then Some ((len_ec, message, priority), s\<lparr>win_net := k\<rparr>)
            else
              let len = unat (from_be32 net_len) in
              if len = 0 then Some ((kOk, Some [], Some 0), s\<lparr>win_net := k\<rparr>)
              else case win_RecvAll w (win_socket s) (replicate len (CHR 0x00)) timeout_ms k of
                None \<Rightarrow> None
              | Some (ec, body, k') \<Rightarrow>
                  if ec \<noteq> kOk then Some ((ec, Some body, priority), s\<lparr>win_net := k'\<rparr>)
                  else Some ((kOk, Some body, Some 0), s\<lparr>win_net := k'\<rparr>))"

definition win_DiscardOldest :: "'k win_transport \<Rightarrow> ErrorCode \<times> 'k win_transport" where
  "win_DiscardOldest s = (kOk, s)"

definition win_Close :: "'k winsock_api \<Rightarrow> 'k win_transport \<Rightarrow> 'k win_transport" where
  "win_Close w s = win_CloseSocket w s"

definition win_Unlink :: "'k win_transport \<Rightarrow> 'k win_transport" where
  "win_Unlink s = s"

definition win_Caps :: TransportCapabilities where
  "win_Caps = \<lparr>supports_priority = False, supports_discard_oldest = False, supports_unlink = False\<rparr>"

section \<open>The POSIX view\<close>

definition of_socket :: "u64 \<Rightarrow> int" where
  "of_socket fd = (if fd = INVALID_SOCKET then - 1 else uint fd)"

fun posix_error :: "wsa_error \<Rightarrow> sock_errno" where
  "posix_error WSAEINTR = S_EINTR"
| "posix_error WSAEWOULDBLOCK = S_EINPROGRESS"
| "posix_error WSAEINPROGRESS = S_EINPROGRESS"
| "posix_error WSA_OTHER = S_OTHER"

definition long_timeval :: "timeval \<Rightarrow> timeval" where
  "long_timeval tv = \<lparr>tvl_sec = to_int32 (tvl_sec tv), tvl_usec = to_int32 (tvl_usec tv)\<rparr>"

text \<open>
  The blocking mode of a socket cannot be read on Windows; a descriptor whose flags always read as zero makes
  the POSIX branch set the mode to what it asks for.
\<close>

definition as_posix :: "'k winsock_api \<Rightarrow> 'k socket_api" where
  "as_posix w =
     \<lparr>sys_socket = (\<lambda>k. apfst of_socket (ws_socket w k)),
      fcntl_getfl = (\<lambda>_ _. 0),
      fcntl_setfl = (\<lambda>fd flags. ioctlsocket_fionbio w (word_of_int fd) (flags AND O_NONBLOCK \<noteq> 0)),
      inet_pton = (\<lambda>host. apfst (\<lambda>r. if r = 1 then 1 else 0) (InetPtonA w host)),
      sys_connect = (\<lambda>fd addr port k. apfst (map_option posix_error) (ws_connect w (word_of_int fd) addr port k)),
      sys_select = (\<lambda>fd wr tv. ws_select w (word_of_int fd) wr (map_option long_timeval tv)),
      sys_send = (\<lambda>fd data k. apfst (map_sum posix_error id) (ws_send w (word_of_int fd) data (to_int32 (int (length data))) k)),
      sys_recv = (\<lambda>fd n k. apfst (map_sum posix_error id) (ws_recv w (word_of_int fd) (to_int32 (int n)) k)),
      get_so_error = (\<lambda>fd. ws_so_error w (word_of_int fd)),
      sys_setsockopt = (\<lambda>fd. ws_setsockopt w (word_of_int fd)),
      sys_close = (\<lambda>fd. closesocket w (word_of_int fd))\<rparr>"

definition posix_view :: "'k win_transport \<Rightarrow> 'k TcpTransport" where
  "posix_view s = \<lparr>socket_fd = of_socket (win_socket s), net = win_net s\<rparr>"

lemma word_of_socket [simp]: "word_of_int (of_socket fd) = fd"
  by (simp add: of_socket_def INVALID_SOCKET_def)

lemma of_socket_valid [simp]: "0 \<le> of_socket fd \<longleftrightarrow> fd \<noteq> INVALID_SOCKET" "of_socket fd < 0 \<longleftrightarrow> fd = INVALID_SOCKET"
  by (simp_all add: of_socket_def)

lemma posix_error_simps [simp]: "posix_error e = S_EINTR \<longleftrightarrow> e = WSAEINTR"
  "posix_error e = S_EINPROGRESS \<longleftrightarrow> e = WSAEWOULDBLOCK \<or> e = WSAEINPROGRESS"
  by (cases e; simp)+

section \<open>The two branches agree\<close>

lemma posix_calls:
  "sys_socket (as_posix w) k = (case ws_socket w k of (fd, k') \<Rightarrow> (of_socket fd, k'))"
  "inet_pton (as_posix w) host = (case InetPtonA w host of (r, a) \<Rightarrow> (if r = 1 then 1 else 0, a))"
  "sys_connect (as_posix w) (of_socket fd) addr port k =
     (case ws_connect w fd addr port k of (r, k') \<Rightarrow> (map_option posix_error r, k'))"
  "sys_select (as_posix w) (of_socket fd) wr tv k = ws_select w fd wr (map_option long_timeval tv) k"
  "sys_send (as_posix w) (of_socket fd) data k =
     (case ws_send w fd data (to_int32 (int (length data))) k of (r, k') \<Rightarrow> (map_sum posix_error id r, k'))"
  "sys_recv (as_posix w) (of_socket fd) n k =
     (case ws_recv w fd (to_int32 (int n)) k of (r, k') \<Rightarrow> (map_sum posix_error id r, k'))"
  "get_so_error (as_posix w) (of_socket fd) k = ws_so_error w fd k"
  "sys_setsockopt (as_posix w) (of_socket fd) opt v k = ws_setsockopt w fd opt v k"
  "sys_close (as_posix w) (of_socket fd) k = closesocket w fd k"
  by (simp_all add: as_posix_def apfst_def map_prod_def)

lemma strtol32_strtol:
  assumes "strtol s = (v, r)" "strtol32 s = (v', r')"
  shows "r' = r \<and> (v' \<le> 0 \<longleftrightarrow> v \<le> 0) \<and> (v' > 65535 \<longleftrightarrow> v > 65535) \<and> (0 < v \<and> v \<le> 65535 \<longrightarrow> v' = v)"
proof -
  define clamp :: "nat \<Rightarrow> int \<Rightarrow> int" where "clamp b x = max (- (2 ^ b)) (min (2 ^ b - 1) x)" for b x
  have "(clamp 31 x \<le> 0 \<longleftrightarrow> clamp 63 x \<le> 0) \<and> (clamp 31 x > 65535 \<longleftrightarrow> clamp 63 x > 65535) \<and>
      (0 < clamp 63 x \<and> clamp 63 x \<le> 65535 \<longrightarrow> clamp 31 x = clamp 63 x)" for x
    by (auto simp: clamp_def min_def max_def)
  then show ?thesis using assms
    unfolding strtol_def strtol32_def Let_def clamp_def [symmetric] by (auto split: if_splits)
qed

lemma win_ParsePort_eq: "win_ParsePort v p = ParsePort v p"
proof -
  obtain x r x' r' where "strtol (c_str v) = (x, r)" "strtol32 (c_str v) = (x', r')" by fastforce
  with strtol32_strtol [OF this] show ?thesis by (auto simp: win_ParsePort_def ParsePort_def)
qed

lemma win_ParseHostPort_eq: "win_ParseHostPort c h p = ParseHostPort c h p"
  by (simp add: win_ParseHostPort_def ParseHostPort_def win_ParsePort_eq cong: option.case_cong)

lemma SetNonBlocking_view: "SetNonBlocking (as_posix w) (of_socket fd) enable k = win_SetNonBlocking w fd enable k"
  by (simp add: SetNonBlocking_def win_SetNonBlocking_def as_posix_def O_NONBLOCK_def)

lemma Wait_view: "WaitForSocket (as_posix w) (of_socket fd) wr t k = win_WaitForSocket w fd wr t k"
  by (simp add: WaitForSocket_def win_WaitForSocket_def posix_calls long_timeval_def)

lemma send_pass_view: "send_pass (as_posix w) (of_socket fd) data t tot k = win_send_pass w fd data t tot k"
  by (simp add: send_pass_def win_send_pass_def Wait_view posix_calls split: prod.split sum.split)

lemma recv_pass_view: "recv_pass (as_posix w) (of_socket fd) buf t tot k = win_recv_pass w fd buf t tot k"
  by (simp add: recv_pass_def win_recv_pass_def Wait_view posix_calls split: prod.split sum.split)

text \<open>The loops have the same passes, so each returns what the other returns.\<close>

lemma win_send_loop_view: "win_send_loop w fd data t tot k = send_loop (as_posix w) (of_socket fd) data t tot k"
proof -
  have "send_loop (as_posix w) (of_socket fd) data t tot k = Some r" if "win_send_loop w fd data t tot k = Some r" for r
    using that
  proof (induction rule: win_send_loop.raw_induct [rotated 1, consumes 1, case_names step])
    case (step lp w fd data t tot k r)
    then show ?case
      by (subst send_loop.simps) (auto simp: send_pass_view split: if_splits sum.splits prod.splits)
  qed
  moreover have "\<forall>w' fd'. a = as_posix w' \<longrightarrow> f = of_socket fd' \<longrightarrow> win_send_loop w' fd' data t tot k = Some r"
    if "send_loop a f data t tot k = Some r" for a f r
    using that
  proof (induction rule: send_loop.raw_induct [rotated 1, consumes 1, case_names step])
    case (step lp a f data t tot k r)
    then show ?case
      by (cases r, subst win_send_loop.simps) (auto simp: send_pass_view split: if_splits sum.splits prod.splits)
  qed
  ultimately show ?thesis by (metis option.exhaust)
qed

lemma win_recv_loop_view: "win_recv_loop w fd buf t tot k = recv_loop (as_posix w) (of_socket fd) buf t tot k"
proof -
  have "recv_loop (as_posix w) (of_socket fd) buf t tot k = Some r" if "win_recv_loop w fd buf t tot k = Some r" for r
    using that
  proof (induction rule: win_recv_loop.raw_induct [rotated 1, consumes 1, case_names step])
    case (step lp w fd buf t tot k r)
    then show ?case
      by (subst recv_loop.simps) (auto simp: recv_pass_view split: if_splits sum.splits prod.splits)
  qed
  moreover have "\<forall>w' fd'. a = as_posix w' \<longrightarrow> f = of_socket fd' \<longrightarrow> win_recv_loop w' fd' buf t tot k = Some r"
    if "recv_loop a f buf t tot k = Some r" for a f r
    using that
  proof (induction rule: recv_loop.raw_induct [rotated 1, consumes 1, case_names step])
    case (step lp a f buf t tot k r)
    then show ?case
      by (cases r, subst win_recv_loop.simps) (auto simp: recv_pass_view split: if_splits sum.splits prod.splits)
  qed
  ultimately show ?thesis by (metis option.exhaust)
qed

lemmas byte_views = SendAll_def win_SendAll_def RecvAll_def win_RecvAll_def win_send_loop_view win_recv_loop_view

lemma CloseSocket_view: "tcp_CloseSocket (as_posix w) (posix_view s) = posix_view (win_CloseSocket w s)"
  by (auto simp: tcp_CloseSocket_def win_CloseSocket_def posix_view_def posix_calls) (simp add: of_socket_def)

lemma finish_connect_view:
  "finish_connect (as_posix w) (of_socket fd) nd ka (posix_view s) k = apsnd posix_view (win_finish_connect w fd nd ka s k)"
  by (simp add: finish_connect_def win_finish_connect_def posix_view_def posix_calls SetNonBlocking_view Let_def split: prod.split)

lemma Connect_view:
  "tcp_Connect (as_posix w) host port t nd ka (posix_view s) = apsnd posix_view (win_Connect w host port t nd ka s)"
proof -
  define s1 where "s1 = win_CloseSocket w s"
  have n: "net (posix_view s1) = win_net s1" and u: "(posix_view s1)\<lparr>net := k\<rparr> = posix_view (s1\<lparr>win_net := k\<rparr>)" for k
    by (simp_all add: posix_view_def)
  have c: "map_option posix_error r \<noteq> None \<and> map_option posix_error r \<noteq> Some S_EINPROGRESS \<longleftrightarrow>
      r \<noteq> None \<and> r \<noteq> Some WSAEWOULDBLOCK \<and> r \<noteq> Some WSAEINPROGRESS" for r
    by (cases r) auto
  obtain fd k1 where s: "ws_socket w (win_net s1) = (fd, k1)" by fastforce
  obtain rc k2 where b: "win_SetNonBlocking w fd True k1 = (rc, k2)" by fastforce
  obtain found addr where i: "InetPtonA w (c_str host) = (found, addr)" by fastforce
  obtain res k3 where r: "ws_connect w fd addr port k2 = (res, k3)" by fastforce
  obtain ec k4 where a: "win_WaitForSocket w fd True t k3 = (ec, k4)" by fastforce
  show ?thesis
    unfolding tcp_Connect_def win_Connect_def Let_def CloseSocket_view s1_def [symmetric]
    by (auto simp: n u posix_calls s SetNonBlocking_view b i r c Wait_view a finish_connect_view)
qed

text \<open>
  C32: the Windows branch is the POSIX branch on the same calls: with the socket handle read as a descriptor,
  creating (after WinSock is initialised, once), sending, receiving and closing give the same results and
  make the same calls, for every configuration, message, timeout and behaviour of the network; sending and
  receiving return exactly when the POSIX branch does.
\<close>

theorem windows_refines_posix:
  "apsnd posix_view (win_Create w config s) = tcp_Create (as_posix w) config (posix_view (EnsureWsaInit w s)) \<and>
   map_option (apsnd posix_view) (win_SendWithTimeout w m p t s) = tcp_SendWithTimeout (as_posix w) m p t (posix_view s) \<and>
   map_option (apsnd posix_view) (win_ReceiveWithTimeout w msg prio t s) =
     tcp_ReceiveWithTimeout (as_posix w) msg prio t (posix_view s) \<and>
   posix_view (win_Close w s) = tcp_Close (as_posix w) (posix_view s)"
proof (intro conjI)
  show "apsnd posix_view (win_Create w config s) = tcp_Create (as_posix w) config (posix_view (EnsureWsaInit w s))"
    by (simp add: win_Create_def tcp_Create_def win_ParseHostPort_eq Connect_view Let_def split: prod.split)
  show "map_option (apsnd posix_view) (win_SendWithTimeout w m p t s) = tcp_SendWithTimeout (as_posix w) m p t (posix_view s)"
    by (simp add: win_SendWithTimeout_def tcp_SendWithTimeout_def byte_views posix_view_def Let_def option.map_comp comp_def
        case_prod_unfold split: option.split)
  show "map_option (apsnd posix_view) (win_ReceiveWithTimeout w msg prio t s) =
      tcp_ReceiveWithTimeout (as_posix w) msg prio t (posix_view s)"
    by (simp add: win_ReceiveWithTimeout_def tcp_ReceiveWithTimeout_def byte_views posix_view_def Let_def
        split: option.split prod.split)
  show "posix_view (win_Close w s) = tcp_Close (as_posix w) (posix_view s)"
    by (simp add: win_Close_def tcp_Close_def CloseSocket_view)
qed

section \<open>A refused connection\<close>

text \<open>
  WinSock reports a failed connection attempt in the exception set of \<^verbatim>\<open>select\<close> only, which the transport does
  not pass: its wait for writability lasts the full two seconds and the result is a timeout.
\<close>

lemma refused_connection_times_out:
  assumes "fst (ParseHostPort config (Some []) (Some 0))"
    and "\<And>k. fst (ws_socket w k) \<noteq> INVALID_SOCKET" "\<And>fd en k. fst (ioctlsocket_fionbio w fd en k) = 0"
    and "\<And>host. fst (InetPtonA w host) = 1" "\<And>fd a p k. fst (ws_connect w fd a p k) = Some WSAEWOULDBLOCK"
    and "\<And>fd tv k. fst (ws_select w fd True tv k) = 0"
  shows "fst (win_Create w config s) = kTimeout"
proof -
  note calls = assms(2-6)
  have "fst (win_Connect w h p t nd ka s) = kTimeout" for h p t nd ka s
    by (simp add: win_Connect_def win_SetNonBlocking_def win_WaitForSocket_def calls case_prod_unfold Let_def)
  then show ?thesis using assms(1) by (simp add: win_Create_def win_ParseHostPort_eq case_prod_unfold Let_def)
qed

end
