(* ===== verification/Flow_Concurrency.thy ===== *)
theory Flow_Concurrency
  imports Bridge_State
begin

text \<open>
  The lock-free parts of \<^verbatim>\<open>interconnect_bridge.cpp\<close> with many threads: the flow slots that
  \<^verbatim>\<open>AcquireFlowSlot\<close> and \<^verbatim>\<open>ReleaseFlowSlot\<close> count in an atomic, and the log gate \<^verbatim>\<open>NextLogAllowedMs\<close>, a load
  followed by a compare-and-exchange. Each atomic access is a step, and the steps of any number of threads
  interleave in every order.
\<close>

section \<open>Counting threads\<close>

definition threads_in :: "('a \<Rightarrow> bool) \<Rightarrow> 'a list \<Rightarrow> nat" where
  "threads_in P ts = length (filter P ts)"

lemma threads_in_append [simp]:
  "threads_in P [] = 0" "threads_in P (x # xs) = of_bool (P x) + threads_in P xs"
  "threads_in P (xs @ ys) = threads_in P xs + threads_in P ys"
  by (simp_all add: threads_in_def)

lemma threads_in_update:
  assumes "i < length ts"
  shows "threads_in P (ts[i := x]) + of_bool (P (ts ! i)) = threads_in P ts + of_bool (P x)"
proof -
  have "threads_in P ts = threads_in P (take i ts @ ts ! i # drop (Suc i) ts)"
    using id_take_nth_drop [OF assms] by simp
  then show ?thesis using assms by (simp add: upd_conv_take_nth_drop)
qed

lemma threads_in_le: "threads_in P ts \<le> length ts"
  by (simp add: threads_in_def)

lemma threads_in_mono: "(\<And>x. P x \<Longrightarrow> Q x) \<Longrightarrow> threads_in P ts \<le> threads_in Q ts"
  by (induction ts) (auto simp: threads_in_def)

section \<open>Flow slots\<close>

text \<open>
  Where a thread is: outside; after its \<^verbatim>\<open>fetch_add\<close> with the value \<^verbatim>\<open>current\<close> it computed; holding a slot
  (between acquiring and releasing); about to give its increment back because it was refused.
\<close>

datatype flow_pc = Outside | Added u32 | Holding | Refused

record flow_world =
  inflight :: u32
  flow_pcs :: "flow_pc list"

text \<open>
  The steps of one direction whose limit is \<open>lim\<close>: with limit zero a slot is taken and given back without
  touching the counter.
\<close>

inductive flow_step :: "u32 \<Rightarrow> flow_world \<Rightarrow> flow_world \<Rightarrow> bool" for lim where
  unlimited_acquire: "i < length (flow_pcs w) \<Longrightarrow> flow_pcs w ! i = Outside \<Longrightarrow> lim = 0 \<Longrightarrow>
     flow_step lim w (w\<lparr>flow_pcs := (flow_pcs w)[i := Holding]\<rparr>)"
| fetch_add: "i < length (flow_pcs w) \<Longrightarrow> flow_pcs w ! i = Outside \<Longrightarrow> lim \<noteq> 0 \<Longrightarrow>
     flow_step lim w (w\<lparr>inflight := inflight w + 1, flow_pcs := (flow_pcs w)[i := Added (inflight w + 1)]\<rparr>)"
| accept: "i < length (flow_pcs w) \<Longrightarrow> flow_pcs w ! i = Added current \<Longrightarrow> \<not> current > lim \<Longrightarrow>
     flow_step lim w (w\<lparr>flow_pcs := (flow_pcs w)[i := Holding]\<rparr>)"
| refuse: "i < length (flow_pcs w) \<Longrightarrow> flow_pcs w ! i = Added current \<Longrightarrow> current > lim \<Longrightarrow>
     flow_step lim w (w\<lparr>flow_pcs := (flow_pcs w)[i := Refused]\<rparr>)"
| give_back: "i < length (flow_pcs w) \<Longrightarrow> flow_pcs w ! i = Refused \<Longrightarrow>
     flow_step lim w (w\<lparr>inflight := inflight w - 1, flow_pcs := (flow_pcs w)[i := Outside]\<rparr>)"
| unlimited_release: "i < length (flow_pcs w) \<Longrightarrow> flow_pcs w ! i = Holding \<Longrightarrow> lim = 0 \<Longrightarrow>
     flow_step lim w (w\<lparr>flow_pcs := (flow_pcs w)[i := Outside]\<rparr>)"
| fetch_sub: "i < length (flow_pcs w) \<Longrightarrow> flow_pcs w ! i = Holding \<Longrightarrow> lim \<noteq> 0 \<Longrightarrow>
     flow_step lim w (w\<lparr>inflight := inflight w - 1, flow_pcs := (flow_pcs w)[i := Outside]\<rparr>)"

inductive flow_reachable :: "u32 \<Rightarrow> nat \<Rightarrow> flow_world \<Rightarrow> bool" for lim n where
  flow_init: "flow_reachable lim n \<lparr>inflight = 0, flow_pcs = replicate n Outside\<rparr>"
| flow_next: "flow_reachable lim n w \<Longrightarrow> flow_step lim w w' \<Longrightarrow> flow_reachable lim n w'"

fun admitted :: "u32 \<Rightarrow> flow_pc \<Rightarrow> bool" where
  "admitted lim (Added c) \<longleftrightarrow> \<not> c > lim"
| "admitted lim Holding \<longleftrightarrow> True"
| "admitted lim _ \<longleftrightarrow> False"

text \<open>
  With a limit, the counter is the number of threads that are not outside, and at most \<open>lim\<close> of them have a
  slot or will be given one.
\<close>

definition flow_ok :: "u32 \<Rightarrow> nat \<Rightarrow> flow_world \<Rightarrow> bool" where
  "flow_ok lim n w \<longleftrightarrow> length (flow_pcs w) = n \<and>
     unat (inflight w) = (if lim = 0 then 0 else threads_in (\<lambda>p. p \<noteq> Outside) (flow_pcs w)) \<and>
     (if lim = 0 then \<forall>p \<in> set (flow_pcs w). p = Outside \<or> p = Holding
      else threads_in (admitted lim) (flow_pcs w) \<le> unat lim)"

lemma unat_inc: "unat (x :: u32) + 1 < 2 ^ 32 \<Longrightarrow> unat (x + 1) = unat x + 1"
  using unat_add_lem [of x 1] by simp

lemma unat_dec: "0 < unat (x :: u32) \<Longrightarrow> unat (x - 1) = unat x - 1"
  by (metis unat_minus_one unat_0 less_irrefl)

lemma flow_ok_init: "flow_ok lim n \<lparr>inflight = 0, flow_pcs = replicate n Outside\<rparr>"
  by (auto simp: flow_ok_def threads_in_def)

lemma flow_ok_step:
  assumes "flow_step lim w w'" "flow_ok lim n w" "n < 2 ^ 32"
  shows "flow_ok lim n w'"
  using assms
proof (induction rule: flow_step.induct)
  case (fetch_add i w)
  note u = threads_in_update [OF fetch_add(1), of "\<lambda>p. p \<noteq> Outside" "Added (inflight w + 1)"]
    threads_in_update [OF fetch_add(1), of "admitted lim" "Added (inflight w + 1)"]
  have "threads_in (\<lambda>p. p \<noteq> Outside) ((flow_pcs w)[i := Added (inflight w + 1)]) \<le> n"
    using fetch_add threads_in_le by (metis flow_ok_def length_list_update)
  then have c: "unat (inflight w + 1) = unat (inflight w) + 1"
    using u(1) fetch_add by (intro unat_inc) (simp add: flow_ok_def)
  have "threads_in (admitted lim) (flow_pcs w) \<le> threads_in (\<lambda>p. p \<noteq> Outside) (flow_pcs w)"
    by (rule threads_in_mono) auto
  then have "threads_in (admitted lim) (flow_pcs w) \<le> unat (inflight w)"
    using fetch_add by (simp add: flow_ok_def)
  then show ?case using u c fetch_add by (auto simp: flow_ok_def word_le_nat_alt not_less)
next
  case (accept i w current)
  then show ?case
    using threads_in_update [OF accept(1), of "\<lambda>p. p \<noteq> Outside" Holding]
      threads_in_update [OF accept(1), of "admitted lim" Holding]
    by (cases "lim = 0") (auto simp: flow_ok_def dest!: nth_mem)
next
  case (refuse i w current)
  then show ?case
    using threads_in_update [OF refuse(1), of "\<lambda>p. p \<noteq> Outside" Refused]
      threads_in_update [OF refuse(1), of "admitted lim" Refused]
    by (cases "lim = 0") (auto simp: flow_ok_def dest!: nth_mem)
next
  case (give_back i w)
  then show ?case
    using threads_in_update [OF give_back(1), of "\<lambda>p. p \<noteq> Outside" Outside]
      threads_in_update [OF give_back(1), of "admitted lim" Outside]
    by (cases "lim = 0") (auto simp: flow_ok_def unat_dec dest!: nth_mem)
next
  case (fetch_sub i w)
  then show ?case
    using threads_in_update [OF fetch_sub(1), of "\<lambda>p. p \<noteq> Outside" Outside]
      threads_in_update [OF fetch_sub(1), of "admitted lim" Outside]
    by (auto simp: flow_ok_def unat_dec)
qed (auto simp: flow_ok_def dest: set_update_subset_insert [THEN subsetD])

lemma flow_reachable_ok:
  assumes "flow_reachable lim n w" "n < 2 ^ 32"
  shows "flow_ok lim n w"
  using assms by (induction rule: flow_reachable.induct) (auto intro: flow_ok_init flow_ok_step)

text \<open>
  C18: the flow limit holds under any interleaving. However many threads publish at once (fewer than the
  counter can count), at no moment do more than the limit of them hold a slot; the counter is at every moment
  the number of threads between their first and their last access to it, so that it is back at zero when all
  are done; and a thread whose increment exceeds the limit finds at least as many threads as the limit there.
\<close>

theorem flow_limit_respected:
  assumes "flow_reachable lim n w" "n < 2 ^ 32" "lim \<noteq> 0"
  shows "threads_in (\<lambda>p. p = Holding) (flow_pcs w) \<le> unat lim \<and>
    unat (inflight w) = threads_in (\<lambda>p. p \<noteq> Outside) (flow_pcs w) \<and>
    (inflight w + 1 > lim \<longrightarrow> unat lim \<le> threads_in (\<lambda>p. p \<noteq> Outside) (flow_pcs w))"
proof -
  have ok: "flow_ok lim n w" by (rule flow_reachable_ok [OF assms(1,2)])
  have "threads_in (\<lambda>p. p = Holding) (flow_pcs w) \<le> threads_in (admitted lim) (flow_pcs w)"
    by (rule threads_in_mono) auto
  moreover have "unat (inflight w + 1) \<le> unat (inflight w) + 1"
    by (cases "unat (inflight w) + 1 < 2 ^ 32")
       (use unat_inc [of "inflight w"] unat_u32_less [of "inflight w + 1"] in auto)
  ultimately show ?thesis using ok assms(3) by (auto simp: flow_ok_def word_less_nat_alt)
qed

lemma flow_run_step:
  "flow_reachable lim n w \<Longrightarrow> flow_step lim w w' \<Longrightarrow> w' = w'' \<Longrightarrow> flow_reachable lim n w''"
  by (blast intro: flow_next)

text \<open>
  Three threads and one slot: the second is refused while the first holds the slot; the first releases it, and
  the third is refused because the increment of the second is still there.
\<close>

definition refused_for_nothing :: flow_world where
  "refused_for_nothing = \<lparr>inflight = 2, flow_pcs = [Outside, Refused, Refused]\<rparr>"

lemma one_slot_held: "flow_reachable 1 3 \<lparr>inflight = 1, flow_pcs = [Holding, Outside, Outside]\<rparr>"
proof -
  have a: "flow_reachable 1 3 \<lparr>inflight = 0, flow_pcs = [Outside, Outside, Outside]\<rparr>"
    using flow_init [of 1 3] by (simp add: numeral_3_eq_3)
  have b: "flow_reachable 1 3 \<lparr>inflight = 1, flow_pcs = [Added 1, Outside, Outside]\<rparr>"
    by (rule flow_run_step [OF a flow_step.fetch_add [of 0]]) simp_all
  show ?thesis by (rule flow_run_step [OF b flow_step.accept [of 0 _ 1]]) simp_all
qed

lemma refused_while_slot_free: "flow_reachable 1 3 refused_for_nothing \<and> Holding \<notin> set (flow_pcs refused_for_nothing)"
proof -
  have c: "flow_reachable 1 3 \<lparr>inflight = 2, flow_pcs = [Holding, Added 2, Outside]\<rparr>"
    by (rule flow_run_step [OF one_slot_held flow_step.fetch_add [of 1]]) simp_all
  have d: "flow_reachable 1 3 \<lparr>inflight = 2, flow_pcs = [Holding, Refused, Outside]\<rparr>"
    by (rule flow_run_step [OF c flow_step.refuse [of 1 _ 2]]) simp_all
  have e: "flow_reachable 1 3 \<lparr>inflight = 1, flow_pcs = [Outside, Refused, Outside]\<rparr>"
    by (rule flow_run_step [OF d flow_step.fetch_sub [of 0]]) simp_all
  have f: "flow_reachable 1 3 \<lparr>inflight = 2, flow_pcs = [Outside, Refused, Added 2]\<rparr>"
    by (rule flow_run_step [OF e flow_step.fetch_add [of 2]]) simp_all
  have "flow_reachable 1 3 refused_for_nothing"
    by (rule flow_run_step [OF f flow_step.refuse [of 2 _ 2]]) (simp_all add: refused_for_nothing_def)
  then show ?thesis by (simp add: refused_for_nothing_def)
qed

theorem flow_limit_respected_witness:
  "flow_reachable 1 3 \<lparr>inflight = 1, flow_pcs = [Holding, Outside, Outside]\<rparr> \<and>
   threads_in (\<lambda>p. p = Holding) [Holding, Outside, Outside] \<le> unat (1 :: u32)"
  using flow_limit_respected [OF one_slot_held] one_slot_held by simp

text \<open>
  The sequential functions are the runs of one thread: acquiring is the increment and what follows it at
  once, releasing is the decrement.
\<close>

lemma AcquireFlowSlot_is_a_run:
  assumes "flow_limit_vehicle (flow b) = lim" "lim \<noteq> 0"
    and "AcquireFlowSlot (transport_ptr b V2R) b = (ok, b')"
  shows "rtranclp (flow_step lim) \<lparr>inflight = inflight_vehicle (flow b), flow_pcs = [Outside]\<rparr>
     \<lparr>inflight = inflight_vehicle (flow b'), flow_pcs = [if ok then Holding else Outside]\<rparr>"
proof -
  let ?i = "inflight_vehicle (flow b)"
  have 1: "flow_step lim \<lparr>inflight = ?i, flow_pcs = [Outside]\<rparr> \<lparr>inflight = ?i + 1, flow_pcs = [Added (?i + 1)]\<rparr>"
    using flow_step.fetch_add [of 0 "\<lparr>inflight = ?i, flow_pcs = [Outside]\<rparr>" lim] assms(2) by simp
  show ?thesis
  proof (cases "?i + 1 > lim")
    case True
    then have "flow_step lim \<lparr>inflight = ?i + 1, flow_pcs = [Added (?i + 1)]\<rparr> \<lparr>inflight = ?i + 1, flow_pcs = [Refused]\<rparr>"
      using flow_step.refuse [of 0 "\<lparr>inflight = ?i + 1, flow_pcs = [Added (?i + 1)]\<rparr>" "?i + 1" lim] by simp
    moreover have "flow_step lim \<lparr>inflight = ?i + 1, flow_pcs = [Refused]\<rparr> \<lparr>inflight = ?i, flow_pcs = [Outside]\<rparr>"
      using flow_step.give_back [of 0 "\<lparr>inflight = ?i + 1, flow_pcs = [Refused]\<rparr>" lim] by simp
    moreover have "\<not> ok" "inflight_vehicle (flow b') = ?i" using assms True by (auto simp: AcquireFlowSlot_def Let_def)
    ultimately show ?thesis using 1 by (auto intro: converse_rtranclp_into_rtranclp)
  next
    case False
    then have "flow_step lim \<lparr>inflight = ?i + 1, flow_pcs = [Added (?i + 1)]\<rparr> \<lparr>inflight = ?i + 1, flow_pcs = [Holding]\<rparr>"
      using flow_step.accept [of 0 "\<lparr>inflight = ?i + 1, flow_pcs = [Added (?i + 1)]\<rparr>" "?i + 1" lim] by simp
    moreover have "ok" "inflight_vehicle (flow b') = ?i + 1" using assms False by (auto simp: AcquireFlowSlot_def Let_def)
    ultimately show ?thesis using 1 by (auto intro: converse_rtranclp_into_rtranclp)
  qed
qed

section \<open>The log gate\<close>

text \<open>
  A call of \<^verbatim>\<open>NextLogAllowedMs\<close> at time \<open>now\<close> between its load and its compare-and-exchange has seen
  \<open>next_allowed\<close>. The history records, latest first, the times of the calls that were let through and of
  those among them whose exchange succeeded.
\<close>

datatype gate_pc = GateIdle | GateLoaded u64 u64

record gate_world =
  stamp :: u64
  gate_pcs :: "gate_pc list"
  let_through :: "u64 list"
  winners :: "u64 list"

inductive gate_step :: "u64 \<Rightarrow> gate_world \<Rightarrow> gate_world \<Rightarrow> bool" for interval_ms where
  gate_load: "i < length (gate_pcs w) \<Longrightarrow> gate_pcs w ! i = GateIdle \<Longrightarrow>
     gate_step interval_ms w (w\<lparr>gate_pcs := (gate_pcs w)[i := GateLoaded now_ms (stamp w)]\<rparr>)"
| gate_deny: "i < length (gate_pcs w) \<Longrightarrow> gate_pcs w ! i = GateLoaded now_ms next_allowed \<Longrightarrow> now_ms < next_allowed \<Longrightarrow>
     gate_step interval_ms w (w\<lparr>gate_pcs := (gate_pcs w)[i := GateIdle]\<rparr>)"
| gate_win: "i < length (gate_pcs w) \<Longrightarrow> gate_pcs w ! i = GateLoaded now_ms next_allowed \<Longrightarrow> \<not> now_ms < next_allowed \<Longrightarrow>
     stamp w = next_allowed \<Longrightarrow>
     gate_step interval_ms w (w\<lparr>stamp := now_ms + interval_ms, gate_pcs := (gate_pcs w)[i := GateIdle],
       let_through := now_ms # let_through w, winners := now_ms # winners w\<rparr>)"
| gate_lose: "i < length (gate_pcs w) \<Longrightarrow> gate_pcs w ! i = GateLoaded now_ms next_allowed \<Longrightarrow> \<not> now_ms < next_allowed \<Longrightarrow>
     stamp w \<noteq> next_allowed \<Longrightarrow>
     gate_step interval_ms w (w\<lparr>gate_pcs := (gate_pcs w)[i := GateIdle], let_through := now_ms # let_through w\<rparr>)"

inductive gate_reachable :: "u64 \<Rightarrow> nat \<Rightarrow> gate_world \<Rightarrow> bool" for interval_ms n where
  gate_init: "gate_reachable interval_ms n \<lparr>stamp = 0, gate_pcs = replicate n GateIdle, let_through = [], winners = []\<rparr>"
| gate_next: "gate_reachable interval_ms n w \<Longrightarrow> gate_step interval_ms w w' \<Longrightarrow> gate_reachable interval_ms n w'"

fun spaced :: "nat \<Rightarrow> u64 list \<Rightarrow> bool" where
  "spaced d (a # b # r) \<longleftrightarrow> unat b + d \<le> unat a \<and> spaced d (b # r)"
| "spaced d _ \<longleftrightarrow> True"

definition fits_clock :: "u64 \<Rightarrow> u64 list \<Rightarrow> bool" where
  "fits_clock d ts \<longleftrightarrow> list_all (\<lambda>t. unat t + unat d < 2 ^ 64) ts"

lemma gate_invariant:
  assumes "gate_reachable d n w" "fits_clock d (winners w)"
  shows "spaced (unat d) (winners w) \<and> (\<forall>t r. winners w = t # r \<longrightarrow> unat (stamp w) = unat t + unat d)"
  using assms
proof (induction rule: gate_reachable.induct)
  case (gate_next w w')
  from gate_next.hyps(2) show ?case
  proof cases
    case (gate_win i now_ms next_allowed)
    have f: "unat now_ms + unat d < 2 ^ 64" "fits_clock d (winners w)"
      using gate_next.prems gate_win by (simp_all add: fits_clock_def)
    have "unat (now_ms + d) = unat now_ms + unat d" using unat_add_lem [of now_ms d] f(1) by simp
    then show ?thesis using gate_next.IH [OF f(2)] gate_win
      by (cases "winners w") (auto simp: word_less_nat_alt not_less)
  qed (use gate_next in auto)
qed simp


lemma gate_run_step:
  "gate_reachable d n w \<Longrightarrow> gate_step d w w' \<Longrightarrow> w' = w'' \<Longrightarrow> gate_reachable d n w''"
  by (blast intro: gate_reachable.gate_next)

text \<open>
  Two threads that load before either exchanges are both let through at the same time: the result of the
  exchange is not looked at.
\<close>

definition raced_gate :: gate_world where
  "raced_gate = \<lparr>stamp = 1500, gate_pcs = [GateIdle, GateIdle], let_through = [500, 500], winners = [500]\<rparr>"

lemma raced_gate_reachable: "gate_reachable 1000 2 raced_gate"
proof -
  have a: "gate_reachable 1000 2 \<lparr>stamp = 0, gate_pcs = [GateIdle, GateIdle], let_through = [], winners = []\<rparr>"
    using gate_init [of 1000 2] by (simp add: numeral_2_eq_2)
  have b: "gate_reachable 1000 2 \<lparr>stamp = 0, gate_pcs = [GateLoaded 500 0, GateIdle], let_through = [], winners = []\<rparr>"
    by (rule gate_run_step [OF a gate_step.gate_load [of 0 _ _ 500]]) simp_all
  have c: "gate_reachable 1000 2 \<lparr>stamp = 0, gate_pcs = [GateLoaded 500 0, GateLoaded 500 0], let_through = [], winners = []\<rparr>"
    by (rule gate_run_step [OF b gate_step.gate_load [of 1 _ _ 500]]) simp_all
  have d: "gate_reachable 1000 2 \<lparr>stamp = 1500, gate_pcs = [GateIdle, GateLoaded 500 0], let_through = [500], winners = [500]\<rparr>"
    by (rule gate_run_step [OF c gate_step.gate_win [of 0 _ 500 0]]) simp_all
  show ?thesis
    by (rule gate_run_step [OF d gate_step.gate_lose [of 1 _ 500 0]]) (simp_all add: raced_gate_def)
qed


end
