(* ===== verification/Osal_Event.thy ===== *)
theory Osal_Event
  imports Prelude
begin

text \<open>
  \<^verbatim>\<open>osal/osal_event.hpp\<close>: a manual-reset event on a mutex and a condition variable. Each critical section is
  one step, since the mutex makes it atomic; testing the flag and going to sleep on the condition variable is
  one of them. Setting the flag and notifying are two steps. A sleeping thread may wake up spuriously, and
  with a timeout it may wake up because the time is over.
\<close>

text \<open>
  Where a thread is: outside; before taking the mutex in \<^verbatim>\<open>Wait\<close> (\<open>timed\<close> tells \<^verbatim>\<open>WaitFor\<close>); asleep; awake
  again and about to test the flag, \<open>expired\<close> when its time is over; back from waiting with a result; or in
  one of the notifying functions after the flag was set.
\<close>

datatype event_pc =
    Free
  | Entering bool
  | Asleep bool
  | Awake bool bool
  | WaitReturned bool
  | NotifyingOne
  | NotifyingAll

record event_world =
  signaled :: bool
  event_pcs :: "event_pc list"

abbreviation go :: "nat \<Rightarrow> event_pc \<Rightarrow> event_world \<Rightarrow> event_world" where
  "go i p w \<equiv> w\<lparr>event_pcs := (event_pcs w)[i := p]\<rparr>"

abbreviation at_pc :: "event_world \<Rightarrow> nat \<Rightarrow> event_pc \<Rightarrow> bool" where
  "at_pc w i p \<equiv> i < length (event_pcs w) \<and> event_pcs w ! i = p"

definition wake_all :: "event_pc list \<Rightarrow> event_pc list" where
  "wake_all ps = map (\<lambda>p. case p of Asleep timed \<Rightarrow> Awake timed False | _ \<Rightarrow> p) ps"

text \<open>\<open>ones\<close> tells whether the program uses \<^verbatim>\<open>NotifyOne\<close>.\<close>

inductive event_step :: "bool \<Rightarrow> event_world \<Rightarrow> event_world \<Rightarrow> bool" for ones where
  call_wait: "at_pc w i Free \<Longrightarrow> event_step ones w (go i (Entering timed) w)"
| wait_now: "at_pc w i (Entering timed) \<Longrightarrow> signaled w \<Longrightarrow> event_step ones w (go i (WaitReturned True) w)"
| wait_sleep: "at_pc w i (Entering timed) \<Longrightarrow> \<not> signaled w \<Longrightarrow> event_step ones w (go i (Asleep timed) w)"
| wake_spurious: "at_pc w i (Asleep timed) \<Longrightarrow> event_step ones w (go i (Awake timed False) w)"
| wake_expired: "at_pc w i (Asleep True) \<Longrightarrow> event_step ones w (go i (Awake True True) w)"
| retest_true: "at_pc w i (Awake timed expired) \<Longrightarrow> signaled w \<Longrightarrow> event_step ones w (go i (WaitReturned True) w)"
| retest_sleep: "at_pc w i (Awake timed False) \<Longrightarrow> \<not> signaled w \<Longrightarrow> event_step ones w (go i (Asleep timed) w)"
| retest_expired: "at_pc w i (Awake True True) \<Longrightarrow> \<not> signaled w \<Longrightarrow> event_step ones w (go i (WaitReturned False) w)"
| wait_done: "at_pc w i (WaitReturned r) \<Longrightarrow> event_step ones w (go i Free w)"
| set_one: "ones \<Longrightarrow> at_pc w i Free \<Longrightarrow> event_step ones w (go i NotifyingOne (w\<lparr>signaled := True\<rparr>))"
| notify_one: "at_pc w i NotifyingOne \<Longrightarrow> at_pc w j (Asleep timed) \<Longrightarrow>
     event_step ones w (go j (Awake timed False) (go i Free w))"
| notify_none: "at_pc w i NotifyingOne \<Longrightarrow> \<forall>timed. Asleep timed \<notin> set (event_pcs w) \<Longrightarrow> event_step ones w (go i Free w)"
| set_all: "at_pc w i Free \<Longrightarrow> event_step ones w (go i NotifyingAll (w\<lparr>signaled := True\<rparr>))"
| notify_all: "at_pc w i NotifyingAll \<Longrightarrow>
     event_step ones w (w\<lparr>event_pcs := (wake_all (event_pcs w))[i := Free]\<rparr>)"
| reset: "at_pc w i Free \<Longrightarrow> event_step ones w (w\<lparr>signaled := False\<rparr>)"

inductive event_reachable :: "bool \<Rightarrow> nat \<Rightarrow> event_world \<Rightarrow> bool" for ones n where
  event_init: "event_reachable ones n \<lparr>signaled = False, event_pcs = replicate n Free\<rparr>"
| event_next: "event_reachable ones n w \<Longrightarrow> event_step ones w w' \<Longrightarrow> event_reachable ones n w'"

section \<open>No lost wake-ups\<close>

definition sleeping :: "event_world \<Rightarrow> bool" where
  "sleeping w \<longleftrightarrow> (\<exists>timed. Asleep timed \<in> set (event_pcs w))"

definition covered :: "event_world \<Rightarrow> bool" where
  "covered w \<longleftrightarrow> NotifyingOne \<notin> set (event_pcs w) \<and> (signaled w \<and> sleeping w \<longrightarrow> NotifyingAll \<in> set (event_pcs w))"

lemma set_update_keeps: "x \<in> set xs \<Longrightarrow> xs ! i \<noteq> x \<Longrightarrow> x \<in> set (xs[i := y])"
  by (metis in_set_conv_nth length_list_update nth_list_update_neq)

text \<open>Moving one thread neither to sleep nor out of \<^verbatim>\<open>NotifyAll\<close> keeps the waiters covered.\<close>

lemma covered_move:
  assumes "covered w" "event_pcs w ! i \<noteq> NotifyingAll" "p \<noteq> NotifyingOne" "\<And>timed. p = Asleep timed \<Longrightarrow> \<not> signaled w"
  shows "covered (go i p w)"
proof -
  have sub: "set ((event_pcs w)[i := p]) \<subseteq> insert p (set (event_pcs w))" by (rule set_update_subset_insert)
  show ?thesis
  proof (cases "signaled w \<and> sleeping w")
    case True
    then have "NotifyingAll \<in> set ((event_pcs w)[i := p])"
      using assms(1,2) by (intro set_update_keeps) (auto simp: covered_def)
    with sub assms(1,3) show ?thesis by (auto simp: covered_def)
  next
    case False
    with sub assms show ?thesis by (auto simp: covered_def sleeping_def)
  qed
qed

lemma wake_all_no_sleep: "Asleep timed \<notin> set (wake_all ps)"
  by (auto simp: wake_all_def split: event_pc.splits)

lemma wake_all_one: "NotifyingOne \<in> set (wake_all ps) \<Longrightarrow> NotifyingOne \<in> set ps"
  by (auto simp: wake_all_def split: event_pc.splits)

lemma covered_step:
  assumes "event_step False w w'" "covered w"
  shows "covered w'"
  using assms
proof (induction rule: event_step.induct)
  case (set_all w i)
  have "set ((event_pcs w)[i := NotifyingAll]) \<subseteq> insert NotifyingAll (set (event_pcs w))"
    by (rule set_update_subset_insert)
  then show ?case using set_all by (auto simp: covered_def set_update_memI)
next
  case (notify_all w i)
  have "set ((wake_all (event_pcs w))[i := Free]) \<subseteq> insert Free (set (wake_all (event_pcs w)))"
    by (rule set_update_subset_insert)
  then show ?case using notify_all wake_all_no_sleep wake_all_one [of "event_pcs w"]
    by (auto simp: covered_def sleeping_def)
next
  case (notify_one w i j timed)
  then show ?case by (auto simp: covered_def dest: nth_mem)
next
  case (notify_none w i)
  then show ?case by (auto simp: covered_def dest: nth_mem)
next
  case (reset w i)
  then show ?case by (auto simp: covered_def)
qed (auto intro: covered_move)

text \<open>
  C35: no wake-up is lost. In a program that notifies with \<^verbatim>\<open>NotifyAll\<close>, in every interleaving of waits, timed
  waits, notifications and resets: whenever the event is signalled and a thread sleeps on it, a notification
  that will wake it is still under way.
\<close>

theorem event_no_lost_wakeup:
  assumes "event_reachable False n w" "signaled w" "Asleep timed \<in> set (event_pcs w)"
  shows "NotifyingAll \<in> set (event_pcs w)"
proof -
  have "covered w" using assms(1)
  proof (induction rule: event_reachable.induct)
    case event_init
    then show ?case by (simp add: covered_def)
  next
    case (event_next w w')
    from event_next.hyps(2) event_next.IH show ?case by (rule covered_step)
  qed
  with assms(2,3) show ?thesis by (auto simp: covered_def sleeping_def)
qed

lemma event_run_step:
  "event_reachable ones n w \<Longrightarrow> event_step ones w w' \<Longrightarrow> w' = w'' \<Longrightarrow> event_reachable ones n w''"
  by (blast intro: event_next)

lemma one_asleep: "event_reachable ones (Suc n) \<lparr>signaled = False, event_pcs = Asleep False # replicate n Free\<rparr>"
proof -
  have a: "event_reachable ones (Suc n) \<lparr>signaled = False, event_pcs = Entering False # replicate n Free\<rparr>"
    by (rule event_run_step [OF event_init event_step.call_wait [of 0 _ _ False]]) simp_all
  show ?thesis by (rule event_run_step [OF a event_step.wait_sleep [of 0 _ False]]) simp_all
qed

lemma notifier_under_way:
  "event_reachable False 2 \<lparr>signaled = True, event_pcs = [Asleep False, NotifyingAll]\<rparr>"
proof -
  have a: "event_reachable False 2 \<lparr>signaled = False, event_pcs = [Asleep False, Free]\<rparr>"
    using one_asleep [of False 1] by (simp add: numeral_2_eq_2)
  show ?thesis by (rule event_run_step [OF a event_step.set_all [of 1]]) simp_all
qed

theorem event_no_lost_wakeup_witness:
  "event_reachable False 2 \<lparr>signaled = True, event_pcs = [Asleep False, NotifyingAll]\<rparr> \<and>
   NotifyingAll \<in> set [Asleep False, NotifyingAll]"
  using event_no_lost_wakeup [OF notifier_under_way, of False] notifier_under_way by simp

text \<open>
  With \<^verbatim>\<open>NotifyOne\<close> a waiter may stay asleep although the event is signalled and nothing is under way, while
  a thread that comes later does not wait at all.
\<close>

lemma NotifyOne_leaves_waiters:
  "event_reachable True 3 \<lparr>signaled = True, event_pcs = [Awake False False, Asleep False, Free]\<rparr>"
proof -
  have a: "event_reachable True 3 \<lparr>signaled = False, event_pcs = [Asleep False, Free, Free]\<rparr>"
    using one_asleep [of True 2] by (simp add: numeral_3_eq_3 numeral_2_eq_2)
  have b: "event_reachable True 3 \<lparr>signaled = False, event_pcs = [Asleep False, Entering False, Free]\<rparr>"
    by (rule event_run_step [OF a event_step.call_wait [of 1 _ _ False]]) simp_all
  have c: "event_reachable True 3 \<lparr>signaled = False, event_pcs = [Asleep False, Asleep False, Free]\<rparr>"
    by (rule event_run_step [OF b event_step.wait_sleep [of 1 _ False]]) simp_all
  have d: "event_reachable True 3 \<lparr>signaled = True, event_pcs = [Asleep False, Asleep False, NotifyingOne]\<rparr>"
    by (rule event_run_step [OF c event_step.set_one [of _ 2]]) simp_all
  show ?thesis by (rule event_run_step [OF d event_step.notify_one [of 2 _ 0 False]]) simp_all
qed

end
