(* ===== verification/Board_Support.thy ===== *)
theory Board_Support
  imports Bridge_Windows "HOL-Library.Monad_Syntax"
begin

text \<open>
  \<^verbatim>\<open>platform/stm32f429\<close>: start-up code, clock and memory controller set-up, serial log, memory self-test and
  main program of the STM32F429 board. The hardware behind the bus is a parameter, two functions that read
  and write a 32-bit word; every access is a call of one of them, in the order of the code. A busy wait may
  last for ever, so it is a partial function and \<open>None\<close> stands for not returning.
\<close>

unbundle bit_operations_syntax

section \<open>The bus\<close>

record 'h bus =
  bus_read :: "u32 \<Rightarrow> 'h \<Rightarrow> u32 \<times> 'h"
  bus_write :: "u32 \<Rightarrow> u32 \<Rightarrow> 'h \<Rightarrow> 'h"

text \<open>\<^verbatim>\<open>reg |= bits\<close> and \<^verbatim>\<open>reg &= ~mask\<close> on a volatile register.\<close>

definition or_bits :: "'h bus \<Rightarrow> u32 \<Rightarrow> u32 \<Rightarrow> 'h \<Rightarrow> 'h" where
  "or_bits bus a bits h = (case bus_read bus a h of (v, h') \<Rightarrow> bus_write bus a (v OR bits) h')"

definition mask_out :: "'h bus \<Rightarrow> u32 \<Rightarrow> u32 \<Rightarrow> 'h \<Rightarrow> 'h" where
  "mask_out bus a bits h = (case bus_read bus a h of (v, h') \<Rightarrow> bus_write bus a (v AND NOT bits) h')"

text \<open>\<^verbatim>\<open>while (cont(reg)) {}\<close>.\<close>

partial_function (option) poll :: "'h bus \<Rightarrow> u32 \<Rightarrow> (u32 \<Rightarrow> bool) \<Rightarrow> 'h \<Rightarrow> 'h option" where
  [code]: "poll bus a cont h = (case bus_read bus a h of (v, h') \<Rightarrow> if cont v then poll bus a cont h' else Some h')"

section \<open>Start-up\<close>

partial_function (option) copy_loop :: "'h bus \<Rightarrow> u32 \<Rightarrow> u32 \<Rightarrow> u32 \<Rightarrow> 'h \<Rightarrow> 'h option" where
  [code]: "copy_loop bus src dst edata h =
     (if dst < edata
      then (case bus_read bus src h of (v, h1) \<Rightarrow> copy_loop bus (src + 4) (dst + 4) edata (bus_write bus dst v h1))
      else Some h)"

partial_function (option) zero_loop :: "'h bus \<Rightarrow> u32 \<Rightarrow> u32 \<Rightarrow> 'h \<Rightarrow> 'h option" where
  [code]: "zero_loop bus dst ebss h =
     (if dst < ebss then zero_loop bus (dst + 4) ebss (bus_write bus dst 0 h) else Some h)"

text \<open>The symbols the linker script defines.\<close>

record sections =
  sec_etext :: u32
  sec_sdata :: u32
  sec_edata :: u32
  sec_sbss :: u32
  sec_ebss :: u32

section \<open>Clock and memory controller\<close>

definition SCB_CPACR_ADDR :: u32 where "SCB_CPACR_ADDR = 0xE000ED88"
definition FLASH_ACR :: u32 where "FLASH_ACR = 0x40023C00"
definition RCC_CR :: u32 where "RCC_CR = 0x40023800"
definition RCC_PLLCFGR :: u32 where "RCC_PLLCFGR = 0x40023804"
definition RCC_CFGR :: u32 where "RCC_CFGR = 0x40023808"
definition RCC_AHB1ENR :: u32 where "RCC_AHB1ENR = 0x40023830"
definition RCC_AHB3ENR :: u32 where "RCC_AHB3ENR = 0x40023838"
definition RCC_AHB3RSTR :: u32 where "RCC_AHB3RSTR = 0x40023818"
definition FMC_BCR1 :: u32 where "FMC_BCR1 = 0xA0000000"
definition FMC_BTR1 :: u32 where "FMC_BTR1 = 0xA0000004"

lemmas register_addresses = SCB_CPACR_ADDR_def FLASH_ACR_def RCC_CR_def RCC_PLLCFGR_def RCC_CFGR_def RCC_AHB1ENR_def
  RCC_AHB3ENR_def RCC_AHB3RSTR_def FMC_BCR1_def FMC_BTR1_def

definition F429_FMC_BANK1_BCR1_VALUE :: u32 where "F429_FMC_BANK1_BCR1_VALUE = 0x00001011"
definition F429_FMC_BANK1_BTR1_VALUE :: u32 where "F429_FMC_BANK1_BTR1_VALUE = 0x00110413"

text \<open>\<^verbatim>\<open>HSION, HSIRDY, HSEON, HSERDY, PLLON, PLLRDY\<close> of \<^verbatim>\<open>RCC_CR\<close>.\<close>

definition SystemClock_Config_FromHSE8_PLL168 :: "'h bus \<Rightarrow> 'h \<Rightarrow> 'h option" where
  "SystemClock_Config_FromHSE8_PLL168 bus h0 = do {
     h1 \<leftarrow> poll bus RCC_CR (\<lambda>v. v AND 0x2 = 0) (or_bits bus RCC_CR 0x1 h0);
     h2 \<leftarrow> Some (or_bits bus RCC_CFGR 0x0 (mask_out bus RCC_CFGR 0x3 h1));
     h3 \<leftarrow> poll bus RCC_CR (\<lambda>v. v AND 0x20000 = 0) (or_bits bus RCC_CR 0x10000 h2);
     h4 \<leftarrow> poll bus RCC_CR (\<lambda>v. v AND 0x2000000 \<noteq> 0) (mask_out bus RCC_CR 0x1000000 h3);
     h5 \<leftarrow> Some (bus_write bus RCC_PLLCFGR
             (push_bit 22 1 OR push_bit 0 8 OR push_bit 6 336 OR push_bit 16 0 OR push_bit 24 7) h4);
     h6 \<leftarrow> Some (bus_write bus FLASH_ACR (push_bit 9 1 OR push_bit 10 1 OR 5) h5);
     h7 \<leftarrow> Some (mask_out bus RCC_CFGR (push_bit 4 0xF OR push_bit 10 0x7 OR push_bit 13 0x7) h6);
     h8 \<leftarrow> Some (or_bits bus RCC_CFGR (push_bit 4 0 OR push_bit 10 5 OR push_bit 13 4) h7);
     h9 \<leftarrow> poll bus RCC_CR (\<lambda>v. v AND 0x2000000 = 0) (or_bits bus RCC_CR 0x1000000 h8);
     h10 \<leftarrow> Some (or_bits bus RCC_CFGR 0x2 (mask_out bus RCC_CFGR 0x3 h9));
     poll bus RCC_CFGR (\<lambda>v. v AND 0xC \<noteq> push_bit 2 0x2) h10
   }"

definition FPU_Enable :: "'h bus \<Rightarrow> 'h \<Rightarrow> 'h" where
  "FPU_Enable bus h = or_bits bus SCB_CPACR_ADDR (push_bit 20 0xF) h"

definition FMC_SRAM_Init_Param :: "'h bus \<Rightarrow> 'h \<Rightarrow> 'h" where
  "FMC_SRAM_Init_Param bus h0 =
     (let h1 = or_bits bus RCC_AHB1ENR 0x7F h0;
          h2 = or_bits bus RCC_AHB3ENR 0x1 h1;
          h3 = or_bits bus RCC_AHB3RSTR 0x1 h2;
          h4 = mask_out bus RCC_AHB3RSTR 0x1 h3;
          h5 = bus_write bus FMC_BCR1 F429_FMC_BANK1_BCR1_VALUE h4
      in bus_write bus FMC_BTR1 F429_FMC_BANK1_BTR1_VALUE h5)"

definition SystemInit :: "'h bus \<Rightarrow> 'h \<Rightarrow> 'h option" where
  "SystemInit bus h =
     map_option (FMC_SRAM_Init_Param bus) (SystemClock_Config_FromHSE8_PLL168 bus (FPU_Enable bus h))"

text \<open>The reset handler up to the call of \<^verbatim>\<open>main\<close>, which does not return.\<close>

definition Reset_Handler :: "'h bus \<Rightarrow> sections \<Rightarrow> 'h \<Rightarrow> 'h option" where
  "Reset_Handler bus sec h = do {
     h1 \<leftarrow> copy_loop bus (sec_etext sec) (sec_sdata sec) (sec_edata sec) h;
     h2 \<leftarrow> zero_loop bus (sec_sbss sec) (sec_ebss sec) h1;
     SystemInit bus h2
   }"

section \<open>Serial log\<close>

definition USART1_SR :: u32 where "USART1_SR = 0x40011000"
definition USART1_DR :: u32 where "USART1_DR = 0x40011004"
definition USART1_BRR :: u32 where "USART1_BRR = 0x40011008"
definition USART1_CR1 :: u32 where "USART1_CR1 = 0x4001100C"
definition F429_UART_BAUD_BRR :: u32 where "F429_UART_BAUD_BRR = 0x2D9"

lemmas uart_addresses = USART1_SR_def USART1_DR_def USART1_BRR_def USART1_CR1_def

definition UART_LogWriteChar :: "'h bus \<Rightarrow> char \<Rightarrow> 'h \<Rightarrow> 'h option" where
  "UART_LogWriteChar bus ch h =
     map_option (bus_write bus USART1_DR (of_char ch)) (poll bus USART1_SR (\<lambda>v. v AND 0x80 = 0) h)"

definition UART_LogInit :: "'h bus \<Rightarrow> 'h \<Rightarrow> 'h" where
  "UART_LogInit bus h =
     or_bits bus USART1_CR1 0x2000 (bus_write bus USART1_CR1 0x8 (bus_write bus USART1_BRR F429_UART_BAUD_BRR h))"

primrec write_chars :: "'h bus \<Rightarrow> string \<Rightarrow> 'h \<Rightarrow> 'h option" where
  "write_chars bus [] h = Some h"
| "write_chars bus (c # s) h = do { h' \<leftarrow> UART_LogWriteChar bus c h; write_chars bus s h' }"

text \<open>A C string is the characters before its null; \<open>None\<close> is the null pointer.\<close>

definition UART_LogWrite :: "'h bus \<Rightarrow> string option \<Rightarrow> 'h \<Rightarrow> 'h option" where
  "UART_LogWrite bus s h = (case s of None \<Rightarrow> Some h | Some t \<Rightarrow> write_chars bus t h)"

definition hex_digit :: "u32 \<Rightarrow> char" where
  "hex_digit nibble = ''0123456789ABCDEF'' ! unat nibble"

definition UART_LogWriteHex :: "'h bus \<Rightarrow> u32 \<Rightarrow> 'h \<Rightarrow> 'h option" where
  "UART_LogWriteHex bus value h = do {
     h' \<leftarrow> UART_LogWrite bus (Some ''0x'') h;
     write_chars bus (map (\<lambda>i. hex_digit (drop_bit (i * 4) value AND 0xF)) [7, 6, 5, 4, 3, 2, 1, 0]) h'
   }"

section \<open>Hardware abstraction and memory self-test\<close>

datatype FmcSramSelfTestCode = FMC_SRAM_TEST_OK | FMC_SRAM_TEST_ERR_PARAM | FMC_SRAM_TEST_ERR_MISMATCH

fun selftest_value :: "FmcSramSelfTestCode \<Rightarrow> u32" where
  "selftest_value FMC_SRAM_TEST_OK = 0"
| "selftest_value FMC_SRAM_TEST_ERR_PARAM = 1"
| "selftest_value FMC_SRAM_TEST_ERR_MISMATCH = 2"

record hal_state =
  diag_snapshot_code :: u32
  last_selftest_cycles :: u32
  audit_summary :: string

definition initial_hal :: hal_state where
  "initial_hal = \<lparr>diag_snapshot_code = 0, last_selftest_cycles = 0,
     audit_summary = ''fmc_sram_audit:{status=init,code=0}''\<rparr>"

definition HAL_Init :: "hal_state \<Rightarrow> hal_state" where
  "HAL_Init g = g\<lparr>diag_snapshot_code := 0, audit_summary := ''fmc_sram_audit:{status=hal_init,code=0}''\<rparr>"

text \<open>The number of idle instructions a delay executes.\<close>

definition HAL_Delay :: "u32 \<Rightarrow> nat" where
  "HAL_Delay ms = unat (ms * 8000)"

definition FMC_EXT_SRAM_BASE :: u32 where "FMC_EXT_SRAM_BASE = 0x68000000"
definition FMC_EXT_SRAM_WORDS_MAX :: u32 where "FMC_EXT_SRAM_WORDS_MAX = 256"

definition sram_pattern :: "u32 \<Rightarrow> u32" where
  "sram_pattern i = 0xA5A50000 OR (i AND 0xFFFF)"

text \<open>The two loops, from index \<open>i\<close> on for \<open>k\<close> more words; the second stops at the first mismatch.\<close>

fun fill_loop :: "'h bus \<Rightarrow> u32 \<Rightarrow> nat \<Rightarrow> u32 \<Rightarrow> 'h \<Rightarrow> u32 \<times> 'h" where
  "fill_loop bus i 0 cycles h = (cycles, h)"
| "fill_loop bus i (Suc k) cycles h =
     fill_loop bus (i + 1) k (cycles + 1) (bus_write bus (FMC_EXT_SRAM_BASE + 4 * i) (sram_pattern i) h)"

fun check_loop :: "'h bus \<Rightarrow> u32 \<Rightarrow> nat \<Rightarrow> u32 \<Rightarrow> 'h \<Rightarrow> bool \<times> u32 \<times> 'h" where
  "check_loop bus i 0 cycles h = (True, cycles, h)"
| "check_loop bus i (Suc k) cycles h =
     (case bus_read bus (FMC_EXT_SRAM_BASE + 4 * i) h of (actual, h') \<Rightarrow>
        if actual \<noteq> sram_pattern i then (False, cycles + 1, h')
        else check_loop bus (i + 1) k (cycles + 1) h')"

definition FMC_SRAM_BringupSelfTest ::
  "'h bus \<Rightarrow> u32 \<Rightarrow> hal_state \<times> 'h \<Rightarrow> FmcSramSelfTestCode \<times> hal_state \<times> 'h" where
  "FMC_SRAM_BringupSelfTest bus words gh =
     (case gh of (g, h) \<Rightarrow>
        if words = 0
        then (FMC_SRAM_TEST_ERR_PARAM,
              g\<lparr>diag_snapshot_code := selftest_value FMC_SRAM_TEST_ERR_PARAM, last_selftest_cycles := 0,
                audit_summary := ''fmc_sram_audit:{status=fail,reason=invalid_param,code=1,cycles=0}''\<rparr>, h)
        else
          let n = unat (if words > FMC_EXT_SRAM_WORDS_MAX then FMC_EXT_SRAM_WORDS_MAX else words) in
          (case fill_loop bus 0 n 0 h of (c1, h1) \<Rightarrow>
             (case check_loop bus 0 n c1 h1 of (ok, c2, h2) \<Rightarrow>
                if \<not> ok
                then (FMC_SRAM_TEST_ERR_MISMATCH,
                      g\<lparr>diag_snapshot_code := selftest_value FMC_SRAM_TEST_ERR_MISMATCH, last_selftest_cycles := c2,
                        audit_summary := ''fmc_sram_audit:{status=fail,reason=readback_mismatch,code=2,cycles>0}''\<rparr>, h2)
                else (FMC_SRAM_TEST_OK,
                      g\<lparr>last_selftest_cycles := c2, diag_snapshot_code := selftest_value FMC_SRAM_TEST_OK,
                        audit_summary := ''fmc_sram_audit:{status=ok,code=0}''\<rparr>, h2))))"

section \<open>The diagnostics adapter and the main program\<close>

record F429SramDiagEvent =
  event_code :: u32
  event_audit_summary :: string

text \<open>The traversal order of the hash map of fields is a parameter.\<close>

definition EmitSramBringupEvent ::
  "(string \<Rightarrow> bool) \<Rightarrow> ((string \<times> string) list \<Rightarrow> (string \<times> string) list) \<Rightarrow> u64 \<Rightarrow> string \<Rightarrow> u32 \<Rightarrow>
     F429SramDiagEvent \<Rightarrow> files \<Rightarrow> bool \<times> files" where
  "EmitSramBringupEvent can_write order now_ms path limit event fs =
     (True, RecordSnapshotWithFields can_write now_ms path limit ''platform_fmc_sram_bringup''
        (order [(''platform'', ''stm32f429zgt6''), (''component'', ''fmc_sram''),
                (''diag_code'', show_nat (unat (event_code event))), (''audit'', event_audit_summary event)]) fs)"

definition crlf :: string where
  "crlf = [CHR 0x0D, CHR 0x0A]"

record 'h board =
  hal :: hal_state
  hw :: 'h
  disk :: files

text \<open>
  \<^verbatim>\<open>g_heartbeat\<close> is the only variable of the section \<^verbatim>\<open>.ext_sram\<close>, which the linker script puts at the start of
  the external memory without loading it.
\<close>

definition heartbeat_addr :: u32 where
  "heartbeat_addr = FMC_EXT_SRAM_BASE"

record board_env =
  board_can_write :: "string \<Rightarrow> bool"
  board_field_order :: "(string \<times> string) list \<Rightarrow> (string \<times> string) list"
  board_now_ms :: u64

text \<open>
  \<^verbatim>\<open>main\<close> up to the loop it ends in: the result tells which of the two loops, \<open>False\<close> for the one that only
  waits.
\<close>

definition main_boot :: "'h bus \<Rightarrow> board_env \<Rightarrow> 'h board \<Rightarrow> (bool \<times> 'h board) option" where
  "main_boot bus env b = do {
     h1 \<leftarrow> UART_LogWrite bus (Some (''[boot] stm32f429_min start'' @ crlf)) (UART_LogInit bus (hw b));
     (case FMC_SRAM_BringupSelfTest bus 128 (HAL_Init (hal b), h1) of (sram_test, g, h2) \<Rightarrow> do {
        let diag_code = diag_snapshot_code g;
        let fs = snd (EmitSramBringupEvent (board_can_write env) (board_field_order env) (board_now_ms env)
                   ''build/diagnostics_snapshots.jsonl'' 100
                   \<lparr>event_code = diag_code, event_audit_summary = audit_summary g\<rparr> (disk b));
        h3 \<leftarrow> UART_LogWrite bus (Some ''[diag] fmc_sram code='') h2;
        h4 \<leftarrow> UART_LogWriteHex bus diag_code h3;
        h5 \<leftarrow> UART_LogWrite bus (Some crlf) h4;
        if sram_test \<noteq> FMC_SRAM_TEST_OK \<or> diag_code \<noteq> 0
        then do {
          h6 \<leftarrow> UART_LogWrite bus (Some (''[diag] fmc_sram selftest FAIL'' @ crlf)) h5;
          Some (False, \<lparr>hal = g, hw = bus_write bus heartbeat_addr (0xEE000000 OR diag_code) h6, disk = fs\<rparr>)
        }
        else do {
          h6 \<leftarrow> UART_LogWrite bus (Some (''[diag] fmc_sram selftest OK'' @ crlf)) h5;
          Some (True, \<lparr>hal = g, hw = h6, disk = fs\<rparr>)
        }
      })
   }"

text \<open>\<open>n\<close> turns of the loop of the good case.\<close>

primrec heartbeat_loop :: "'h bus \<Rightarrow> nat \<Rightarrow> 'h \<Rightarrow> 'h" where
  "heartbeat_loop bus 0 h = h"
| "heartbeat_loop bus (Suc n) h =
     heartbeat_loop bus n (case bus_read bus heartbeat_addr h of (v, h') \<Rightarrow> bus_write bus heartbeat_addr (v + 1) h')"

end
