(* ===== verification/Board_Correct.thy ===== *)
theory Board_Correct
  imports Board_Support
begin

text \<open>
  What the start-up code of the board achieves. The locale \<open>board_hardware\<close> states the behaviour of the
  chip its reference manual documents: registers and memory keep what is written, ready bits follow the
  enable bits after a while, and the serial port works only while its clock is enabled.
\<close>

section \<open>Hardware contract\<close>

text \<open>The bits the hardware sets by itself.\<close>

definition ready_bits :: "u32 \<Rightarrow> u32" where
  "ready_bits a = (if a = RCC_CR then 0x2020002 else if a = RCC_CFGR then 0xC else 0)"

definition cr_settled :: "u32 \<Rightarrow> u32 \<Rightarrow> bool" where
  "cr_settled c v \<longleftrightarrow> (v AND 0x2 = 0 \<longleftrightarrow> c AND 0x1 = 0) \<and> (v AND 0x20000 = 0 \<longleftrightarrow> c AND 0x10000 = 0)
     \<and> (v AND 0x2000000 = 0 \<longleftrightarrow> c AND 0x1000000 = 0)"

text \<open>\<^verbatim>\<open>USART1EN\<close> of \<^verbatim>\<open>RCC_APB2ENR\<close>, which no line of the program mentions.\<close>

definition RCC_APB2ENR :: u32 where "RCC_APB2ENR = 0x40023844"

definition uart_on :: "(u32 \<Rightarrow> u32) \<Rightarrow> bool" where
  "uart_on regs \<longleftrightarrow> regs RCC_APB2ENR AND 0x10 \<noteq> 0"

text \<open>
  \<open>ctl h\<close> is the contents of flash and what software last wrote elsewhere on the chip, without the ready
  bits; \<open>delay\<close> bounds how often a ready bit is still read unsettled; \<open>sent_chars\<close> are the characters the
  serial port has accepted. Nothing is said of external memory, of stores to flash, or of what the registers
  of the serial port read, its status apart.
\<close>

definition on_chip :: "u32 \<Rightarrow> bool" where
  "on_chip a \<longleftrightarrow> a < 0x60000000 \<or> 0xA0000000 \<le> a"

definition writable :: "u32 \<Rightarrow> bool" where
  "writable a \<longleftrightarrow> 0x20000000 \<le> a \<and> on_chip a"

definition uart_registers :: "u32 set" where
  "uart_registers = {USART1_SR, USART1_DR, USART1_BRR, USART1_CR1}"

locale board_hardware =
  fixes bus :: "'h bus"
    and ctl :: "'h \<Rightarrow> u32 \<Rightarrow> u32"
    and delay :: "'h \<Rightarrow> nat"
    and sent_chars :: "'h \<Rightarrow> string"
  assumes write_ctl: "writable a \<Longrightarrow> ctl (bus_write bus a v h) = (ctl h)(a := v AND NOT (ready_bits a))"
    and write_other: "b \<noteq> a \<Longrightarrow> ctl (bus_write bus a v h) b = ctl h b"
    and read_keeps: "bus_read bus a h = (v, h') \<Longrightarrow> ctl h' = ctl h \<and> sent_chars h' = sent_chars h \<and> delay h' \<le> delay h"
    and read_value: "bus_read bus a h = (v, h') \<Longrightarrow> on_chip a \<Longrightarrow> a \<notin> uart_registers \<Longrightarrow>
          v AND NOT (ready_bits a) = ctl h a"
    and cr_settles: "bus_read bus RCC_CR h = (v, h') \<Longrightarrow> delay h' < delay h \<or> cr_settled (ctl h RCC_CR) v"
    and cfgr_settles: "bus_read bus RCC_CFGR h = (v, h') \<Longrightarrow> delay h' < delay h \<or> v AND 0xC = push_bit 2 (ctl h RCC_CFGR AND 0x3)"
    and uart_settles: "bus_read bus USART1_SR h = (v, h') \<Longrightarrow> uart_on (ctl h) \<Longrightarrow> delay h' < delay h \<or> v AND 0x80 \<noteq> 0"
    and uart_gated: "bus_read bus USART1_SR h = (v, h') \<Longrightarrow> \<not> uart_on (ctl h) \<Longrightarrow> v = 0"
    and write_sent: "sent_chars (bus_write bus a v h) =
          (if a = USART1_DR \<and> uart_on (ctl h) then sent_chars h @ [char_of (unat v)] else sent_chars h)"

lemmas reg_simps = writable_def on_chip_def uart_registers_def ready_bits_def register_addresses uart_addresses

section \<open>Bits\<close>

lemma and_eq_right_iff: "(a :: u32) AND b = b \<longleftrightarrow> (\<forall>n < 32. bit b n \<longrightarrow> bit a n)"
  by (auto simp: bit_eq_iff bit_simps)

lemma and_eq_0_iff: "(a :: u32) AND b = 0 \<longleftrightarrow> (\<forall>n < 32. bit b n \<longrightarrow> \<not> bit a n)"
  by (auto simp: bit_eq_iff bit_simps)

text \<open>A field \<open>m'\<close> of a register after bits were set, cleared, or set after clearing.\<close>

lemma field_set: "m AND m' = m' \<Longrightarrow> r AND m' = 0 \<Longrightarrow> (((c :: u32) OR m) AND NOT r) AND m' = m'"
  by (auto simp: and_eq_right_iff and_eq_0_iff bit_simps)

lemma field_cleared: "m AND m' = m' \<Longrightarrow> ((c :: u32) AND NOT m) AND m' = 0"
  by (auto simp: and_eq_right_iff and_eq_0_iff bit_simps)

lemma field_other_set: "m AND m' = 0 \<Longrightarrow> r AND m' = 0 \<Longrightarrow> (((c :: u32) OR m) AND NOT r) AND m' = c AND m'"
  by (auto simp: and_eq_0_iff bit_eq_iff bit_simps)

lemma field_other_cleared: "m AND m' = 0 \<Longrightarrow> ((c :: u32) AND NOT m) AND m' = c AND m'"
  by (auto simp: and_eq_0_iff bit_eq_iff bit_simps)

lemma field_written: "k AND m' = k' \<Longrightarrow> r AND m' = 0 \<Longrightarrow> c AND m' = 0 \<Longrightarrow> (((c :: u32) OR k) AND NOT r) AND m' = k'"
  by (auto simp: and_eq_0_iff bit_eq_iff bit_simps)

section \<open>Register accesses\<close>

context board_hardware
begin

lemma or_bits_ctl:
  "writable a \<Longrightarrow> a \<notin> uart_registers \<Longrightarrow> ctl (or_bits bus a m h) = (ctl h)(a := (ctl h a OR m) AND NOT (ready_bits a))"
proof -
  assume a: "writable a" "a \<notin> uart_registers"
  then have o: "on_chip a" by (simp add: writable_def)
  obtain v h' where r: "bus_read bus a h = (v, h')" by fastforce
  have "(v OR m) AND NOT (ready_bits a) = (ctl h a OR m) AND NOT (ready_bits a)"
    unfolding read_value [OF r o a(2), symmetric] by (rule bit_word_eqI) (auto simp: bit_simps)
  then show ?thesis using read_keeps [OF r] a by (simp add: or_bits_def r write_ctl)
qed

lemma mask_out_ctl:
  "writable a \<Longrightarrow> a \<notin> uart_registers \<Longrightarrow> ctl (mask_out bus a m h) = (ctl h)(a := ctl h a AND NOT m)"
proof -
  assume a: "writable a" "a \<notin> uart_registers"
  then have o: "on_chip a" by (simp add: writable_def)
  obtain v h' where r: "bus_read bus a h = (v, h')" by fastforce
  have "(v AND NOT m) AND NOT (ready_bits a) = ctl h a AND NOT m"
    unfolding read_value [OF r o a(2), symmetric] by (rule bit_word_eqI) (auto simp: bit_simps)
  then show ?thesis using read_keeps [OF r] a by (simp add: mask_out_def r write_ctl)
qed

lemma or_bits_sent [simp]: "a \<noteq> USART1_DR \<Longrightarrow> sent_chars (or_bits bus a m h) = sent_chars h"
  by (auto simp: or_bits_def write_sent split: prod.splits dest: read_keeps)

lemma mask_out_sent [simp]: "a \<noteq> USART1_DR \<Longrightarrow> sent_chars (mask_out bus a m h) = sent_chars h"
  by (auto simp: mask_out_def write_sent split: prod.splits dest: read_keeps)

text \<open>A busy wait ends when a settled read ends it.\<close>

lemma poll_returns:
  assumes "\<And>h1 v h2. ctl h1 = ctl h \<Longrightarrow> bus_read bus a h1 = (v, h2) \<Longrightarrow> delay h2 < delay h1 \<or> \<not> cont v"
  shows "\<exists>h'. poll bus a cont h = Some h' \<and> ctl h' = ctl h \<and> sent_chars h' = sent_chars h"
  using assms
proof (induction "delay h" arbitrary: h rule: less_induct)
  case less
  obtain v h1 where r: "bus_read bus a h = (v, h1)" by fastforce
  note k = read_keeps [OF r]
  show ?case
  proof (cases "cont v")
    case False
    then show ?thesis using r k by (subst poll.simps) simp
  next
    case True
    with less.prems [OF refl r] have "delay h1 < delay h" by simp
    from less.hyps [OF this] less.prems k
    obtain h' where "poll bus a cont h1 = Some h'" "ctl h' = ctl h1" "sent_chars h' = sent_chars h1" by metis
    then show ?thesis using True r k by (subst poll.simps) simp
  qed
qed

lemma poll_cr:
  assumes "\<And>v. cr_settled (ctl h RCC_CR) v \<Longrightarrow> \<not> cont v"
  shows "\<exists>h'. poll bus RCC_CR cont h = Some h' \<and> ctl h' = ctl h \<and> sent_chars h' = sent_chars h"
  by (rule poll_returns) (metis assms cr_settles)

lemma poll_cfgr:
  assumes "ctl h RCC_CFGR AND 0x3 = 0x2"
  shows "\<exists>h'. poll bus RCC_CFGR (\<lambda>v. v AND 0xC \<noteq> push_bit 2 0x2) h = Some h' \<and> ctl h' = ctl h \<and> sent_chars h' = sent_chars h"
  by (rule poll_returns) (metis assms cfgr_settles)

end

text \<open>The clock set-up as one change of the registers.\<close>

definition clock_registers :: "(u32 \<Rightarrow> u32) \<Rightarrow> u32 \<Rightarrow> u32" where
  "clock_registers r = (
     let cr1 = (r RCC_CR OR 0x1) AND NOT 0x2020002;
         cr2 = (cr1 OR 0x10000) AND NOT 0x2020002;
         cr3 = cr2 AND NOT 0x1000000;
         cr4 = (cr3 OR 0x1000000) AND NOT 0x2020002;
         cf1 = ((r RCC_CFGR AND NOT 0x3) OR 0x0) AND NOT 0xC;
         cf2 = ((cf1 AND NOT 0xFCF0) OR 0x9400) AND NOT 0xC;
         cf3 = ((cf2 AND NOT 0x3) OR 0x2) AND NOT 0xC
     in r(RCC_CR := cr4, RCC_CFGR := cf3, RCC_PLLCFGR := 0x07405408, FLASH_ACR := 0x605))"

lemma clock_cfgr: "clock_registers r RCC_CFGR AND 0x3 = 0x2"
proof -
  define cf2 where "cf2 = (((((r RCC_CFGR AND NOT 0x3) OR 0x0) AND NOT 0xC) AND NOT 0xFCF0) OR 0x9400) AND NOT 0xC"
  have e: "clock_registers r RCC_CFGR = ((cf2 AND NOT 0x3) OR 0x2) AND NOT 0xC"
    unfolding clock_registers_def Let_def cf2_def by (simp add: register_addresses)
  show ?thesis unfolding e by (rule field_written, simp, simp, rule field_cleared, simp)
qed

lemma clock_prescalers: "clock_registers r RCC_CFGR AND 0xFCF0 = 0x9400"
proof -
  define cf1 where "cf1 = ((r RCC_CFGR AND NOT 0x3) OR 0x0) AND NOT 0xC"
  define cf2 where "cf2 = ((cf1 AND NOT 0xFCF0) OR 0x9400) AND NOT 0xC"
  have e: "clock_registers r RCC_CFGR = ((cf2 AND NOT 0x3) OR 0x2) AND NOT 0xC"
    unfolding clock_registers_def Let_def cf2_def cf1_def by (simp add: register_addresses)
  have "(((cf2 AND NOT 0x3) OR 0x2) AND NOT 0xC) AND 0xFCF0 = (cf2 AND NOT 0x3) AND 0xFCF0"
    by (rule field_other_set) simp_all
  also have "\<dots> = cf2 AND 0xFCF0" by (rule field_other_cleared) simp
  also have "\<dots> = 0x9400" unfolding cf2_def by (rule field_written, simp, simp, rule field_cleared, simp)
  finally show ?thesis using e by simp
qed

context board_hardware
begin

lemma turn_on:
  assumes "\<And>c v. cr_settled c v \<Longrightarrow> c AND m = m \<Longrightarrow> v AND r \<noteq> 0" "0x2020002 AND m = 0"
  shows "\<exists>h'. poll bus RCC_CR (\<lambda>v. v AND r = 0) (or_bits bus RCC_CR m h) = Some h' \<and>
     ctl h' = (ctl h)(RCC_CR := (ctl h RCC_CR OR m) AND NOT 0x2020002) \<and> sent_chars h' = sent_chars h"
proof -
  have c: "ctl (or_bits bus RCC_CR m h) = (ctl h)(RCC_CR := (ctl h RCC_CR OR m) AND NOT 0x2020002)"
    "sent_chars (or_bits bus RCC_CR m h) = sent_chars h"
    by (simp_all add: or_bits_ctl reg_simps)
  have "((ctl h RCC_CR OR m) AND NOT 0x2020002) AND m = m" using assms(2) by (intro field_set) simp_all
  then show ?thesis using poll_cr [of "or_bits bus RCC_CR m h" "\<lambda>v. v AND r = 0"] c assms(1) by auto
qed

lemma turn_off:
  assumes "\<And>c v. cr_settled c v \<Longrightarrow> c AND m = 0 \<Longrightarrow> v AND r = 0"
  shows "\<exists>h'. poll bus RCC_CR (\<lambda>v. v AND r \<noteq> 0) (mask_out bus RCC_CR m h) = Some h' \<and>
     ctl h' = (ctl h)(RCC_CR := ctl h RCC_CR AND NOT m) \<and> sent_chars h' = sent_chars h"
proof -
  have c: "ctl (mask_out bus RCC_CR m h) = (ctl h)(RCC_CR := ctl h RCC_CR AND NOT m)"
    "sent_chars (mask_out bus RCC_CR m h) = sent_chars h"
    by (simp_all add: mask_out_ctl reg_simps)
  have "(ctl h RCC_CR AND NOT m) AND m = 0" by (rule field_cleared) simp
  then show ?thesis using poll_cr [of "mask_out bus RCC_CR m h" "\<lambda>v. v AND r \<noteq> 0"] c assms by auto
qed

lemma SystemClock_registers:
  "\<exists>h'. SystemClock_Config_FromHSE8_PLL168 bus h = Some h' \<and> ctl h' = clock_registers (ctl h) \<and> sent_chars h' = sent_chars h"
proof -
  note ctls = or_bits_ctl mask_out_ctl write_ctl write_sent reg_simps
  from turn_on [of "0x1" "0x2" h] obtain h1 where h1: "poll bus RCC_CR (\<lambda>v. v AND 0x2 = 0) (or_bits bus RCC_CR 0x1 h) = Some h1"
      "ctl h1 = (ctl h)(RCC_CR := (ctl h RCC_CR OR 0x1) AND NOT 0x2020002)" "sent_chars h1 = sent_chars h"
    by (auto simp: cr_settled_def)
  define h2 where "h2 = or_bits bus RCC_CFGR 0x0 (mask_out bus RCC_CFGR 0x3 h1)"
  from turn_on [of "0x10000" "0x20000" h2] obtain h3 where
      h3: "poll bus RCC_CR (\<lambda>v. v AND 0x20000 = 0) (or_bits bus RCC_CR 0x10000 h2) = Some h3"
      "ctl h3 = (ctl h2)(RCC_CR := (ctl h2 RCC_CR OR 0x10000) AND NOT 0x2020002)" "sent_chars h3 = sent_chars h2"
    by (auto simp: cr_settled_def)
  from turn_off [of "0x1000000" "0x2000000" h3] obtain h4 where
      h4: "poll bus RCC_CR (\<lambda>v. v AND 0x2000000 \<noteq> 0) (mask_out bus RCC_CR 0x1000000 h3) = Some h4"
      "ctl h4 = (ctl h3)(RCC_CR := ctl h3 RCC_CR AND NOT 0x1000000)" "sent_chars h4 = sent_chars h3"
    by (auto simp: cr_settled_def)
  define h6 where "h6 = bus_write bus FLASH_ACR 0x605 (bus_write bus RCC_PLLCFGR 0x07405408 h4)"
  define h8 where "h8 = or_bits bus RCC_CFGR 0x9400 (mask_out bus RCC_CFGR 0xFCF0 h6)"
  from turn_on [of "0x1000000" "0x2000000" h8] obtain h9 where
      h9: "poll bus RCC_CR (\<lambda>v. v AND 0x2000000 = 0) (or_bits bus RCC_CR 0x1000000 h8) = Some h9"
      "ctl h9 = (ctl h8)(RCC_CR := (ctl h8 RCC_CR OR 0x1000000) AND NOT 0x2020002)" "sent_chars h9 = sent_chars h8"
    by (auto simp: cr_settled_def)
  define h10 where "h10 = or_bits bus RCC_CFGR 0x2 (mask_out bus RCC_CFGR 0x3 h9)"
  have c: "ctl h10 = clock_registers (ctl h)" "sent_chars h10 = sent_chars h"
    using h1(2,3) h3(2,3) h4(2,3) h9(2,3)
    by (auto simp: h10_def h8_def h6_def h2_def clock_registers_def Let_def ctls)
  have "ctl h10 RCC_CFGR AND 0x3 = 0x2"
    unfolding c by (rule clock_cfgr)
  from poll_cfgr [OF this] c obtain h' where "poll bus RCC_CFGR (\<lambda>v. v AND 0xC \<noteq> push_bit 2 0x2) h10 = Some h'"
      "ctl h' = clock_registers (ctl h)" "sent_chars h' = sent_chars h"
    by auto
  then show ?thesis using h1(1) h3(1) h4(1) h9(1)
    by (simp add: SystemClock_Config_FromHSE8_PLL168_def h2_def [symmetric] h6_def [symmetric] h8_def [symmetric]
        h10_def [symmetric])
qed

lemma FMC_registers:
  "ctl (FMC_SRAM_Init_Param bus h) = (ctl h)(RCC_AHB1ENR := ctl h RCC_AHB1ENR OR 0x7F, RCC_AHB3ENR := ctl h RCC_AHB3ENR OR 0x1,
     RCC_AHB3RSTR := (ctl h RCC_AHB3RSTR OR 0x1) AND NOT 0x1, FMC_BCR1 := 0x1011, FMC_BTR1 := 0x110413)
   \<and> sent_chars (FMC_SRAM_Init_Param bus h) = sent_chars h"
  by (auto simp: FMC_SRAM_Init_Param_def or_bits_ctl mask_out_ctl write_ctl write_sent reg_simps F429_FMC_BANK1_BCR1_VALUE_def F429_FMC_BANK1_BTR1_VALUE_def)

lemma SystemInit_registers:
  "\<exists>h'. SystemInit bus h = Some h' \<and> sent_chars h' = sent_chars h \<and>
     ctl h' = (clock_registers ((ctl h)(SCB_CPACR_ADDR := ctl h SCB_CPACR_ADDR OR 0xF00000)))
       (RCC_AHB1ENR := ctl h RCC_AHB1ENR OR 0x7F, RCC_AHB3ENR := ctl h RCC_AHB3ENR OR 0x1,
        RCC_AHB3RSTR := (ctl h RCC_AHB3RSTR OR 0x1) AND NOT 0x1, FMC_BCR1 := 0x1011, FMC_BTR1 := 0x110413)"
proof -
  have f: "ctl (FPU_Enable bus h) = (ctl h)(SCB_CPACR_ADDR := ctl h SCB_CPACR_ADDR OR 0xF00000)"
      "sent_chars (FPU_Enable bus h) = sent_chars h"
    by (simp_all add: FPU_Enable_def or_bits_ctl reg_simps)
  from SystemClock_registers [of "FPU_Enable bus h"] f obtain h1 where
    "SystemClock_Config_FromHSE8_PLL168 bus (FPU_Enable bus h) = Some h1"
    "ctl h1 = clock_registers ((ctl h)(SCB_CPACR_ADDR := ctl h SCB_CPACR_ADDR OR 0xF00000))" "sent_chars h1 = sent_chars h"
    by auto
  then show ?thesis using FMC_registers [of h1]
    by (simp add: SystemInit_def) (simp add: clock_registers_def Let_def register_addresses)
qed

end

section \<open>The clock tree\<close>

text \<open>
  The frequencies the reference manual derives from the registers: the system clock is the crystal divided by
  \<^verbatim>\<open>PLLM\<close>, multiplied by \<^verbatim>\<open>PLLN\<close> and divided by \<^verbatim>\<open>PLLP\<close> when the PLL is selected, the buses divide it.
\<close>

definition pll_hz :: "nat \<Rightarrow> u32 \<Rightarrow> nat" where
  "pll_hz hse w = hse div unat (w AND 0x3F) * unat (drop_bit 6 (w AND 0x7FC0)) div (2 * (unat (drop_bit 16 (w AND 0x30000)) + 1))"

definition apb_divisor :: "u32 \<Rightarrow> nat" where
  "apb_divisor code = (if code < 4 then 1 else 2 ^ (unat code - 3))"

definition sysclk_hz :: "nat \<Rightarrow> (u32 \<Rightarrow> u32) \<Rightarrow> nat option" where
  "sysclk_hz hse r =
     (if r RCC_CFGR AND 0x3 = 0x2 \<and> r RCC_PLLCFGR AND 0x400000 \<noteq> 0 \<and> r RCC_CFGR AND 0xF0 = 0
      then Some (pll_hz hse (r RCC_PLLCFGR)) else None)"

definition apb1_divisor :: "(u32 \<Rightarrow> u32) \<Rightarrow> nat" where
  "apb1_divisor r = apb_divisor (drop_bit 10 (r RCC_CFGR AND 0x1C00))"

definition apb2_divisor :: "(u32 \<Rightarrow> u32) \<Rightarrow> nat" where
  "apb2_divisor r = apb_divisor (drop_bit 13 (r RCC_CFGR AND 0xE000))"

lemma subfield: "(w :: u32) AND m = k \<Longrightarrow> m' AND m = m' \<Longrightarrow> w AND m' = k AND m'"
  by (metis and.assoc and.commute)

lemma clock_tree:
  assumes "r RCC_CFGR AND 0x3 = 0x2" "r RCC_CFGR AND 0xFCF0 = 0x9400" "r RCC_PLLCFGR = 0x07405408"
  shows "sysclk_hz 8000000 r = Some 168000000 \<and> apb1_divisor r = 4 \<and> apb2_divisor r = 2"
proof -
  have "r RCC_CFGR AND 0xF0 = 0" "r RCC_CFGR AND 0x1C00 = 0x1400" "r RCC_CFGR AND 0xE000 = 0x8000"
    using subfield [OF assms(2), of "0xF0"] subfield [OF assms(2), of "0x1C00"] subfield [OF assms(2), of "0xE000"]
    by simp_all
  then show ?thesis using assms(1,3)
    by (simp add: sysclk_hz_def apb1_divisor_def apb2_divisor_def apb_divisor_def pll_hz_def)
qed

section \<open>A reference board\<close>

text \<open>After every write the ready bits lag behind for two reads.\<close>

record sim =
  regs :: "u32 \<Rightarrow> u32"
  lag :: nat
  uart_out :: string

definition sim_ctl :: "sim \<Rightarrow> u32 \<Rightarrow> u32" where
  "sim_ctl h a = regs h a AND NOT (ready_bits a)"

definition sim_ready :: "u32 \<Rightarrow> u32 \<Rightarrow> u32" where
  "sim_ready a c =
     (if a = RCC_CR then (if c AND 0x1 = 0 then 0 else 0x2) OR (if c AND 0x10000 = 0 then 0 else 0x20000)
        OR (if c AND 0x1000000 = 0 then 0 else 0x2000000)
      else if a = RCC_CFGR then push_bit 2 (c AND 0x3) else 0)"

definition sim_read :: "u32 \<Rightarrow> sim \<Rightarrow> u32 \<times> sim" where
  "sim_read a h =
     (if a = USART1_SR then
        (if \<not> uart_on (sim_ctl h) then (0, h)
         else if lag h > 0 then (0, h\<lparr>lag := lag h - 1\<rparr>) else (0x80, h))
      else if lag h > 0 then (sim_ctl h a, h\<lparr>lag := lag h - 1\<rparr>)
      else (sim_ctl h a OR sim_ready a (sim_ctl h a), h))"

definition sim_write :: "u32 \<Rightarrow> u32 \<Rightarrow> sim \<Rightarrow> sim" where
  "sim_write a v h = h\<lparr>regs := (regs h)(a := v), lag := 2,
     uart_out := (if a = USART1_DR \<and> uart_on (sim_ctl h) then uart_out h @ [char_of (unat v)] else uart_out h)\<rparr>"

definition sim_bus :: "sim bus" where
  "sim_bus = \<lparr>bus_read = sim_read, bus_write = sim_write\<rparr>"

lemma or_field: "(c :: u32) AND m = 0 \<Longrightarrow> (c OR k) AND m = k AND m"
  by (auto simp: and_eq_0_iff bit_eq_iff bit_simps)

lemma ready_masked: "(c AND NOT (0x2020002 :: u32)) AND 0x2 = 0" "(c AND NOT (0x2020002 :: u32)) AND 0x20000 = 0"
  "(c AND NOT (0x2020002 :: u32)) AND 0x2000000 = 0" "(c AND NOT (0xC :: u32)) AND 0xC = 0"
  by (rule field_cleared, simp)+

lemma sim_ready_outside: "(sim_ctl h a OR sim_ready a (sim_ctl h a)) AND NOT (ready_bits a) = sim_ctl h a"
proof -
  have "sim_ready a c AND NOT (ready_bits a) = 0" for c
  proof (cases "a = RCC_CFGR")
    case True
    have "push_bit 2 (c AND 3) AND NOT (0xC :: u32) = 0"
      by (rule bit_word_eqI) (auto simp: bit_simps bit_numeral_rec bit_1_iff numeral_eq_Suc less_Suc_eq)
    then show ?thesis using True by (simp add: sim_ready_def ready_bits_def register_addresses)
  next
    case False
    then show ?thesis by (auto simp: sim_ready_def ready_bits_def)
  qed
  then have "bit (sim_ready a (sim_ctl h a)) n \<Longrightarrow> n < 32 \<Longrightarrow> bit (ready_bits a) n" for n
    by (auto simp: bit_eq_iff bit_simps)
  then show ?thesis by (auto simp: sim_ctl_def bit_eq_iff bit_simps)
qed

lemma sim_cr_settled: "cr_settled (sim_ctl h RCC_CR) (sim_ctl h RCC_CR OR sim_ready RCC_CR (sim_ctl h RCC_CR))"
proof -
  have z: "sim_ctl h RCC_CR AND 0x2 = 0" "sim_ctl h RCC_CR AND 0x20000 = 0" "sim_ctl h RCC_CR AND 0x2000000 = 0"
    using ready_masked by (simp_all add: sim_ctl_def ready_bits_def)
  show ?thesis unfolding cr_settled_def z [THEN or_field] by (simp add: sim_ready_def)
qed

lemma sim_cfgr_settled:
  "(sim_ctl h RCC_CFGR OR sim_ready RCC_CFGR (sim_ctl h RCC_CFGR)) AND 0xC = push_bit 2 (sim_ctl h RCC_CFGR AND 0x3)"
proof -
  have z: "sim_ctl h RCC_CFGR AND 0xC = 0"
    using ready_masked(4) by (simp add: sim_ctl_def ready_bits_def register_addresses)
  have "push_bit 2 (c AND 3) AND (0xC :: u32) = push_bit 2 (c AND 3)" for c :: u32
    by (rule bit_word_eqI) (auto simp: bit_simps bit_numeral_rec bit_1_iff numeral_eq_Suc less_Suc_eq)
  then show ?thesis unfolding z [THEN or_field] by (simp add: sim_ready_def register_addresses)
qed

interpretation sim: board_hardware sim_bus sim_ctl lag uart_out
proof unfold_locales
  show "sim_ctl (bus_write sim_bus a v h) = (sim_ctl h)(a := v AND NOT (ready_bits a))" for a v h
    by (auto simp: sim_bus_def sim_write_def sim_ctl_def)
  show "sim_ctl (bus_write sim_bus a v h) b = sim_ctl h b" if "b \<noteq> a" for a b v h
    using that by (auto simp: sim_bus_def sim_write_def sim_ctl_def)
  show "sim_ctl h' = sim_ctl h \<and> uart_out h' = uart_out h \<and> lag h' \<le> lag h" if "bus_read sim_bus a h = (v, h')" for a v h h'
    using that by (auto simp: sim_bus_def sim_read_def sim_ctl_def split: if_splits)
  show "v AND NOT (ready_bits a) = sim_ctl h a" if "bus_read sim_bus a h = (v, h')" "a \<notin> uart_registers" for a v h h'
    using that sim_ready_outside [of h a] by (auto simp: uart_registers_def sim_bus_def sim_read_def sim_ctl_def and.assoc split: if_splits)
  show "lag h' < lag h \<or> cr_settled (sim_ctl h RCC_CR) v" if "bus_read sim_bus RCC_CR h = (v, h')" for v h h'
    using that sim_cr_settled [of h] by (auto simp: sim_bus_def sim_read_def register_addresses uart_addresses split: if_splits)
  show "lag h' < lag h \<or> v AND 0xC = push_bit 2 (sim_ctl h RCC_CFGR AND 0x3)" if "bus_read sim_bus RCC_CFGR h = (v, h')" for v h h'
    using that sim_cfgr_settled [of h] by (auto simp: sim_bus_def sim_read_def register_addresses uart_addresses split: if_splits)
qed (auto simp: sim_bus_def sim_read_def sim_write_def split: if_splits)

text \<open>The registers \<^verbatim>\<open>SystemInit\<close> writes.\<close>

definition init_registers :: "u32 set" where
  "init_registers = {SCB_CPACR_ADDR, FLASH_ACR, RCC_CR, RCC_PLLCFGR, RCC_CFGR, RCC_AHB1ENR, RCC_AHB3ENR, RCC_AHB3RSTR,
     FMC_BCR1, FMC_BTR1}"


definition reset_board :: sim where
  "reset_board = \<lparr>regs = (\<lambda>_. 0), lag = 5, uart_out = []\<rparr>"


section \<open>The serial port\<close>

lemma of_char_u32: "unat (of_char c :: u32) = of_char c"
proof -
  have "(of_char c :: u32) = of_nat (of_char c)" by (simp add: of_nat_of_char)
  moreover have "(of_char c :: nat) < 2 ^ 32"
    by (rule less_le_trans [OF nat_of_char_less_256]) simp
  ultimately show ?thesis by (simp add: unat_of_nat take_bit_nat_eq_self)
qed

text \<open>A wait whose condition holds for ever does not return.\<close>

lemma poll_never_ends:
  assumes "\<And>h v h'. P h \<Longrightarrow> bus_read bus a h = (v, h') \<Longrightarrow> cont v \<and> P h'" "P h"
  shows "poll bus a cont h = None"
proof -
  have "(\<forall>h v h'. P h \<longrightarrow> bus_read bus a h = (v, h') \<longrightarrow> cont v \<and> P h') \<longrightarrow> \<not> P h"
    if "poll bus a cont h = Some y" for y
    using that
  proof (induction rule: poll.raw_induct [rotated 1, consumes 1, case_names step])
    case (step pl bus a cont h y)
    obtain v h1 where r: "bus_read bus a h = (v, h1)" by fastforce
    with step(2) have "cont v \<Longrightarrow> pl bus a cont h1 = Some y" by simp
    with step(1) r show ?case by blast
  qed
  then show ?thesis using assms by (cases "poll bus a cont h") blast+
qed

context board_hardware
begin

lemma WriteChar_sends:
  assumes "uart_on (ctl h)"
  shows "\<exists>h'. UART_LogWriteChar bus c h = Some h' \<and> ctl h' = (ctl h)(USART1_DR := of_char c) \<and> sent_chars h' = sent_chars h @ [c]"
proof -
  have "\<exists>h1. poll bus USART1_SR (\<lambda>v. v AND 0x80 = 0) h = Some h1 \<and> ctl h1 = ctl h \<and> sent_chars h1 = sent_chars h"
    by (rule poll_returns) (metis assms uart_settles)
  then show ?thesis using assms
    by (auto simp: UART_LogWriteChar_def write_ctl write_sent reg_simps of_char_u32)
qed

text \<open>Text is sent in order, and no register but the data register of the port changes.\<close>

lemma write_chars_sends:
  assumes "uart_on (ctl h)"
  shows "\<exists>h'. write_chars bus s h = Some h' \<and> sent_chars h' = sent_chars h @ s \<and> (\<forall>a. a \<noteq> USART1_DR \<longrightarrow> ctl h' a = ctl h a)"
  using assms
proof (induction s arbitrary: h)
  case (Cons c s)
  from WriteChar_sends [OF Cons.prems, of c] obtain h1 where h1: "UART_LogWriteChar bus c h = Some h1"
    "ctl h1 = (ctl h)(USART1_DR := of_char c)" "sent_chars h1 = sent_chars h @ [c]" by blast
  with Cons.prems have "uart_on (ctl h1)"
    by (simp add: uart_on_def RCC_APB2ENR_def uart_addresses)
  from Cons.IH [OF this] h1 show ?case by auto
qed simp

lemma WriteChar_hangs: "\<not> uart_on (ctl h) \<Longrightarrow> UART_LogWriteChar bus c h = None"
proof -
  assume "\<not> uart_on (ctl h)"
  then have "poll bus USART1_SR (\<lambda>v. v AND 0x80 = 0) h = None"
    by (rule poll_never_ends [where P = "\<lambda>h. \<not> uart_on (ctl h)", rotated]) (auto dest: uart_gated read_keeps)
  then show ?thesis by (simp add: UART_LogWriteChar_def)
qed

lemma LogInit_keeps:
  "a \<noteq> USART1_BRR \<Longrightarrow> a \<noteq> USART1_CR1 \<Longrightarrow> ctl (UART_LogInit bus h) a = ctl h a"
  "sent_chars (UART_LogInit bus h) = sent_chars h"
  by (auto simp: UART_LogInit_def or_bits_def write_other write_sent uart_addresses split: prod.splits dest!: read_keeps)

lemma LogInit_uart_on: "uart_on (ctl (UART_LogInit bus h)) \<longleftrightarrow> uart_on (ctl h)"
  by (simp add: uart_on_def LogInit_keeps RCC_APB2ENR_def uart_addresses)

end

end
