(* ===== verification/Board_Boot.thy ===== *)
theory Board_Boot
  imports Board_Correct
begin

text \<open>
  From reset to the main loop of the board: the image the reset handler sets up, what the memory self-test
  detects, what the serial log says, and that the program waits for ever on a port whose clock is off.
\<close>

section \<open>External memory\<close>

definition sram_addr :: "nat \<Rightarrow> u32" where
  "sram_addr j = FMC_EXT_SRAM_BASE + 4 * word_of_nat j"

lemma unat_sram_addr: "j < 256 \<Longrightarrow> unat (sram_addr j) = 0x68000000 + 4 * j"
  by (simp add: sram_addr_def FMC_EXT_SRAM_BASE_def unat_word_ariths unat_of_nat take_bit_eq_mod)

lemma sram_addr_off_chip: "j < 256 \<Longrightarrow> \<not> on_chip (sram_addr j)"
  using unat_sram_addr [of j] by (simp add: on_chip_def word_less_nat_alt word_le_nat_alt)

lemma sram_addr_other: "j < 256 \<Longrightarrow> on_chip a \<Longrightarrow> a \<noteq> sram_addr j"
  using sram_addr_off_chip by blast

text \<open>
  A memory chip with possible faults of the board: the address lines select the cell \<open>decode j\<close> for word
  \<open>j\<close>, and a word passes the data lines as \<open>lines\<close> says. On a good board \<open>decode\<close> is injective and \<open>lines\<close>
  the identity.
\<close>

locale sram_chip =
  fixes bus :: "'h bus"
    and cells :: "'h \<Rightarrow> 'c \<Rightarrow> u32"
    and decode :: "nat \<Rightarrow> 'c"
    and lines :: "u32 \<Rightarrow> u32"
  assumes sram_read: "j < 256 \<Longrightarrow> bus_read bus (sram_addr j) h = (v, h') \<Longrightarrow> v = lines (cells h (decode j))"
    and read_cells: "bus_read bus a h = (v, h') \<Longrightarrow> cells h' = cells h"
    and sram_write: "j < 256 \<Longrightarrow> cells (bus_write bus (sram_addr j) v h) = (cells h)(decode j := v)"
    and chip_write: "on_chip a \<Longrightarrow> cells (bus_write bus a v h) = cells h"

section \<open>The two loops of the self-test\<close>

lemma pattern_low: "j < 256 \<Longrightarrow> sram_pattern (word_of_nat j) AND 0xFFFF = word_of_nat j"
proof -
  assume j: "j < 256"
  have "(0xA5A50000 OR (w AND 0xFFFF)) AND 0xFFFF = w AND 0xFFFF" for w :: u32
    using or_field [of "0xA5A50000" "0xFFFF" "w AND 0xFFFF"] by simp
  moreover have "w AND 0xFFFF = take_bit 16 w" for w :: u32
    by (simp add: take_bit_eq_mask mask_eq_exp_minus_1)
  moreover have "take_bit 16 (word_of_nat j :: u32) = word_of_nat j"
    using j by (simp add: take_bit_of_nat take_bit_nat_eq_self)
  ultimately show ?thesis by (simp add: sram_pattern_def)
qed

lemma pattern_inj: "i < 256 \<Longrightarrow> j < 256 \<Longrightarrow> sram_pattern (word_of_nat i) = sram_pattern (word_of_nat j) \<Longrightarrow> i = j"
proof -
  assume "i < 256" "j < 256" "sram_pattern (word_of_nat i) = sram_pattern (word_of_nat j)"
  then have "(word_of_nat i :: u32) = word_of_nat j" using pattern_low by metis
  then have "unat (word_of_nat i :: u32) = unat (word_of_nat j :: u32)" by simp
  then show ?thesis using \<open>i < 256\<close> \<open>j < 256\<close> by (simp add: unat_of_nat take_bit_nat_eq_self)
qed

definition fill_from :: "'h bus \<Rightarrow> nat \<Rightarrow> nat \<Rightarrow> u32 \<Rightarrow> 'h \<Rightarrow> u32 \<times> 'h" where
  "fill_from bus m k c h = fill_loop bus (word_of_nat m) k c h"

lemma fill_step:
  "fill_from bus m (Suc k) c h = fill_from bus (Suc m) k (c + 1) (bus_write bus (sram_addr m) (sram_pattern (word_of_nat m)) h)"
  by (simp add: fill_from_def sram_addr_def add.commute)

lemma fill_none [simp]: "fill_from bus m 0 c h = (c, h)"
  by (simp add: fill_from_def)

lemma fill_cycles: "fst (fill_loop bus i k c h) = c + word_of_nat k"
  by (induction bus i k c h rule: fill_loop.induct) (simp_all add: ac_simps)

definition check_from :: "'h bus \<Rightarrow> nat \<Rightarrow> nat \<Rightarrow> u32 \<Rightarrow> 'h \<Rightarrow> bool \<times> u32 \<times> 'h" where
  "check_from bus m k c h = check_loop bus (word_of_nat m) k c h"

lemma check_step:
  "check_from bus m (Suc k) c h =
     (case bus_read bus (sram_addr m) h of (v, h') \<Rightarrow>
        if v \<noteq> sram_pattern (word_of_nat m) then (False, c + 1, h') else check_from bus (Suc m) k (c + 1) h')"
  by (simp add: check_from_def sram_addr_def add.commute cong: if_cong)

lemma check_none [simp]: "check_from bus m 0 c h = (True, c, h)"
  by (simp add: check_from_def)

lemma check_cycles: "check_loop bus i k c h = (True, c', h') \<Longrightarrow> c' = c + word_of_nat k"
  by (induction bus i k c h arbitrary: c' h' rule: check_loop.induct)
     (auto simp: ac_simps split: prod.splits if_splits)

context sram_chip
begin

lemma fill_elsewhere:
  "m + k \<le> 256 \<Longrightarrow> (\<And>j. m \<le> j \<Longrightarrow> j < m + k \<Longrightarrow> decode j \<noteq> x) \<Longrightarrow> cells (snd (fill_from bus m k c h)) x = cells h x"
proof (induction k arbitrary: m c h)
  case (Suc k)
  have "x \<noteq> decode m" using Suc.prems(2) [of m] by auto
  then show ?case unfolding fill_step using Suc by (simp add: sram_write)
qed simp

lemma fill_cells:
  "m + k \<le> 256 \<Longrightarrow> inj_on decode {m..<m + k} \<Longrightarrow> m \<le> j \<Longrightarrow> j < m + k \<Longrightarrow>
     cells (snd (fill_from bus m k c h)) (decode j) = sram_pattern (word_of_nat j)"
proof (induction k arbitrary: m c h)
  case (Suc k)
  show ?case
  proof (cases "j = m")
    case True
    have "decode i \<noteq> decode m" if "Suc m \<le> i" "i < Suc m + k" for i
      using Suc.prems(2) that by (auto dest!: inj_onD)
    then show ?thesis unfolding fill_step True using Suc.prems(1)
      by (subst fill_elsewhere) (auto simp: sram_write)
  next
    case False
    have "inj_on decode {Suc m..<Suc m + k}" using Suc.prems(2) by (rule inj_on_subset) auto
    then show ?thesis unfolding fill_step using Suc False by simp
  qed
qed simp

lemma check_exact:
  "m + k \<le> 256 \<Longrightarrow> fst (check_from bus m k c h) \<longleftrightarrow>
     (\<forall>j. m \<le> j \<and> j < m + k \<longrightarrow> lines (cells h (decode j)) = sram_pattern (word_of_nat j))"
proof (induction k arbitrary: m c h)
  case (Suc k)
  obtain v h1 where r: "bus_read bus (sram_addr m) h = (v, h1)" by fastforce
  have "m < 256" using Suc.prems by simp
  note v = sram_read [OF this r] read_cells [OF r]
  have "(\<forall>j. m \<le> j \<and> j < m + Suc k \<longrightarrow> Q j) \<longleftrightarrow> Q m \<and> (\<forall>j. Suc m \<le> j \<and> j < Suc m + k \<longrightarrow> Q j)" for Q
    by (metis add_Suc_right add_Suc_shift le_SucI le_eq_less_or_eq less_add_Suc1 less_eq_Suc_le order_refl)
  then show ?case unfolding check_step using Suc.IH [of "Suc m" "c + 1" h1] Suc.prems by (simp add: r v)
qed auto

lemma check_cells: "cells (snd (snd (check_loop bus i k c h))) = cells h"
proof (induction k arbitrary: i c h)
  case (Suc k)
  then show ?case by (auto split: prod.splits dest: read_cells)
qed simp

text \<open>The verdict of the test over \<open>n\<close> words.\<close>

lemma verdict:
  assumes "n \<le> 256"
  shows "fst (check_from bus 0 n c (snd (fill_from bus 0 n c' h))) \<longleftrightarrow>
    inj_on decode {..<n} \<and> (\<forall>j<n. lines (sram_pattern (word_of_nat j)) = sram_pattern (word_of_nat j))"
    (is "?ok \<longleftrightarrow> ?inj \<and> ?lines")
proof -
  define h1 where "h1 = snd (fill_from bus 0 n c' h)"
  have ok: "?ok \<longleftrightarrow> (\<forall>j<n. lines (cells h1 (decode j)) = sram_pattern (word_of_nat j))"
    using check_exact [of 0 n c h1] assms by (simp add: h1_def)
  have ?inj if ?ok
  proof (rule inj_onI)
    fix i j assume ij: "i \<in> {..<n}" "j \<in> {..<n}" and d: "decode i = decode j"
    have "lines (cells h1 (decode i)) = sram_pattern (word_of_nat i)"
      "lines (cells h1 (decode j)) = sram_pattern (word_of_nat j)" using \<open>?ok\<close> ok ij by blast+
    then have "sram_pattern (word_of_nat i) = sram_pattern (word_of_nat j)" using d by simp
    then show "i = j" using ij assms by (intro pattern_inj) auto
  qed
  moreover have "cells h1 (decode j) = sram_pattern (word_of_nat j)" if ?inj "j < n" for j
    using fill_cells [of 0 n j c' h] that assms by (simp add: h1_def atLeast0LessThan)
  ultimately show ?thesis using ok by metis
qed

end

text \<open>
  C40: on a board whose faults are crossed or stuck address lines and a fixed distortion by the data lines,
  the self-test over at least one word passes exactly when the tested words are in different cells and every
  pattern it writes survives the data lines; otherwise it reports a mismatch. When it passes it has counted
  two accesses for each of the tested words, at most 256 of them.
\<close>

theorem selftest_exact:
  assumes "sram_chip bus cells decode lines" "words \<noteq> 0"
  shows "(let n = min (unat words) 256; r = FMC_SRAM_BringupSelfTest bus words (g, h) in
    if inj_on decode {..<n} \<and> (\<forall>j<n. lines (sram_pattern (word_of_nat j)) = sram_pattern (word_of_nat j))
    then fst r = FMC_SRAM_TEST_OK \<and> diag_snapshot_code (fst (snd r)) = 0 \<and>
         last_selftest_cycles (fst (snd r)) = word_of_nat (2 * n)
    else fst r = FMC_SRAM_TEST_ERR_MISMATCH \<and> diag_snapshot_code (fst (snd r)) = 2)"
proof -
  define n where "n = min (unat words) 256"
  have n: "n \<le> 256" "unat (if words > FMC_EXT_SRAM_WORDS_MAX then FMC_EXT_SRAM_WORDS_MAX else words) = n"
    by (auto simp: n_def FMC_EXT_SRAM_WORDS_MAX_def word_less_nat_alt)
  obtain c1 h1 where f: "fill_loop bus 0 n 0 h = (c1, h1)" by fastforce
  obtain ok c2 h2 where c: "check_loop bus 0 n c1 h1 = (ok, c2, h2)" by (cases "check_loop bus 0 n c1 h1") auto
  have "ok \<longleftrightarrow> inj_on decode {..<n} \<and> (\<forall>j<n. lines (sram_pattern (word_of_nat j)) = sram_pattern (word_of_nat j))"
    using sram_chip.verdict [OF assms(1) n(1), of c1 0 h] f c by (simp add: fill_from_def check_from_def)
  moreover have "ok \<Longrightarrow> c2 = word_of_nat (2 * n)"
    using check_cycles [of bus 0 n c1 h1 c2 h2] fill_cycles [of bus 0 n 0 h] f c by simp
  ultimately show ?thesis using assms(2)
    by (simp add: FMC_SRAM_BringupSelfTest_def n n_def [symmetric] f c Let_def)
qed

text \<open>The memory of the reference board.\<close>

definition sim_cells :: "sim \<Rightarrow> nat \<Rightarrow> u32" where
  "sim_cells h j = (if j < 256 then regs h (sram_addr j) else 0)"

lemma sram_addr_inj: "i < 256 \<Longrightarrow> j < 256 \<Longrightarrow> sram_addr i = sram_addr j \<longleftrightarrow> i = j"
proof
  assume "i < 256" "j < 256" "sram_addr i = sram_addr j"
  then have "0x68000000 + 4 * i = 0x68000000 + 4 * j" using unat_sram_addr by metis
  then show "i = j" by simp
qed simp

lemma sram_addr_registers: "j < 256 \<Longrightarrow> sram_addr j \<noteq> RCC_CR \<and> sram_addr j \<noteq> RCC_CFGR \<and> sram_addr j \<noteq> USART1_SR \<and>
    sram_addr j \<noteq> USART1_DR \<and> sram_addr j \<noteq> RCC_APB2ENR"
proof -
  assume "j < 256"
  then have "\<not> on_chip (sram_addr j)" by (rule sram_addr_off_chip)
  moreover have "on_chip RCC_CR" "on_chip RCC_CFGR" "on_chip USART1_SR" "on_chip USART1_DR" "on_chip RCC_APB2ENR"
    by (simp_all add: reg_simps RCC_APB2ENR_def)
  ultimately show ?thesis by metis
qed

interpretation sim: sram_chip sim_bus sim_cells "\<lambda>j. j" "\<lambda>v. v"
proof unfold_locales
  show "v = sim_cells h j" if "j < 256" "bus_read sim_bus (sram_addr j) h = (v, h')" for j h v h'
    using that sram_addr_registers [of j]
    by (auto simp: sim_bus_def sim_read_def sim_cells_def sim_ctl_def sim_ready_def ready_bits_def split: if_splits)
  show "sim_cells h' = sim_cells h" if "bus_read sim_bus a h = (v, h')" for a h v h'
    using that by (auto simp: sim_bus_def sim_read_def sim_cells_def split: if_splits)
  show "sim_cells (bus_write sim_bus (sram_addr j) v h) = (sim_cells h)(j := v)" if "j < 256" for j v h
    using that sram_addr_registers [of j] by (auto simp: sim_bus_def sim_write_def sim_cells_def sram_addr_inj)
  show "sim_cells (bus_write sim_bus a v h) = sim_cells h" if "on_chip a" for a v h
  proof -
    have "sram_addr j \<noteq> a" if "j < 256" for j using sram_addr_other [OF that \<open>on_chip a\<close>] by blast
    then show ?thesis by (auto simp: sim_bus_def sim_write_def sim_cells_def fun_eq_iff)
  qed
qed

theorem selftest_exact_witness:
  "fst (FMC_SRAM_BringupSelfTest sim_bus 128 (initial_hal, reset_board)) = FMC_SRAM_TEST_OK"
  using selftest_exact [OF sim.sram_chip_axioms, of 128 initial_hal reset_board] by (simp add: Let_def)

section \<open>The log of a boot\<close>

definition hex_text :: "u32 \<Rightarrow> string" where
  "hex_text v = map (\<lambda>i. hex_digit (drop_bit (i * 4) v AND 0xF)) [7, 6, 5, 4, 3, 2, 1, 0]"

definition boot_log :: "u32 \<Rightarrow> bool \<Rightarrow> string" where
  "boot_log code ok = ''[boot] stm32f429_min start'' @ crlf @ ''[diag] fmc_sram code=0x'' @ hex_text code @ crlf @
     (if ok then ''[diag] fmc_sram selftest OK'' else ''[diag] fmc_sram selftest FAIL'') @ crlf"

lemma uart_on_kept: "(\<And>a. a \<noteq> USART1_DR \<Longrightarrow> on_chip a \<Longrightarrow> r' a = r a) \<Longrightarrow> uart_on r' \<longleftrightarrow> uart_on r"
  by (simp add: uart_on_def RCC_APB2ENR_def uart_addresses on_chip_def)

context board_hardware
begin

lemma write_text:
  assumes "uart_on (ctl h)"
  obtains h' where "UART_LogWrite bus (Some s) h = Some h'" "sent_chars h' = sent_chars h @ s" "uart_on (ctl h')"
proof -
  from write_chars_sends [OF assms, of s] obtain h' where h': "write_chars bus s h = Some h'"
    "sent_chars h' = sent_chars h @ s" "\<forall>a. a \<noteq> USART1_DR \<longrightarrow> ctl h' a = ctl h a" by blast
  then have "uart_on (ctl h')" using assms uart_on_kept [of "ctl h'" "ctl h"] by simp
  then show thesis using that h' by (simp add: UART_LogWrite_def)
qed

lemma write_hex:
  assumes "uart_on (ctl h)"
  obtains h' where "UART_LogWriteHex bus v h = Some h'" "sent_chars h' = sent_chars h @ ''0x'' @ hex_text v" "uart_on (ctl h')"
proof -
  from write_text [OF assms, of "''0x''"] obtain h1 where h1: "UART_LogWrite bus (Some ''0x'') h = Some h1"
    "sent_chars h1 = sent_chars h @ ''0x''" "uart_on (ctl h1)" by blast
  from write_text [OF h1(3), of "hex_text v"] obtain h2 where "UART_LogWrite bus (Some (hex_text v)) h1 = Some h2"
    "sent_chars h2 = sent_chars h1 @ hex_text v" "uart_on (ctl h2)" by blast
  then have "UART_LogWriteHex bus v h = Some h2"
    unfolding UART_LogWriteHex_def hex_text_def [symmetric] h1(1) by (simp add: UART_LogWrite_def)
  then show thesis using that h1(2) \<open>sent_chars h2 = _\<close> \<open>uart_on (ctl h2)\<close> by simp
qed

lemma fill_keeps:
  "m + k \<le> 256 \<Longrightarrow> sent_chars (snd (fill_from bus m k c h)) = sent_chars h \<and>
     (on_chip a \<longrightarrow> ctl (snd (fill_from bus m k c h)) a = ctl h a)"
proof (induction k arbitrary: m c h)
  case (Suc k)
  have "m < 256" using Suc.prems by simp
  from sram_addr_registers [OF this] sram_addr_other [OF this, of a] Suc show ?case
    unfolding fill_step by (auto simp: write_sent write_other)
qed simp

lemma check_keeps:
  "sent_chars (snd (snd (check_loop bus i k c h))) = sent_chars h \<and> ctl (snd (snd (check_loop bus i k c h))) = ctl h"
proof (induction k arbitrary: i c h)
  case (Suc k)
  then show ?case by (auto split: prod.splits dest: read_keeps)
qed simp

lemma selftest_keeps:
  assumes "FMC_SRAM_BringupSelfTest bus words (g, h) = (r, g', h')"
  shows "sent_chars h' = sent_chars h \<and> (uart_on (ctl h') \<longleftrightarrow> uart_on (ctl h)) \<and> diag_snapshot_code g' = selftest_value r"
proof (cases "words = 0")
  case False
  define n where "n = unat (if words > FMC_EXT_SRAM_WORDS_MAX then FMC_EXT_SRAM_WORDS_MAX else words)"
  have n: "n \<le> 256" by (auto simp: n_def FMC_EXT_SRAM_WORDS_MAX_def word_less_nat_alt)
  obtain c1 h1 where f: "fill_loop bus 0 n 0 h = (c1, h1)" by fastforce
  obtain ok c2 h2 where c: "check_loop bus 0 n c1 h1 = (ok, c2, h2)" by (cases "check_loop bus 0 n c1 h1") auto
  have "h' = h2" "diag_snapshot_code g' = selftest_value r" using assms False
    by (auto simp: FMC_SRAM_BringupSelfTest_def n_def [symmetric] f c Let_def split: if_splits)
  moreover have "sent_chars h1 = sent_chars h" "\<And>a. on_chip a \<Longrightarrow> ctl h1 a = ctl h a"
    using fill_keeps [of 0 n 0 h] n f by (auto simp: fill_from_def)
  ultimately show ?thesis using check_keeps [of 0 n c1 h1] c uart_on_kept [of "ctl h1" "ctl h"] by simp
qed (use assms in \<open>auto simp: FMC_SRAM_BringupSelfTest_def\<close>)

end

context board_hardware
begin

text \<open>A boot with the port clocked, where \<open>h1\<close> is the hardware when the self-test starts.\<close>

lemma main_boot_runs:
  assumes "uart_on (ctl (hw b))"
  shows "\<exists>ok h1 b'. main_boot bus env b = Some (ok, b') \<and>
    (ok \<longleftrightarrow> fst (FMC_SRAM_BringupSelfTest bus 128 (HAL_Init (hal b), h1)) = FMC_SRAM_TEST_OK) \<and>
    sent_chars (hw b') = sent_chars (hw b) @ boot_log (diag_snapshot_code (hal b')) ok \<and>
    (ok \<longleftrightarrow> diag_snapshot_code (hal b') = 0) \<and>
    disk b' = snd (EmitSramBringupEvent (board_can_write env) (board_field_order env) (board_now_ms env)
      ''build/diagnostics_snapshots.jsonl'' 100
      \<lparr>event_code = diag_snapshot_code (hal b'), event_audit_summary = audit_summary (hal b')\<rparr> (disk b))"
proof -
  note wt = write_text
  have "uart_on (ctl (UART_LogInit bus (hw b)))" using assms by (simp add: LogInit_uart_on)
  from wt [OF this, of "''[boot] stm32f429_min start'' @ crlf"] obtain h1 where
    h1: "UART_LogWrite bus (Some (''[boot] stm32f429_min start'' @ crlf)) (UART_LogInit bus (hw b)) = Some h1"
    "sent_chars h1 = sent_chars (hw b) @ ''[boot] stm32f429_min start'' @ crlf" "uart_on (ctl h1)"
    using LogInit_keeps(2) by metis
  obtain r g h2 where t: "FMC_SRAM_BringupSelfTest bus 128 (HAL_Init (hal b), h1) = (r, g, h2)"
    by (cases "FMC_SRAM_BringupSelfTest bus 128 (HAL_Init (hal b), h1)") auto
  from selftest_keeps [OF t] h1
  have h2: "sent_chars h2 = sent_chars h1" "uart_on (ctl h2)" and code: "diag_snapshot_code g = selftest_value r" by auto
  from wt [OF h2(2), of "''[diag] fmc_sram code=''"] obtain h3 where
    h3: "UART_LogWrite bus (Some ''[diag] fmc_sram code='') h2 = Some h3"
    "sent_chars h3 = sent_chars h2 @ ''[diag] fmc_sram code=''" "uart_on (ctl h3)" by metis
  from write_hex [OF h3(3), of "diag_snapshot_code g"] obtain h4 where
    h4: "UART_LogWriteHex bus (diag_snapshot_code g) h3 = Some h4"
    "sent_chars h4 = sent_chars h3 @ ''0x'' @ hex_text (diag_snapshot_code g)" "uart_on (ctl h4)" by metis
  from wt [OF h4(3), of crlf] obtain h5 where
    h5: "UART_LogWrite bus (Some crlf) h4 = Some h5" "sent_chars h5 = sent_chars h4 @ crlf" "uart_on (ctl h5)" by metis
  define ok where "ok \<longleftrightarrow> r = FMC_SRAM_TEST_OK"
  define line where "line = (if ok then ''[diag] fmc_sram selftest OK'' else ''[diag] fmc_sram selftest FAIL'') @ crlf"
  from wt [OF h5(3), of line] obtain h6 where
    h6: "UART_LogWrite bus (Some line) h5 = Some h6" "sent_chars h6 = sent_chars h5 @ line" by metis
  have ok: "ok \<longleftrightarrow> diag_snapshot_code g = 0" "(r \<noteq> FMC_SRAM_TEST_OK \<or> diag_snapshot_code g \<noteq> 0) = (\<not> ok)"
    using code by (cases r; simp add: ok_def)+
  have "sent_chars (bus_write bus heartbeat_addr v h6) = sent_chars h6" for v
    using write_sent [of heartbeat_addr v h6]
    by (simp add: heartbeat_addr_def FMC_EXT_SRAM_BASE_def uart_addresses)
  moreover have "sent_chars h6 = sent_chars (hw b) @ boot_log (diag_snapshot_code g) ok"
    by (simp add: h6 h5 h4 h3 h2 h1 boot_log_def line_def)
  moreover have "main_boot bus env b = Some (ok, \<lparr>hal = g,
      hw = if ok then h6 else bus_write bus heartbeat_addr (0xEE000000 OR diag_snapshot_code g) h6,
      disk = snd (EmitSramBringupEvent (board_can_write env) (board_field_order env) (board_now_ms env)
        ''build/diagnostics_snapshots.jsonl'' 100
        \<lparr>event_code = diag_snapshot_code g, event_audit_summary = audit_summary g\<rparr> (disk b))\<rparr>)"
    using h6(1) by (cases ok) (simp_all only: main_boot_def h1(1) t h3(1) h4(1) h5(1) line_def ok(2) Option.bind.simps
        prod.case Let_def if_True if_False not_True_eq_False not_False_eq_True)
  ultimately show ?thesis using ok(1) t by (intro exI [of _ ok] exI [of _ h1]) (force simp: ok_def)
qed

end

text \<open>
  With the clock of the serial port on, the main program reaches one of its two loops, the counting one
  exactly when the self-test over 128 words passes, the diagnostics code then being zero; the log it has sent
  is the four lines with that code, and the disk has one more diagnostics record.
\<close>

theorem main_boot_log:
  assumes "board_hardware bus ctl delay sent_chars" "uart_on (ctl (hw b))"
  shows "\<exists>ok b'. main_boot bus env b = Some (ok, b') \<and>
    sent_chars (hw b') = sent_chars (hw b) @ boot_log (diag_snapshot_code (hal b')) ok \<and>
    (ok \<longleftrightarrow> diag_snapshot_code (hal b') = 0) \<and>
    disk b' = snd (EmitSramBringupEvent (board_can_write env) (board_field_order env) (board_now_ms env)
      ''build/diagnostics_snapshots.jsonl'' 100
      \<lparr>event_code = diag_snapshot_code (hal b'), event_audit_summary = audit_summary (hal b')\<rparr> (disk b))"
  using board_hardware.main_boot_runs [OF assms, of env] by blast

definition boot_env :: board_env where
  "boot_env = \<lparr>board_can_write = (\<lambda>_. True), board_field_order = rev, board_now_ms = 5\<rparr>"

definition clocked_board :: "sim board" where
  "clocked_board = \<lparr>hal = initial_hal, hw = reset_board\<lparr>regs := (\<lambda>_. 0)(RCC_APB2ENR := 0x10)\<rparr>, disk = Map.empty\<rparr>"

lemma clocked_board_on: "uart_on (sim_ctl (hw clocked_board))"
  by (simp add: clocked_board_def uart_on_def sim_ctl_def reg_simps RCC_APB2ENR_def)

theorem main_boot_log_witness:
  "uart_on (sim_ctl (hw clocked_board)) \<and> (\<exists>ok b'. main_boot sim_bus boot_env clocked_board = Some (ok, b') \<and>
     uart_out (hw b') = boot_log (diag_snapshot_code (hal b')) ok)"
  using main_boot_log [OF sim.board_hardware_axioms clocked_board_on, of boot_env] clocked_board_on
  by (auto simp: clocked_board_def reset_board_def)

text \<open>
  The program never enables the clock of the serial port, so on a board that comes out of reset with it
  off, as the chip does, the initialisation returns but the main program never gets past the first character
  of its first log line: no self-test runs and no heartbeat counts.
\<close>

theorem serial_log_hangs:
  assumes "board_hardware bus ctl delay sent_chars" "\<not> uart_on (ctl h)"
  shows "\<exists>h'. SystemInit bus h = Some h' \<and> main_boot bus env \<lparr>hal = g, hw = h', disk = fs\<rparr> = None"
proof -
  from board_hardware.SystemInit_registers [OF assms(1), of h] obtain h' where h': "SystemInit bus h = Some h'"
    and "ctl h' RCC_APB2ENR = ctl h RCC_APB2ENR"
    by (auto simp: clock_registers_def Let_def register_addresses RCC_APB2ENR_def)
  then have "\<not> uart_on (ctl h')" using assms(2) by (simp add: uart_on_def)
  then have "\<not> uart_on (ctl (UART_LogInit bus h'))" by (simp add: board_hardware.LogInit_uart_on [OF assms(1)])
  then have "UART_LogWrite bus (Some (''[boot] stm32f429_min start'' @ crlf)) (UART_LogInit bus h') = None"
    by (simp add: UART_LogWrite_def board_hardware.WriteChar_hangs [OF assms(1)])
  then have "main_boot bus env \<lparr>hal = g, hw = h', disk = fs\<rparr> = None" by (simp only: main_boot_def board.simps Option.bind.simps)
  then show ?thesis using h' by blast
qed

lemma reset_board_off: "\<not> uart_on (sim_ctl reset_board)"
  by (simp add: reset_board_def uart_on_def sim_ctl_def)

theorem serial_log_hangs_witness:
  "\<not> uart_on (sim_ctl reset_board) \<and> (\<exists>h'. SystemInit sim_bus reset_board = Some h' \<and>
     main_boot sim_bus boot_env \<lparr>hal = initial_hal, hw = h', disk = Map.empty\<rparr> = None)"
  using serial_log_hangs [OF sim.board_hardware_axioms reset_board_off] reset_board_off by blast

section \<open>The heartbeat\<close>

text \<open>What reads leave alone, a busy wait leaves alone.\<close>

lemma poll_keeps:
  assumes "poll bus a cont h = Some h'" "\<And>h v h'. bus_read bus a h = (v, h') \<Longrightarrow> f h' = f h"
  shows "f h' = f h"
proof -
  have "(\<forall>h v h'. bus_read bus a h = (v, h') \<longrightarrow> f h' = f h) \<longrightarrow> f h' = f h"
    using assms(1)
  proof (induction rule: poll.raw_induct [rotated 1, consumes 1, case_names step])
    case (step pl bus a cont h y)
    obtain v h1 where r: "bus_read bus a h = (v, h1)" by fastforce
    show ?case
    proof (cases "cont v")
      case True
      with step(2) r have "pl bus a cont h1 = Some y" by simp
      with step(1) r show ?thesis by metis
    next
      case False
      with step(2) r have "h1 = y" by simp
      with r show ?thesis by blast
    qed
  qed
  then show ?thesis using assms(2) by blast
qed

context sram_chip
begin

lemma write_chars_cells: "write_chars bus s h = Some h' \<Longrightarrow> cells h' = cells h"
proof (induction s arbitrary: h)
  case (Cons c s)
  then obtain h1 h2 where p: "poll bus USART1_SR (\<lambda>v. v AND 0x80 = 0) h = Some h1" and h2: "h2 = bus_write bus USART1_DR (of_char c) h1"
    and w: "write_chars bus s h2 = Some h'"
    by (auto simp: UART_LogWriteChar_def bind_eq_Some_conv)
  have "cells h1 = cells h" using p by (rule poll_keeps) (rule read_cells)
  moreover have "cells h2 = cells h1" unfolding h2 by (rule chip_write) (simp add: reg_simps)
  ultimately show ?case using Cons.IH [OF w] by simp
qed simp

lemma LogWrite_cells: "UART_LogWrite bus (Some s) h = Some h' \<Longrightarrow> cells h' = cells h"
  by (simp add: UART_LogWrite_def write_chars_cells)

lemma WriteHex_cells: "UART_LogWriteHex bus v h = Some h' \<Longrightarrow> cells h' = cells h"
  unfolding UART_LogWriteHex_def hex_text_def [symmetric] bind_eq_Some_conv
  by (auto simp del: write_chars.simps dest!: write_chars_cells LogWrite_cells)

lemma selftest_leaves_pattern:
  assumes "FMC_SRAM_BringupSelfTest bus 128 (g, h) = (FMC_SRAM_TEST_OK, g', h')"
  shows "cells h' (decode 0) = sram_pattern 0"
proof -
  obtain c1 h1 where f: "fill_loop bus 0 128 0 h = (c1, h1)" by fastforce
  obtain ok c2 h2 where c: "check_loop bus 0 128 c1 h1 = (ok, c2, h2)" by (cases "check_loop bus 0 128 c1 h1") auto
  have ok: ok "h' = h2" using assms
    by (auto simp: FMC_SRAM_BringupSelfTest_def FMC_EXT_SRAM_WORDS_MAX_def f c Let_def split: if_splits)
  then have "inj_on decode {..<128}"
    using verdict [of 128 c1 0 h] f c by (simp add: fill_from_def check_from_def)
  then have "cells h1 (decode 0) = sram_pattern 0"
    using fill_cells [of 0 128 0 0 h] f by (simp add: fill_from_def atLeast0LessThan)
  then show ?thesis using check_cells [of 0 128 c1 h1] c ok by simp
qed

lemma heartbeat_cells:
  assumes "lines = (\<lambda>v. v)"
  shows "cells (heartbeat_loop bus n h) (decode 0) = cells h (decode 0) + word_of_nat n"
proof (induction n arbitrary: h)
  case (Suc n)
  have a: "heartbeat_addr = sram_addr 0" by (simp add: heartbeat_addr_def sram_addr_def)
  obtain v h1 where r: "bus_read bus (sram_addr 0) h = (v, h1)" by fastforce
  have "v = cells h (decode 0)" using sram_read [OF _ r] assms by simp
  then show ?case using Suc [of "bus_write bus (sram_addr 0) (v + 1) h1"] r by (simp add: a sram_write)
qed simp

lemma selftest_passes:
  assumes "inj decode" "lines = (\<lambda>v. v)"
  shows "fst (FMC_SRAM_BringupSelfTest bus 128 (g, h)) = FMC_SRAM_TEST_OK"
proof -
  obtain c1 h1 where f: "fill_loop bus 0 128 0 h = (c1, h1)" by fastforce
  obtain ok c2 h2 where c: "check_loop bus 0 128 c1 h1 = (ok, c2, h2)" by (cases "check_loop bus 0 128 c1 h1") auto
  have "inj_on decode {..<128}" using assms(1) by (rule inj_on_subset) simp
  then have ok using verdict [of 128 c1 0 h] f c assms(2) by (simp add: fill_from_def check_from_def)
  then show ?thesis by (simp add: FMC_SRAM_BringupSelfTest_def FMC_EXT_SRAM_WORDS_MAX_def f c Let_def)
qed

end

text \<open>
  After a boot that passed the self-test, the heartbeat word counts one for each turn of the main loop,
  modulo 2 to the 32, from the first pattern of the self-test and not from the zero its declaration asks for:
  the variable is the first word of the memory under test.
\<close>

theorem heartbeat_start:
  assumes "sram_chip bus cells decode (\<lambda>v. v)" "main_boot bus env b = Some (True, b')"
  shows "cells (heartbeat_loop bus n (hw b')) (decode 0) = 0xA5A50000 + word_of_nat n"
proof -
  obtain h1 r g h2 h3 h4 h5 where t: "FMC_SRAM_BringupSelfTest bus 128 (HAL_Init (hal b), h1) = (r, g, h2)"
    and w: "UART_LogWrite bus (Some ''[diag] fmc_sram code='') h2 = Some h3"
      "UART_LogWriteHex bus (diag_snapshot_code g) h3 = Some h4" "UART_LogWrite bus (Some crlf) h4 = Some h5"
      "UART_LogWrite bus (Some (''[diag] fmc_sram selftest OK'' @ crlf)) h5 = Some (hw b')" and r: "r = FMC_SRAM_TEST_OK"
    using assms(2) unfolding main_boot_def Let_def bind_eq_Some_conv
    by (fastforce simp del: append_Cons append_Nil split: prod.splits if_splits simp: bind_eq_Some_conv)
  have "cells (hw b') = cells h2"
    using w sram_chip.LogWrite_cells [OF assms(1)] sram_chip.WriteHex_cells [OF assms(1)] by metis
  moreover have "cells h2 (decode 0) = sram_pattern 0"
    using sram_chip.selftest_leaves_pattern [OF assms(1)] t r by blast
  ultimately show ?thesis using sram_chip.heartbeat_cells [OF assms(1), of n "hw b'"] by (simp add: sram_pattern_def)
qed

lemma clocked_board_boots: "\<exists>b'. main_boot sim_bus boot_env clocked_board = Some (True, b')"
  using sim.main_boot_runs [OF clocked_board_on, of boot_env] sim.selftest_passes by auto

theorem heartbeat_start_witness:
  "\<exists>b'. main_boot sim_bus boot_env clocked_board = Some (True, b') \<and> sim_cells (heartbeat_loop sim_bus 3 (hw b')) 0 = 0xA5A50003"
  using clocked_board_boots heartbeat_start [OF sim.sram_chip_axioms, of boot_env clocked_board _ 3] by auto

end
