(* ===== verification/Board_Reset.thy ===== *)
theory Board_Reset
  imports Board_Correct
begin

text \<open>
  The memory image the reset handler of the board sets up before it initialises the chip: initialised data
  copied from flash, the rest zero.
\<close>

section \<open>Blocks of words\<close>

definition word_at :: "u32 \<Rightarrow> nat \<Rightarrow> u32" where
  "word_at b j = b + 4 * word_of_nat j"

lemma word_at_0 [simp]: "word_at b 0 = b"
  by (simp add: word_at_def)

lemma word_at_Suc: "word_at b (Suc j) = word_at (b + 4) j"
  by (simp add: word_at_def algebra_simps)

lemma unat_word_at: "unat b + 4 * j < 2 ^ 32 \<Longrightarrow> unat (word_at b j) = unat b + 4 * j"
  by (simp add: word_at_def unat_word_ariths unat_of_nat take_bit_eq_mod)

text \<open>
  What the linker script promises of its symbols: words aligned, data then zeroed words inside the 192 KiB of
  memory, the initial values inside flash.
\<close>

definition laid_out :: "sections \<Rightarrow> bool" where
  "laid_out s \<longleftrightarrow> 4 dvd unat (sec_edata s) - unat (sec_sdata s) \<and> 4 dvd unat (sec_ebss s) - unat (sec_sbss s) \<and>
     0x20000000 \<le> unat (sec_sdata s) \<and> unat (sec_sdata s) \<le> unat (sec_edata s) \<and>
     unat (sec_edata s) \<le> unat (sec_sbss s) \<and> unat (sec_sbss s) \<le> unat (sec_ebss s) \<and> unat (sec_ebss s) \<le> 0x20030000 \<and>
     unat (sec_etext s) + (unat (sec_edata s) - unat (sec_sdata s)) \<le> 0x20000000"

definition data_words :: "sections \<Rightarrow> nat" where
  "data_words s = (unat (sec_edata s) - unat (sec_sdata s)) div 4"

definition bss_words :: "sections \<Rightarrow> nat" where
  "bss_words s = (unat (sec_ebss s) - unat (sec_sbss s)) div 4"

lemma ram_plain:
  assumes "0x20000000 \<le> unat a" "unat a < 0x20030000"
  shows "writable a \<and> ready_bits a = 0 \<and> a \<noteq> USART1_DR"
proof -
  have "a \<noteq> RCC_CR" "a \<noteq> RCC_CFGR" "a \<noteq> USART1_DR" using assms by (auto simp: register_addresses uart_addresses)
  then show ?thesis using assms by (simp add: writable_def on_chip_def ready_bits_def word_le_nat_alt word_less_nat_alt)
qed

lemma flash_plain:
  assumes "unat a < 0x20000000"
  shows "on_chip a \<and> ready_bits a = 0 \<and> a \<notin> uart_registers"
proof -
  have "a \<noteq> RCC_CR" "a \<noteq> RCC_CFGR" "a \<notin> uart_registers" using assms by (auto simp: register_addresses uart_addresses uart_registers_def)
  then show ?thesis using assms by (simp add: on_chip_def ready_bits_def word_less_nat_alt)
qed

context board_hardware
begin

lemma copy_image:
  assumes "unat edata = unat dst + 4 * n" "0x20000000 \<le> unat dst" "unat edata \<le> 0x20030000" "unat src + 4 * n \<le> 0x20000000"
  shows "\<exists>h'. copy_loop bus src dst edata h = Some h' \<and> sent_chars h' = sent_chars h \<and>
    (\<forall>j<n. ctl h' (word_at dst j) = ctl h (word_at src j)) \<and> (\<forall>a. (\<forall>j<n. a \<noteq> word_at dst j) \<longrightarrow> ctl h' a = ctl h a)"
  using assms
proof (induction n arbitrary: src dst h)
  case 0
  then have "\<not> dst < edata" by (simp add: word_less_nat_alt)
  then show ?case by (subst copy_loop.simps) simp
next
  case (Suc n)
  obtain v h1 where r: "bus_read bus src h = (v, h1)" by fastforce
  have v: "v = ctl h src" using read_value [OF r] flash_plain [of src] Suc.prems by simp
  define h2 where "h2 = bus_write bus dst v h1"
  have plain: "writable dst \<and> ready_bits dst = 0 \<and> dst \<noteq> USART1_DR" using Suc.prems by (intro ram_plain) simp_all
  then have h2: "ctl h2 = (ctl h)(dst := v)" "sent_chars h2 = sent_chars h"
    using read_keeps [OF r] by (simp_all add: h2_def write_ctl write_sent)
  have u: "unat (dst + 4) = unat dst + 4" "unat (src + 4) = unat src + 4"
    using unat_word_at [of dst 1] unat_word_at [of src 1] Suc.prems by (simp_all add: word_at_def)
  have "\<exists>h'. copy_loop bus (src + 4) (dst + 4) edata h2 = Some h' \<and> sent_chars h' = sent_chars h2 \<and>
    (\<forall>j<n. ctl h' (word_at (dst + 4) j) = ctl h2 (word_at (src + 4) j)) \<and>
    (\<forall>a. (\<forall>j<n. a \<noteq> word_at (dst + 4) j) \<longrightarrow> ctl h' a = ctl h2 a)"
    using Suc.prems u by (intro Suc.IH) simp_all
  then obtain h' where h': "copy_loop bus (src + 4) (dst + 4) edata h2 = Some h'" "sent_chars h' = sent_chars h2"
    "\<And>j. j < n \<Longrightarrow> ctl h' (word_at dst (Suc j)) = ctl h2 (word_at src (Suc j))"
    "\<And>a. (\<And>j. j < n \<Longrightarrow> a \<noteq> word_at dst (Suc j)) \<Longrightarrow> ctl h' a = ctl h2 a" by (auto simp: word_at_Suc)
  have ne: "word_at dst (Suc j) \<noteq> dst" "word_at src (Suc j) \<noteq> dst" if "j < n" for j
    using unat_word_at [of dst "Suc j"] unat_word_at [of src "Suc j"] Suc.prems that by auto
  have "ctl h' dst = ctl h2 dst" using h'(4) [of dst] ne by metis
  with ne have "ctl h' (word_at dst j) = ctl h (word_at src j)" if "j < Suc n" for j
    using that h'(3) h2 v by (cases j) auto
  moreover have "ctl h' a = ctl h a" if "\<And>j. j < Suc n \<Longrightarrow> a \<noteq> word_at dst j" for a
    using h'(4) [of a] that [of 0] that [of "Suc _"] h2 by simp
  moreover have "dst < edata" using Suc.prems by (simp add: word_less_nat_alt)
  ultimately show ?case using h' h2 r by (subst copy_loop.simps) (simp add: h2_def)
qed

lemma zero_image:
  assumes "unat ebss = unat dst + 4 * n" "0x20000000 \<le> unat dst" "unat ebss \<le> 0x20030000"
  shows "\<exists>h'. zero_loop bus dst ebss h = Some h' \<and> sent_chars h' = sent_chars h \<and>
    (\<forall>j<n. ctl h' (word_at dst j) = 0) \<and> (\<forall>a. (\<forall>j<n. a \<noteq> word_at dst j) \<longrightarrow> ctl h' a = ctl h a)"
  using assms
proof (induction n arbitrary: dst h)
  case 0
  then have "\<not> dst < ebss" by (simp add: word_less_nat_alt)
  then show ?case by (subst zero_loop.simps) simp
next
  case (Suc n)
  define h2 where "h2 = bus_write bus dst 0 h"
  have "writable dst \<and> ready_bits dst = 0 \<and> dst \<noteq> USART1_DR" using Suc.prems by (intro ram_plain) simp_all
  then have h2: "ctl h2 = (ctl h)(dst := 0)" "sent_chars h2 = sent_chars h"
    by (simp_all add: h2_def write_ctl write_sent)
  have "unat (dst + 4) = unat dst + 4" using unat_word_at [of dst 1] Suc.prems by (simp add: word_at_def)
  then have "\<exists>h'. zero_loop bus (dst + 4) ebss h2 = Some h' \<and> sent_chars h' = sent_chars h2 \<and>
    (\<forall>j<n. ctl h' (word_at (dst + 4) j) = 0) \<and> (\<forall>a. (\<forall>j<n. a \<noteq> word_at (dst + 4) j) \<longrightarrow> ctl h' a = ctl h2 a)"
    using Suc.prems by (intro Suc.IH) simp_all
  then obtain h' where h': "zero_loop bus (dst + 4) ebss h2 = Some h'" "sent_chars h' = sent_chars h2"
    "\<And>j. j < n \<Longrightarrow> ctl h' (word_at dst (Suc j)) = 0"
    "\<And>a. (\<And>j. j < n \<Longrightarrow> a \<noteq> word_at dst (Suc j)) \<Longrightarrow> ctl h' a = ctl h2 a" by (auto simp: word_at_Suc)
  have ne: "word_at dst (Suc j) \<noteq> dst" if "j < n" for j
    using unat_word_at [of dst "Suc j"] Suc.prems that by auto
  have "ctl h' dst = ctl h2 dst" using h'(4) [of dst] ne by metis
  then have "ctl h' (word_at dst j) = 0" if "j < Suc n" for j
    using that h'(3) h2 by (cases j) auto
  moreover have "ctl h' a = ctl h a" if "\<And>j. j < Suc n \<Longrightarrow> a \<noteq> word_at dst j" for a
    using h'(4) [of a] that [of 0] that [of "Suc _"] h2 by simp
  moreover have "dst < ebss" using Suc.prems by (simp add: word_less_nat_alt)
  ultimately show ?case using h' h2 by (subst zero_loop.simps) (simp add: h2_def)
qed

end

section \<open>The image\<close>

lemma init_registers_outside: "a \<in> init_registers \<Longrightarrow> 0x20030000 \<le> unat a"
  by (auto simp: init_registers_def register_addresses)

lemma SystemInit_elsewhere:
  assumes "board_hardware bus ctl delay sent_chars"
  shows "\<exists>h'. SystemInit bus h = Some h' \<and> sent_chars h' = sent_chars h \<and> (\<forall>a. a \<notin> init_registers \<longrightarrow> ctl h' a = ctl h a)"
  using board_hardware.SystemInit_registers [OF assms, of h]
  by (auto simp: init_registers_def clock_registers_def Let_def)


definition small_image :: sections where
  "small_image = \<lparr>sec_etext = 0x08000400, sec_sdata = 0x20000000, sec_edata = 0x20000008, sec_sbss = 0x20000008,
     sec_ebss = 0x20000010\<rparr>"

definition flashed_board :: sim where
  "flashed_board = \<lparr>regs = (\<lambda>a. if a = 0x08000404 then 7 else 0x55), lag = 3, uart_out = []\<rparr>"

lemma small_image_ok: "laid_out small_image" "data_words small_image = 2" "bss_words small_image = 2"
  by (simp_all add: laid_out_def data_words_def bss_words_def small_image_def)


end
