(* ===== verification/Benchmark.thy ===== *)
theory Benchmark
  imports Complex_Main Bridge_Lifecycle Logging
begin

text \<open>
  \<^verbatim>\<open>demo/interconnect_benchmark_driver.cpp\<close>: the program that loads a bridge in both directions and reports
  latencies and failures. The bridge with its worker threads, the clocks and the sleep are a parameter,
  functions on a state of the world in which anything may happen between two calls. Floating-point results
  are exact rationals.
\<close>

section \<open>The world of the driver\<close>

text \<open>Times of the steady clock are in nanoseconds; a start that does not return is \<open>None\<close>.\<close>

record 'w bench_world =
  steady_now :: "'w \<Rightarrow> int \<times> 'w"
  unix_now_ms :: "'w \<Rightarrow> u64 \<times> 'w"
  sleep_ms :: "int \<Rightarrow> 'w \<Rightarrow> 'w"
  set_log :: "(Logger \<Rightarrow> Logger) \<Rightarrow> 'w \<Rightarrow> 'w"
  register_counters :: "'w \<Rightarrow> 'w"
  start_bridge :: "BridgeConfig \<Rightarrow> 'w \<Rightarrow> (ErrorCode \<times> 'w) option"
  stop_bridge :: "'w \<Rightarrow> 'w"
  publish_vehicle :: "MessageEnvelope \<Rightarrow> 'w \<Rightarrow> ErrorCode \<times> 'w"
  publish_robot :: "MessageEnvelope \<Rightarrow> 'w \<Rightarrow> ErrorCode \<times> 'w"
  load_v2r :: "'w \<Rightarrow> u64 \<times> 'w"
  load_r2v :: "'w \<Rightarrow> u64 \<times> 'w"

text \<open>\<^verbatim>\<open>duration_cast\<close> to a coarser unit rounds towards zero.\<close>

definition duration_cast :: "int \<Rightarrow> int \<Rightarrow> int" where
  "duration_cast u d = (if d < 0 then - (- d div u) else d div u)"

section \<open>Arguments\<close>

record bench_args =
  message_count :: u64
  payload_size :: u64
  duration_sec :: u64
  burst_qps :: u64
  fault_mode :: string

definition default_args :: bench_args where
  "default_args = \<lparr>message_count = 1000, payload_size = 256, duration_sec = 0, burst_qps = 1000, fault_mode = ''none''\<rparr>"

text \<open>\<open>None\<close> is an exception of \<^verbatim>\<open>std::stoull\<close>, which ends the program.\<close>

definition parse_arg :: "string \<Rightarrow> bench_args \<Rightarrow> bench_args option" where
  "parse_arg arg a =
     (if prefix ''--duration_sec='' arg then map_option (\<lambda>v. a\<lparr>duration_sec := v\<rparr>) (stoull (drop 15 arg))
      else if prefix ''--burst_qps='' arg then map_option (\<lambda>v. a\<lparr>burst_qps := v\<rparr>) (stoull (drop 12 arg))
      else if prefix ''--fault_mode='' arg then Some (a\<lparr>fault_mode := drop 13 arg\<rparr>)
      else if prefix ''--message_count='' arg then map_option (\<lambda>v. a\<lparr>message_count := v\<rparr>) (stoull (drop 16 arg))
      else if prefix ''--payload_size='' arg then map_option (\<lambda>v. a\<lparr>payload_size := v\<rparr>) (stoull (drop 15 arg))
      else Some a)"

fun parse_args :: "string list \<Rightarrow> bench_args \<Rightarrow> bench_args option" where
  "parse_args [] a = Some a"
| "parse_args (arg # argv) a = (case parse_arg arg a of None \<Rightarrow> None | Some a' \<Rightarrow> parse_args argv a')"

definition effective_qps :: "bench_args \<Rightarrow> bench_args" where
  "effective_qps a = (if burst_qps a = 0 then a\<lparr>burst_qps := 1\<rparr> else a)"

definition publish_gap :: "bench_args \<Rightarrow> int" where
  "publish_gap a = uint (1000 div burst_qps a)"

section \<open>Set-up\<close>

definition bench_policy :: "BridgeSlaPolicy \<Rightarrow> BridgeSlaPolicy" where
  "bench_policy p = p\<lparr>max_end_to_end_latency_ms := 200, transport_receive_timeout_ms := 20, transport_send_timeout_ms := 20,
     backpressure_policy := bp_kReject\<rparr>"

definition bench_config :: BridgeConfig where
  "bench_config =
     (let c = default_BridgeConfig;
          p = bench_policy (sla_policy c)
      in c\<lparr>vehicle_to_robot_endpoint := (vehicle_to_robot_endpoint c)\<lparr>name := ''/vr_bench_v2r'', max_messages := 64, message_size := 2048\<rparr>,
           robot_to_vehicle_endpoint := (robot_to_vehicle_endpoint c)\<lparr>name := ''/vr_bench_r2v'', max_messages := 64, message_size := 2048\<rparr>,
           thread_pool := (thread_pool c)\<lparr>worker_count := 2, queue_capacity := 64\<rparr>,
           sla_policy := p, policy_table := (policy_table c)\<lparr>default_policy := p\<rparr>\<rparr>)"

definition bench_log :: "Logger \<Rightarrow> Logger" where
  "bench_log l = SetDefaultContext ''bench'' ''interconnect_driver'' (EnableConsole True (SetMinLevel kInfo l))"

definition MakePayload :: "u64 \<Rightarrow> string" where
  "MakePayload n = replicate (unat n) (CHR ''x'')"

definition PopulateEnvelope :: "MessageEnvelope \<Rightarrow> string \<Rightarrow> string \<Rightarrow> string \<Rightarrow> u64 \<Rightarrow> u64 \<Rightarrow> string \<Rightarrow> MessageEnvelope" where
  "PopulateEnvelope envelope src tgt tpc seq now text =
     envelope\<lparr>source := src, target := tgt, topic := tpc, channel := kTelemetry, qos := kBestEffort, sequence := seq,
       timestamp_ms := now, ttl_ms := 2000, trace_id := ''bench_'' @ show_nat (unat seq), payload := text\<rparr>"

section \<open>The load loop\<close>

record bench_acc =
  latencies_ms :: "u64 list"
  send_fail_count :: u64
  sent_total :: u64

definition injected_fault :: "string \<Rightarrow> u64 \<Rightarrow> bool" where
  "injected_fault mode i \<longleftrightarrow> mode = ''drop'' \<and> i mod 10 = 0 \<or> mode = ''timeout'' \<and> i mod 12 = 0 \<or> mode = ''reorder'' \<and> i mod 15 = 0"

definition count_if :: "bool \<Rightarrow> u64 \<Rightarrow> u64" where
  "count_if b n = (if b then n + 1 else n)"

definition bench_round :: "'w bench_world \<Rightarrow> bench_args \<Rightarrow> string \<Rightarrow> u64 \<Rightarrow> bench_acc \<Rightarrow> 'w \<Rightarrow> bench_acc \<times> 'w" where
  "bench_round env a text i acc w0 =
     (case steady_now env w0 of (before, w1) \<Rightarrow>
      case unix_now_ms env w1 of (now1, w2) \<Rightarrow>
      case publish_vehicle env (PopulateEnvelope default_envelope ''vehicle'' ''robot'' ''bench.vehicle'' i now1 text) w2 of (ec1, w3) \<Rightarrow>
      case unix_now_ms env w3 of (now2, w4) \<Rightarrow>
      case publish_robot env (PopulateEnvelope default_envelope ''robot'' ''vehicle'' ''bench.robot'' i now2 text) w4 of (ec2, w5) \<Rightarrow>
      case steady_now env w5 of (after, w6) \<Rightarrow>
        let latency = duration_cast 1000000 (after - before);
            fails = count_if (injected_fault (fault_mode a) i)
                      (count_if (ec2 \<noteq> kOk) (count_if (ec1 \<noteq> kOk) (send_fail_count acc)));
            w7 = (if fault_mode a = ''timeout'' \<and> i mod 12 = 0 then sleep_ms env 5 w6 else w6)
        in (\<lparr>latencies_ms = latencies_ms acc @ [word_of_int (max 0 latency)], send_fail_count = fails,
             sent_total = sent_total acc + 2\<rparr>, sleep_ms env (publish_gap a) w7))"

text \<open>The test of the duration: the result tells whether the loop ends.\<close>

definition out_of_time :: "'w bench_world \<Rightarrow> bench_args \<Rightarrow> int \<Rightarrow> 'w \<Rightarrow> bool \<times> 'w" where
  "out_of_time env a start_ts w =
     (if duration_sec a > 0
      then (case steady_now env w of (now, w') \<Rightarrow> (duration_cast 1000000000 (now - start_ts) \<ge> sint (duration_sec a), w'))
      else (False, w))"

text \<open>\<open>k\<close> rounds are left, the next is number \<open>i\<close>.\<close>

fun bench_loop :: "'w bench_world \<Rightarrow> bench_args \<Rightarrow> string \<Rightarrow> int \<Rightarrow> nat \<Rightarrow> u64 \<Rightarrow> bench_acc \<Rightarrow> 'w \<Rightarrow> bench_acc \<times> 'w" where
  "bench_loop env a text start_ts 0 i acc w = (acc, w)"
| "bench_loop env a text start_ts (Suc k) i acc w =
     (case out_of_time env a start_ts w of (stop, w1) \<Rightarrow>
        if stop then (acc, w1)
        else case bench_round env a text i acc w1 of (acc', w2) \<Rightarrow> bench_loop env a text start_ts k (i + 1) acc' w2)"

text \<open>\<open>None\<close> is a wait without end.\<close>

partial_function (option) wait_received :: "'w bench_world \<Rightarrow> u64 \<Rightarrow> int \<Rightarrow> 'w \<Rightarrow> 'w option" where
  [code]: "wait_received env expected wait_deadline w0 =
     (case steady_now env w0 of (now, w1) \<Rightarrow>
        if now < wait_deadline
        then (case load_v2r env w1 of (v, w2) \<Rightarrow>
               case (if v \<ge> expected then load_r2v env w2 else (0, w2)) of (r, w3) \<Rightarrow>
                 if v \<ge> expected \<and> r \<ge> expected then Some w3
                 else wait_received env expected wait_deadline (sleep_ms env 10 w3))
        else Some w1)"

section \<open>The report\<close>

record bench_report =
  elapsed_ms :: int
  v2r_received :: u64
  r2v_received :: u64
  rep_fail_count :: u64
  error_rate :: rat
  recovery_ms :: u64
  latency_p95 :: u64
  latency_p99 :: u64
  fault_assertion_pass :: bool
  throughput :: rat

definition percentile_index :: "u64 \<Rightarrow> u64 list \<Rightarrow> nat" where
  "percentile_index p xs = unat ((word_of_nat (length xs) * p) div 100)"

definition percentile :: "u64 \<Rightarrow> u64 list \<Rightarrow> u64" where
  "percentile p xs = (if xs = [] then 0 else sort xs ! percentile_index p xs)"

definition assertion_pass :: "string \<Rightarrow> u64 \<Rightarrow> bool" where
  "assertion_pass mode fails \<longleftrightarrow> mode = ''none'' \<or> (mode = ''drop'' \<or> mode = ''timeout'' \<or> mode = ''reorder'') \<and> fails > 0"

definition make_report :: "bench_args \<Rightarrow> bench_acc \<Rightarrow> int \<Rightarrow> u64 \<Rightarrow> u64 \<Rightarrow> u64 \<Rightarrow> bench_report" where
  "make_report a acc ms all_received v r =
     (let rate = (if sent_total acc > 0 then rat_of_int (uint (send_fail_count acc)) / rat_of_int (uint (sent_total acc)) else 0)
      in \<lparr>elapsed_ms = ms, v2r_received = v, r2v_received = r, rep_fail_count = send_fail_count acc, error_rate = rate,
          recovery_ms = (if rate > 0 then 200 else 0), latency_p95 = percentile 95 (latencies_ms acc),
          latency_p99 = percentile 99 (latencies_ms acc), fault_assertion_pass = assertion_pass (fault_mode a) (send_fail_count acc),
          throughput = (if ms > 0 then rat_of_int (uint all_received) * 1000 / rat_of_int ms else 0)\<rparr>)"

text \<open>
  The exit status of \<^verbatim>\<open>main\<close> with the report it prints, if it gets there; the whole is \<open>None\<close> when it does not end.
\<close>

datatype bench_end = BenchThrows | BenchReturns int "bench_report option"

definition bench_main :: "'w bench_world \<Rightarrow> string list \<Rightarrow> 'w \<Rightarrow> (bench_end \<times> 'w) option" where
  "bench_main env argv w0 =
     (let w1 = set_log env bench_log w0 in
      case parse_args argv default_args of
        None \<Rightarrow> Some (BenchThrows, w1)
      | Some a0 \<Rightarrow>
          let a = effective_qps a0; w2 = register_counters env w1 in
          case start_bridge env bench_config w2 of
            None \<Rightarrow> None
          | Some (start_ec, w3) \<Rightarrow>
            if start_ec \<noteq> kOk then Some (BenchReturns 1 None, w3)
            else
              case steady_now env w3 of (start_ts, w4) \<Rightarrow>
              case bench_loop env a (MakePayload (payload_size a)) start_ts (unat (message_count a)) 0
                     \<lparr>latencies_ms = [], send_fail_count = 0, sent_total = 0\<rparr> w4 of (acc, w5) \<Rightarrow>
              case steady_now env w5 of (t, w6) \<Rightarrow>
              case wait_received env (message_count a) (t + 5000000000) w6 of
                None \<Rightarrow> None
              | Some w7 \<Rightarrow>
                  case steady_now env w7 of (end_ts, w8) \<Rightarrow>
                  case load_v2r env w8 of (v, w9) \<Rightarrow>
                  case load_r2v env w9 of (r, w10) \<Rightarrow>
                  case load_v2r env w10 of (v', w11) \<Rightarrow>
                  case load_r2v env w11 of (r', w12) \<Rightarrow>
                    Some (BenchReturns 0 (Some (make_report a acc (duration_cast 1000000 (end_ts - start_ts)) (v + r) v' r')),
                          stop_bridge env w12))"

section \<open>Percentiles\<close>

lemma percentile_index_exact:
  assumes "p < 100" "length xs * 100 < 2 ^ 64"
  shows "percentile_index p xs = length xs * unat p div 100"
proof -
  have p: "unat p < 100" using assms(1) by (simp add: word_less_nat_alt)
  then have "length xs * unat p \<le> length xs * 100" by simp
  then have "length xs * unat p < 2 ^ 64" "length xs < 2 ^ 64" using assms(2) by linarith+
  then show ?thesis by (simp add: percentile_index_def unat_div unat_word_ariths unat_of_nat take_bit_nat_eq_self)
qed

lemma sorted_filter_le:
  assumes "sorted ys" "k < length ys"
  shows "k < length (filter (\<lambda>x. x \<le> ys ! k) ys) \<and> length (filter (\<lambda>x. x < ys ! k) ys) \<le> k"
proof
  have split: "ys = take (Suc k) ys @ drop (Suc k) ys" by simp
  have "\<forall>x \<in> set (take (Suc k) ys). x \<le> ys ! k"
    using assms by (auto simp: in_set_conv_nth less_Suc_eq_le intro!: sorted_nth_mono)
  then have "filter (\<lambda>x. x \<le> ys ! k) (take (Suc k) ys) = take (Suc k) ys" by (simp add: filter_id_conv)
  then have "filter (\<lambda>x. x \<le> ys ! k) ys = take (Suc k) ys @ filter (\<lambda>x. x \<le> ys ! k) (drop (Suc k) ys)"
    by (metis filter_append split)
  then show "k < length (filter (\<lambda>x. x \<le> ys ! k) ys)" using assms(2) by simp
  have "\<forall>x \<in> set (drop k ys). \<not> x < ys ! k"
    using assms by (auto simp: in_set_conv_nth not_less intro!: sorted_nth_mono)
  then have "filter (\<lambda>x. x < ys ! k) (drop k ys) = []" by (simp add: filter_empty_conv)
  then have "filter (\<lambda>x. x < ys ! k) ys = filter (\<lambda>x. x < ys ! k) (take k ys)"
    by (metis append_Nil2 append_take_drop_id filter_append)
  then show "length (filter (\<lambda>x. x < ys ! k) ys) \<le> k"
    by (metis length_filter_le length_take min.bounded_iff)
qed

lemma length_filter_sort: "length (filter P (sort xs)) = length (filter P xs)"
  by (metis mset_filter mset_sort size_mset)

text \<open>
  The percentile of a report is read inside the list of latencies and is one of them: more than the given
  share of the latencies are at most it, and no more than that share are below it.
\<close>

theorem percentile_correct:
  assumes "xs \<noteq> []" "p < 100" "length xs * 100 < 2 ^ 64"
  shows "percentile_index p xs < length xs \<and> percentile p xs \<in> set xs \<and>
    unat p * length xs < 100 * length (filter (\<lambda>x. x \<le> percentile p xs) xs) \<and>
    100 * length (filter (\<lambda>x. x < percentile p xs) xs) \<le> unat p * length xs"
proof -
  define k where "k = length xs * unat p div 100"
  have p: "unat p < 100" using assms(2) by (simp add: word_less_nat_alt)
  have i: "percentile_index p xs = k" using percentile_index_exact assms(2,3) by (simp add: k_def)
  have "length xs * unat p < length xs * 100" using assms(1) p by simp
  then have k: "k < length xs" by (simp add: k_def div_less_iff_less_mult)
  then have v: "percentile p xs = sort xs ! k" by (simp add: percentile_def i assms(1))
  have "k < length (filter (\<lambda>x. x \<le> percentile p xs) xs)" "length (filter (\<lambda>x. x < percentile p xs) xs) \<le> k"
    using sorted_filter_le [of "sort xs" k] k by (simp_all add: v length_filter_sort)
  moreover have "unat p * length xs < 100 * Suc k" "100 * k \<le> unat p * length xs"
    using dividend_less_div_times [of 100 "length xs * unat p"] by (simp_all add: k_def mult.commute)
  moreover have "sort xs ! k \<in> set xs" using k nth_mem [of k "sort xs"] by simp
  ultimately show ?thesis using i k v by simp
qed

theorem percentile_correct_witness:
  "percentile 95 [3, 9, 1, 7] \<in> set [3, 9, 1, 7 :: u64]"
  using percentile_correct [of "[3, 9, 1, 7]" 95] by simp

section \<open>Counting\<close>

lemma count_if_adds: "\<exists>d. d \<le> 1 \<and> count_if b n = n + word_of_nat d \<and> (b \<longrightarrow> d = 1)"
  by (rule exI [of _ "of_bool b"]) (simp add: count_if_def)

lemma bench_round_acc:
  assumes "bench_round env a text i acc w = (acc', w')"
  shows "\<exists>d \<le> 3. length (latencies_ms acc') = Suc (length (latencies_ms acc)) \<and> sent_total acc' = sent_total acc + 2 \<and>
    send_fail_count acc' = send_fail_count acc + word_of_nat d \<and> (injected_fault (fault_mode a) i \<longrightarrow> 1 \<le> d)"
proof -
  obtain ec1 ec2 :: ErrorCode where l: "length (latencies_ms acc') = Suc (length (latencies_ms acc))"
      "sent_total acc' = sent_total acc + 2"
    and f: "send_fail_count acc' = count_if (injected_fault (fault_mode a) i)
        (count_if (ec2 \<noteq> kOk) (count_if (ec1 \<noteq> kOk) (send_fail_count acc)))"
    using assms by (auto simp: bench_round_def Let_def split: prod.splits)
  obtain d1 where d1: "d1 \<le> 1" "count_if (ec1 \<noteq> kOk) (send_fail_count acc) = send_fail_count acc + word_of_nat d1"
    using count_if_adds by blast
  obtain d2 where d2: "d2 \<le> 1" "count_if (ec2 \<noteq> kOk) (send_fail_count acc + word_of_nat d1) =
      send_fail_count acc + word_of_nat d1 + word_of_nat d2" using count_if_adds by blast
  obtain d3 where d3: "d3 \<le> 1" "injected_fault (fault_mode a) i \<longrightarrow> d3 = 1"
      "send_fail_count acc' = send_fail_count acc + word_of_nat d1 + word_of_nat d2 + word_of_nat d3"
    unfolding f d1 d2 using count_if_adds by blast
  show ?thesis by (rule exI [of _ "d1 + d2 + d3"]) (use l d1(1) d2(1) d3 in auto)
qed

lemma bench_loop_acc:
  "bench_loop env a text ts k i acc w = (acc', w') \<Longrightarrow>
     \<exists>r d. r \<le> k \<and> d \<le> 3 * r \<and> length (latencies_ms acc') = length (latencies_ms acc) + r \<and>
       sent_total acc' = sent_total acc + word_of_nat (2 * r) \<and> send_fail_count acc' = send_fail_count acc + word_of_nat d \<and>
       (duration_sec a = 0 \<longrightarrow> r = k) \<and> (0 < r \<and> injected_fault (fault_mode a) i \<longrightarrow> 1 \<le> d)"
proof (induction k arbitrary: i acc w)
  case (Suc k)
  obtain stop w1 where o: "out_of_time env a ts w = (stop, w1)" by fastforce
  obtain acc1 w2 where b: "bench_round env a text i acc w1 = (acc1, w2)" by fastforce
  show ?case
  proof (cases stop)
    case True
    then have "acc' = acc" "duration_sec a \<noteq> 0" using Suc.prems o by (auto simp: out_of_time_def split: if_splits)
    then show ?thesis by (intro exI [of _ 0]) simp
  next
    case False
    then have "bench_loop env a text ts k (i + 1) acc1 w2 = (acc', w')" using Suc.prems o b by simp
    from Suc.IH [OF this] obtain r d where rd: "r \<le> k" "d \<le> 3 * r" "length (latencies_ms acc') = length (latencies_ms acc1) + r"
        "sent_total acc' = sent_total acc1 + word_of_nat (2 * r)" "send_fail_count acc' = send_fail_count acc1 + word_of_nat d"
        "duration_sec a = 0 \<longrightarrow> r = k" by blast
    from bench_round_acc [OF b] obtain e where e: "e \<le> 3" "length (latencies_ms acc1) = Suc (length (latencies_ms acc))"
        "sent_total acc1 = sent_total acc + 2" "send_fail_count acc1 = send_fail_count acc + word_of_nat e"
        "injected_fault (fault_mode a) i \<longrightarrow> 1 \<le> e" by blast
    show ?thesis
      by (rule exI [of _ "Suc r"], rule exI [of _ "e + d"]) (use rd e in \<open>auto simp: algebra_simps\<close>)
  qed
qed simp

text \<open>What a run that prints a report has counted.\<close>

lemma bench_main_counts:
  assumes "parse_args argv default_args = Some a" "bench_main env argv w = Some (BenchReturns c (Some rep), w')"
  shows "\<exists>r d acc ms all_rx v2r r2v. rep = make_report (effective_qps a) acc ms all_rx v2r r2v \<and> r \<le> unat (message_count a) \<and> d \<le> 3 * r \<and>
    length (latencies_ms acc) = r \<and> sent_total acc = word_of_nat (2 * r) \<and> send_fail_count acc = word_of_nat d \<and>
    (duration_sec a = 0 \<longrightarrow> r = unat (message_count a)) \<and> (0 < r \<and> injected_fault (fault_mode a) 0 \<longrightarrow> 1 \<le> d)"
proof -
  have e: "message_count (effective_qps a) = message_count a" "duration_sec (effective_qps a) = duration_sec a"
      "fault_mode (effective_qps a) = fault_mode a" by (simp_all add: effective_qps_def)
  obtain body ts w4 acc w5 ms all_rx v2r r2v where
    l: "bench_loop env (effective_qps a) body ts (unat (message_count a)) 0 \<lparr>latencies_ms = [], send_fail_count = 0, sent_total = 0\<rparr> w4 = (acc, w5)"
    and rep: "rep = make_report (effective_qps a) acc ms all_rx v2r r2v"
    using assms by (auto simp: bench_main_def Let_def e split: option.splits prod.splits if_splits)
  from bench_loop_acc [OF l] obtain r d where "r \<le> unat (message_count a)" "d \<le> 3 * r" "length (latencies_ms acc) = r"
    "sent_total acc = word_of_nat (2 * r)" "send_fail_count acc = word_of_nat d"
    "duration_sec a = 0 \<longrightarrow> r = unat (message_count a)" "0 < r \<and> injected_fault (fault_mode a) 0 \<longrightarrow> 1 \<le> d"
    by (auto simp: e)
  with rep show ?thesis by blast
qed

lemma rate_bounds:
  assumes "0 < n" "1 \<le> d" "d \<le> 3 * n"
  shows "0 < rat_of_int (int d) / rat_of_int (int (2 * n)) \<and> rat_of_int (int d) / rat_of_int (int (2 * n)) \<le> 3 / 2"
proof -
  have "rat_of_nat d \<le> rat_of_nat (3 * n)" using assms(3) by (simp only: of_nat_le_iff)
  then show ?thesis using assms(1,2) by (simp add: divide_simps)
qed

text \<open>
  The fault assertion of a benchmark cannot fail. In every fault mode, with no limit on the duration, a run
  that prints a report passes its assertion whatever the bridge did with the messages, because the driver
  counts the failures it pretends to inject; the error rate it prints may be as high as three halves.
\<close>

theorem fault_assertion_vacuous:
  assumes "parse_args argv default_args = Some a" "duration_sec a = 0"
    and "0 < unat (message_count a)" "unat (message_count a) < 2 ^ 62" "fault_mode a \<in> {''drop'', ''timeout'', ''reorder''}"
    and "bench_main env argv w = Some (BenchReturns c (Some rep), w')"
  shows "fault_assertion_pass rep \<and> 0 < error_rate rep \<and> error_rate rep \<le> 3 / 2"
proof -
  from bench_main_counts [OF assms(1,6)] obtain r d acc ms all_rx v2r r2v where
    rep: "rep = make_report (effective_qps a) acc ms all_rx v2r r2v"
    and r: "d \<le> 3 * r" "sent_total acc = word_of_nat (2 * r)" "send_fail_count acc = word_of_nat d"
      "duration_sec a = 0 \<longrightarrow> r = unat (message_count a)" "0 < r \<and> injected_fault (fault_mode a) 0 \<longrightarrow> 1 \<le> d"
    by blast
  then have d: "d \<le> 3 * unat (message_count a)" and f: "injected_fault (fault_mode a) 0 \<longrightarrow> 1 \<le> d"
    and acc: "sent_total acc = word_of_nat (2 * unat (message_count a))" "send_fail_count acc = word_of_nat d"
    using assms(2,3) by blast+
  have "1 \<le> d" using f assms(5) by (auto simp: injected_fault_def)
  have "d < 2 ^ 64" "2 * unat (message_count a) < 2 ^ 64" using d assms(4) by simp_all
  then have n: "unat (send_fail_count acc) = d" "unat (sent_total acc) = 2 * unat (message_count a)"
    unfolding acc by (simp_all only: unat_of_nat len_num1 len_bit0 take_bit_nat_eq_self_iff) simp_all
  have "uint x = int (unat x)" for x :: u64 by simp
  with n have u: "uint (send_fail_count acc) = int d" "uint (sent_total acc) = int (2 * unat (message_count a))" by metis+
  have pos: "send_fail_count acc > 0" "sent_total acc > 0"
    using n \<open>1 \<le> d\<close> assms(3) by (simp_all add: word_less_nat_alt)
  have "error_rate rep = rat_of_int (int d) / rat_of_int (int (2 * unat (message_count a)))"
    using pos(2) unfolding rep make_report_def Let_def u [symmetric] by simp
  moreover have "fault_mode (effective_qps a) = fault_mode a" by (simp add: effective_qps_def)
  then have "fault_assertion_pass rep"
    using pos(1) assms(5) by (auto simp: rep make_report_def Let_def assertion_pass_def)
  ultimately show ?thesis using rate_bounds [OF assms(3) \<open>1 \<le> d\<close> d] by simp
qed

section \<open>The driver ends\<close>

text \<open>A steady clock does not go back, and a sleep takes its time.\<close>

locale steady_world =
  fixes env :: "'w bench_world"
    and time :: "'w \<Rightarrow> int"
  assumes now: "steady_now env w = (t, w') \<Longrightarrow> time w \<le> t \<and> t \<le> time w'"
    and load_v2r_time: "load_v2r env w = (v, w') \<Longrightarrow> time w \<le> time w'"
    and load_r2v_time: "load_r2v env w = (v, w') \<Longrightarrow> time w \<le> time w'"
    and sleep_time: "0 \<le> d \<Longrightarrow> time w + 1000000 * d \<le> time (sleep_ms env d w)"
begin

lemma wait_returns: "\<exists>w'. wait_received env expected deadline w = Some w'"
proof (induction "nat (deadline - time w)" arbitrary: w rule: less_induct)
  case less
  obtain t w1 where t: "steady_now env w = (t, w1)" by fastforce
  obtain v w2 where v: "load_v2r env w1 = (v, w2)" by fastforce
  obtain r w3 where r: "(if v \<ge> expected then load_r2v env w2 else (0, w2)) = (r, w3)" by fastforce
  have "time w2 \<le> time w3" using r load_r2v_time by (cases "v \<ge> expected") auto
  then have "time w + 1000000 * 10 \<le> time (sleep_ms env 10 w3)"
    using now [OF t] load_v2r_time [OF v] sleep_time [of 10 w3] by linarith
  moreover have "time w < deadline" if "t < deadline" using that now [OF t] by linarith
  ultimately have "\<exists>w'. wait_received env expected deadline (sleep_ms env 10 w3) = Some w'" if "t < deadline"
    using that by (intro less.hyps) linarith
  then show ?case by (subst wait_received.simps) (auto simp: t v r)
qed

end

context steady_world
begin

lemma never_stuck [simp]: "wait_received env expected deadline w = None \<longleftrightarrow> False"
  using wait_returns [of expected deadline w] by auto

lemma bench_main_reports:
  assumes "parse_args argv default_args = Some a"
    and "start_bridge env bench_config (register_counters env (set_log env bench_log w)) = Some (kOk, w1)"
  shows "\<exists>rep w'. bench_main env argv w = Some (BenchReturns 0 (Some rep), w')"
  using assms by (auto simp: bench_main_def Let_def split: option.splits prod.splits)

end

text \<open>
  On a clock that does not go back and with sleeps that last, the benchmark ends whatever the bridge does,
  provided the start of the bridge returns: the wait for the messages gives up at its deadline. When the
  arguments parse and the bridge started it has printed a report and its status is zero.
\<close>

theorem bench_main_ends:
  assumes "steady_world env time"
    and "start_bridge env bench_config (register_counters env (set_log env bench_log w)) = Some (ec, w1)"
  shows "\<exists>r w'. bench_main env argv w = Some (r, w') \<and>
    (parse_args argv default_args = None \<longrightarrow> r = BenchThrows) \<and>
    (parse_args argv default_args \<noteq> None \<longrightarrow> (if ec = kOk then \<exists>rep. r = BenchReturns 0 (Some rep) else r = BenchReturns 1 None))"
proof (cases "parse_args argv default_args")
  case None
  then show ?thesis by (simp add: bench_main_def Let_def)
next
  case (Some a)
  show ?thesis
  proof (cases "ec = kOk")
    case True
    then show ?thesis using steady_world.bench_main_reports [OF assms(1) Some] assms(2) Some by fastforce
  next
    case False
    then show ?thesis using assms(2) Some by (simp add: bench_main_def Let_def)
  qed
qed

section \<open>The bridge as the world\<close>

text \<open>
  The driver on the model of the bridge: the handlers count in the state of the application, and the worker
  threads do some work, any function of the bridge, during each sleep.
\<close>

record 't bench_machine =
  bm_bridge :: "('t, u64 \<times> u64) bridge"
  bm_time :: int
  bm_log :: Logger

definition register_bench :: "('t, u64 \<times> u64) bridge \<Rightarrow> ('t, u64 \<times> u64) bridge" where
  "register_bench b = b\<lparr>
     robot_router := snd (Register (robot_router b) ''bench.vehicle'' (Some (\<lambda>_ (v, r). (Returned, (v + 1, r))))),
     vehicle_router := snd (Register (vehicle_router b) ''bench.robot'' (Some (\<lambda>_ (v, r). (Returned, (v, r + 1)))))\<rparr>"

definition bridge_world ::
  "'t bridge_env \<Rightarrow> start_schedule \<Rightarrow> (('t, u64 \<times> u64) bridge \<Rightarrow> ('t, u64 \<times> u64) bridge) \<Rightarrow> 't bench_machine bench_world" where
  "bridge_world benv sch threads =
     \<lparr>steady_now = (\<lambda>m. (bm_time m, m\<lparr>bm_time := bm_time m + 1\<rparr>)),
      unix_now_ms = (\<lambda>m. (word_of_int (bm_time m div 1000000), m)),
      sleep_ms = (\<lambda>d m. m\<lparr>bm_time := bm_time m + 1000000 * d, bm_bridge := threads (bm_bridge m)\<rparr>),
      set_log = (\<lambda>f m. m\<lparr>bm_log := f (bm_log m)\<rparr>),
      register_counters = (\<lambda>m. m\<lparr>bm_bridge := register_bench (bm_bridge m)\<rparr>),
      start_bridge = (\<lambda>cfg m. case Start_config benv sch cfg (bm_bridge m) of
         (StartReturns ec, b) \<Rightarrow> Some (ec, m\<lparr>bm_bridge := b\<rparr>) | (LoopInCaller _, _) \<Rightarrow> None),
      stop_bridge = (\<lambda>m. m\<lparr>bm_bridge := bridge_Stop benv (bm_bridge m)\<rparr>),
      publish_vehicle = (\<lambda>e m. apsnd (\<lambda>b. m\<lparr>bm_bridge := b\<rparr>) (PublishFromVehicle benv e (bm_bridge m))),
      publish_robot = (\<lambda>e m. apsnd (\<lambda>b. m\<lparr>bm_bridge := b\<rparr>) (PublishFromRobot benv e (bm_bridge m))),
      load_v2r = (\<lambda>m. (fst (app (bm_bridge m)), m)),
      load_r2v = (\<lambda>m. (snd (app (bm_bridge m)), m))\<rparr>"

interpretation bench: steady_world "bridge_world benv sch threads" bm_time for benv sch threads
  by unfold_locales (auto simp: bridge_world_def)

text \<open>A bridge that runs already, no work by its threads.\<close>

definition running_machine :: "'t option \<Rightarrow> 't bench_machine" where
  "running_machine t = \<lparr>bm_bridge = (new_bridge t t (0, 0))\<lparr>bridge_running := True\<rparr>, bm_time = 0, bm_log = new_logger\<rparr>"

lemma running_start:
  "\<exists>m. start_bridge (bridge_world benv sch threads) bench_config
     (register_counters (bridge_world benv sch threads) (set_log (bridge_world benv sch threads) bench_log (running_machine t)))
   = Some (kOk, m)"
  by (simp add: bridge_world_def Start_config_def running_machine_def register_bench_def)

abbreviation quiet_world :: "ref_state PosixMessageQueue bench_machine bench_world" where
  "quiet_world \<equiv> bridge_world quiet_env \<lparr>priority_set = (\<lambda>_. True), first_loop_taken = True\<rparr> (\<lambda>b. b)"

theorem bench_main_ends_witness:
  "\<exists>rep w'. bench_main quiet_world [] (running_machine (Some (ref_transport_queue []))) = Some (BenchReturns 0 (Some rep), w')"
proof -
  obtain m where "start_bridge quiet_world bench_config
      (register_counters quiet_world (set_log quiet_world bench_log (running_machine (Some (ref_transport_queue []))))) = Some (kOk, m)"
    using running_start by blast
  from bench_main_ends [OF bench.steady_world_axioms this, of "[]"] show ?thesis by auto
qed

definition drop_run :: "string list" where
  "drop_run = [''--fault_mode=drop'', ''--message_count=3'']"

lemma drop_run_args: "parse_args drop_run default_args = Some (default_args\<lparr>fault_mode := ''drop'', message_count := 3\<rparr>)"
proof -
  have "stoull ''3'' = Some 3"
    by (simp add: stoull_def is_space_def is_digit_def digits_val_def digit_val_def)
  then show ?thesis by (simp add: drop_run_def parse_arg_def)
qed

theorem fault_assertion_vacuous_witness:
  "\<exists>rep w'. bench_main quiet_world drop_run (running_machine (Some (ref_transport_queue []))) = Some (BenchReturns 0 (Some rep), w') \<and>
     fault_assertion_pass rep"
proof -
  obtain m where "start_bridge quiet_world bench_config
      (register_counters quiet_world (set_log quiet_world bench_log (running_machine (Some (ref_transport_queue []))))) = Some (kOk, m)"
    using running_start by blast
  from bench.bench_main_reports [OF drop_run_args this] obtain rep w' where
    r: "bench_main quiet_world drop_run (running_machine (Some (ref_transport_queue []))) = Some (BenchReturns 0 (Some rep), w')" by blast
  from fault_assertion_vacuous [OF drop_run_args _ _ _ _ r] have "fault_assertion_pass rep"
    by (simp add: default_args_def)
  with r show ?thesis by blast
qed

end
