(* ===== verification/Adapter_Stubs.thy ===== *)
theory Adapter_Stubs
  imports Prelude
begin

text \<open>
  \<^verbatim>\<open>demo/rtos_adapter_stub.cpp\<close>, \<^verbatim>\<open>demo/ros2_adapter_stub.cpp\<close> and the two sample programs, whose classes are the
  same but for names and one default: a queue for a real-time system that keeps one payload, and the mapping of
  ROS 2 topics.
\<close>

section \<open>The queue\<close>

record RtosTaskConfig =
  task_priority :: u32
  stack_size :: u32

definition default_RtosTaskConfig :: RtosTaskConfig where
  "default_RtosTaskConfig = \<lparr>task_priority = 5, stack_size = 2048\<rparr>"

record RtosQueueStub =
  initialized :: bool
  last_payload :: string

definition new_RtosQueueStub :: RtosQueueStub where
  "new_RtosQueueStub = \<lparr>initialized = False, last_payload = []\<rparr>"

definition rtos_Init :: "u32 \<Rightarrow> u32 \<Rightarrow> RtosQueueStub \<Rightarrow> bool \<times> RtosQueueStub" where
  "rtos_Init depth bytes q = (True, q\<lparr>initialized := True\<rparr>)"

definition rtos_Send :: "string \<Rightarrow> RtosQueueStub \<Rightarrow> bool \<times> RtosQueueStub" where
  "rtos_Send text q = (if \<not> initialized q then (False, q) else (True, q\<lparr>last_payload := text\<rparr>))"

text \<open>The text received into is a cell, \<open>None\<close> for a null pointer.\<close>

definition rtos_Receive :: "string option \<Rightarrow> RtosQueueStub \<Rightarrow> bool \<times> string option" where
  "rtos_Receive out q = (if \<not> initialized q \<or> out = None then (False, out) else (True, Some (last_payload q)))"

definition rtos_sample_main :: int where
  "rtos_sample_main =
     (case rtos_Init 8 256 new_RtosQueueStub of (ok, q1) \<Rightarrow>
        if \<not> ok then 1
        else case rtos_Send ''rtos_sample_payload'' q1 of (ok, q2) \<Rightarrow>
          if \<not> ok then 1
          else case rtos_Receive (Some []) q2 of (ok, out) \<Rightarrow>
            if \<not> ok then 1 else if out = Some ''rtos_sample_payload'' then 0 else 1)"

section \<open>The topics\<close>

record Ros2QosProfile =
  reliable :: bool
  depth :: u32

definition stub_qos :: Ros2QosProfile where
  "stub_qos = \<lparr>reliable = False, depth = 10\<rparr>"

definition sample_qos :: Ros2QosProfile where
  "sample_qos = \<lparr>reliable = True, depth = 10\<rparr>"

record Ros2Adapter =
  ros2_topic :: string
  ros2_qos :: Ros2QosProfile

definition ConfigureTopic :: "string \<Rightarrow> Ros2QosProfile \<Rightarrow> Ros2Adapter \<Rightarrow> bool \<times> Ros2Adapter" where
  "ConfigureTopic tp q a = (tp \<noteq> [], a\<lparr>ros2_topic := tp, ros2_qos := q\<rparr>)"

definition MapToEnvelopeTopic :: "string \<Rightarrow> string" where
  "MapToEnvelopeTopic tp = ''ros2://'' @ tp"

definition ros2_sample_main :: int where
  "ros2_sample_main =
     (case ConfigureTopic ''/robot/cmd'' sample_qos \<lparr>ros2_topic = [], ros2_qos = sample_qos\<rparr> of (ok, _) \<Rightarrow>
        if \<not> ok then 1 else if MapToEnvelopeTopic ''/robot/cmd'' = ''ros2:///robot/cmd'' then 0 else 1)"

section \<open>What the stubs do\<close>

text \<open>
  The queue is a register: whatever its depth, after any payloads every receive gives the last of them, again
  and again, and the others are lost.
\<close>

fun rtos_send_all :: "string list \<Rightarrow> RtosQueueStub \<Rightarrow> RtosQueueStub" where
  "rtos_send_all [] q = q"
| "rtos_send_all (x # xs) q = rtos_send_all xs (snd (rtos_Send x q))"

lemma rtos_queue_is_register:
  "initialized q \<Longrightarrow> rtos_Receive (Some out) (rtos_send_all xs q) = (True, Some (last (last_payload q # xs)))"
  by (induction xs arbitrary: q) (simp_all add: rtos_Receive_def rtos_Send_def)

lemma MapToEnvelopeTopic_inj: "MapToEnvelopeTopic a = MapToEnvelopeTopic b \<longleftrightarrow> a = b"
  by (simp add: MapToEnvelopeTopic_def)

lemma samples_succeed: "rtos_sample_main = 0" "ros2_sample_main = 0"
  by (simp_all add: rtos_sample_main_def ros2_sample_main_def rtos_Init_def rtos_Send_def rtos_Receive_def
      ConfigureTopic_def MapToEnvelopeTopic_def new_RtosQueueStub_def)

end
