(* ===== verification/Service_Demo.thy ===== *)
theory Service_Demo
  imports Posix_Message_Queue Thread_Pool Retry_Policy Process_Guardian
begin

text \<open>
  \<^verbatim>\<open>demo/main.cpp\<close>: a supervised service that sends itself a message through a queue, with a sender and a
  receiver run by a thread pool. Before each action of the service the other threads do some work, a function
  of the number of actions so far; the locale \<open>service_threads\<close> says what they leave alone, and the workers of
  the pool satisfy it.
\<close>

section \<open>State\<close>

datatype service_task = SenderTask | ReceiverTask

record 'k service =
  svc_queue :: "'k PosixMessageQueue"
  svc_pool :: "service_task ThreadPool"
  svc_log :: "string list"
  svc_step :: nat

type_synonym 'k threads = "nat \<Rightarrow> 'k service \<Rightarrow> 'k service"

definition yield_to :: "'k threads \<Rightarrow> 'k service \<Rightarrow> 'k service" where
  "yield_to others s = (others (svc_step s) s)\<lparr>svc_step := Suc (svc_step s)\<rparr>"

definition log_line :: "string \<Rightarrow> 'k service \<Rightarrow> 'k service" where
  "log_line text s = s\<lparr>svc_log := svc_log s @ [text]\<rparr>"

section \<open>The two tasks\<close>

definition retry_options :: RetryOptions where
  "retry_options = \<lparr>max_retries = 5, initial_backoff_ms = 10, max_backoff_ms = 200\<rparr>"

text \<open>Each attempt is an action of its own, so that other threads may act between two attempts.\<close>

definition try_send :: "'k mq_api \<Rightarrow> 'k threads \<Rightarrow> 'k service \<Rightarrow> ErrorCode \<times> 'k service" where
  "try_send api others s0 =
     (let s = yield_to others s0 in
      case mq_SendNonBlocking api ''hello_from_sender'' 1 (svc_queue s) of (ec, q) \<Rightarrow> (ec, s\<lparr>svc_queue := q\<rparr>))"

definition run_sender :: "'k mq_api \<Rightarrow> 'k threads \<Rightarrow> 'k service \<Rightarrow> 'k service" where
  "run_sender api others s =
     (case RetryOnWouldBlock (Some (try_send api others)) retry_options s of (send_ec, _, s') \<Rightarrow>
        if send_ec \<noteq> kOk then log_line (''Send retry policy failed: '' @ error_ToString send_ec) s'
        else log_line ''Message sent to POSIX queue with RetryPolicy template'' s')"

definition try_receive ::
  "'k mq_api \<Rightarrow> 'k threads \<Rightarrow> string \<times> u32 \<times> 'k service \<Rightarrow> ErrorCode \<times> string \<times> u32 \<times> 'k service" where
  "try_receive api others mps =
     (case mps of (m, p, s0) \<Rightarrow>
        let s = yield_to others s0 in
        case mq_ReceiveNonBlocking api (Some m) (Some p) (svc_queue s) of
          ((ec, m', p'), q) \<Rightarrow> (ec, the m', the p', s\<lparr>svc_queue := q\<rparr>))"

definition run_receiver :: "'k mq_api \<Rightarrow> 'k threads \<Rightarrow> 'k service \<Rightarrow> 'k service" where
  "run_receiver api others s =
     (case RetryOnWouldBlock (Some (try_receive api others)) retry_options ([], 0, s) of (recv_ec, _, m, p, s') \<Rightarrow>
        if recv_ec \<noteq> kOk then log_line (''Receive retry policy failed: '' @ error_ToString recv_ec) s'
        else log_line (''Received message: '' @ m @ '', priority='' @ show_nat (unat p)) s')"

fun run_task :: "'k mq_api \<Rightarrow> 'k threads \<Rightarrow> service_task \<Rightarrow> 'k service \<Rightarrow> 'k service" where
  "run_task api others SenderTask s = run_sender api others s"
| "run_task api others ReceiverTask s = run_receiver api others s"

section \<open>The service\<close>

text \<open>\<^verbatim>\<open>Enqueue\<close>, with a task the caller has to run itself when the queue is full.\<close>

definition svc_Enqueue :: "'k mq_api \<Rightarrow> 'k threads \<Rightarrow> service_task \<Rightarrow> 'k service \<Rightarrow> ErrorCode \<times> 'k service" where
  "svc_Enqueue api others t s0 =
     (let s = yield_to others s0 in
      case EnqueueLocked (Some t) (svc_pool s) of
        (EnqReturn ec, p) \<Rightarrow> (ec, s\<lparr>svc_pool := p\<rparr>)
      | (RunInCaller, p) \<Rightarrow>
          let s1 = run_task api others t (s\<lparr>svc_pool := CallerSubmit p\<rparr>)
          in (kThreadTaskRejected, s1\<lparr>svc_pool := ExecuteTask Returned (svc_pool s1)\<rparr>))"

text \<open>\<^verbatim>\<open>Stop\<close>: between its critical section and the end of its joins the workers finish their work.\<close>

definition svc_Stop :: "'k threads \<Rightarrow> 'k service \<Rightarrow> 'k service" where
  "svc_Stop others s0 =
     (let s = yield_to others s0 in
      case StopBegin (svc_pool s) of
        (False, p) \<Rightarrow> s\<lparr>svc_pool := p\<rparr>
      | (True, p) \<Rightarrow>
          let s1 = yield_to others (s\<lparr>svc_pool := p\<rparr>)
          in s1\<lparr>svc_pool := StopEnd (svc_pool s1)\<rparr>)"

text \<open>After \<^verbatim>\<open>Stop\<close> no other thread is left.\<close>

definition remove_queue :: "'k mq_api \<Rightarrow> 'k service \<Rightarrow> 'k service" where
  "remove_queue api s = s\<lparr>svc_queue := mq_Unlink api (mq_Close api (svc_queue s))\<rparr>"

definition service_queue_config :: QueueConfig where
  "service_queue_config = \<lparr>q_name = ''/vr_framework_demo_queue'', q_max_messages = 1, q_message_size = 256\<rparr>"

definition service_thread_config :: ThreadConfig where
  "service_thread_config = default_ThreadConfig\<lparr>worker_count := 2, enable_realtime := False, queue_capacity := 1,
     rejection_policy := kCallerRuns\<rparr>"

definition metrics_line :: "ThreadPoolMetrics \<Rightarrow> string" where
  "metrics_line mt = ''ThreadPool metrics => queue='' @ show_nat (tp_queue_size mt) @ ''/'' @ show_nat (tp_queue_capacity mt) @
     '', submitted='' @ show_nat (unat (tp_submitted_count mt)) @ '', executed='' @ show_nat (unat (tp_executed_count mt)) @
     '', rejected='' @ show_nat (unat (tp_rejected_count mt))"

text \<open>The service from a kernel state on; \<open>sched\<close> is the outcome of the system calls for thread priorities.\<close>

definition ServiceEntry :: "'k mq_api \<Rightarrow> 'k threads \<Rightarrow> (nat \<Rightarrow> bool) \<Rightarrow> 'k \<Rightarrow> int \<times> 'k service" where
  "ServiceEntry api others sched k =
     (case mq_Create api service_queue_config (new_queue k) of (ec, q) \<Rightarrow>
        let s0 = \<lparr>svc_queue = q, svc_pool = new_pool, svc_log = [''Service starting...''], svc_step = 0\<rparr> in
        if ec \<noteq> kOk then (1, log_line (''Queue create failed: '' @ error_ToString ec) s0)
        else case pool_Start sched service_thread_config (svc_pool s0) of (ec, p) \<Rightarrow>
          let s1 = s0\<lparr>svc_pool := p\<rparr> in
          if ec \<noteq> kOk then (2, remove_queue api (log_line (''ThreadPool start failed: '' @ error_ToString ec) s1))
          else case svc_Enqueue api others SenderTask s1 of (ec, s2) \<Rightarrow>
            if ec \<noteq> kOk
            then (3, remove_queue api (svc_Stop others (log_line (''Enqueue sender failed: '' @ error_ToString ec) s2)))
            else case svc_Enqueue api others ReceiverTask s2 of (ec, s3) \<Rightarrow>
              if ec \<noteq> kOk \<and> ec \<noteq> kThreadTaskRejected
              then (4, remove_queue api (svc_Stop others (log_line (''Enqueue receiver failed: '' @ error_ToString ec) s3)))
              else
                let s4 = (if ec = kThreadTaskRejected
                          then log_line ''Queue full triggered rejection policy: caller runs'' s3 else s3);
                    s5 = yield_to others s4;
                    s6 = log_line (metrics_line (GetMetrics (svc_pool s5))) s5
                in (0, log_line ''Service exit normally'' (remove_queue api (svc_Stop others s6))))"

text \<open>
  \<^verbatim>\<open>main\<close>, with what becomes of the child that runs the service: \<^verbatim>\<open>final_status\<close> is \<open>-1\<close> before the supervisor
  writes it.
\<close>

definition demo_main :: "(nat \<Rightarrow> launch_outcome) \<Rightarrow> int" where
  "demo_main launch =
     (case RunWithRestart True True 0 launch of (ec, status, _) \<Rightarrow>
        if ec \<noteq> kOk \<or> (case status of None \<Rightarrow> - 1 | Some v \<Rightarrow> v) \<noteq> 0 then 1 else 0)"

section \<open>What the other threads leave alone\<close>

locale service_threads =
  fixes others :: "'k threads"
  assumes keep_running: "pool_running (svc_pool (others n s)) = pool_running (svc_pool s)"
    and keep_config: "pool_config (svc_pool (others n s)) = pool_config (svc_pool s)"
    and keep_tasks: "length (tasks (svc_pool (others n s))) \<le> length (tasks (svc_pool s))"
    and keep_queue: "mqd (svc_queue (others n s)) = mqd (svc_queue s)"
      "queue_name (svc_queue (others n s)) = queue_name (svc_queue s)"
begin

lemma yield_keeps:
  "pool_running (svc_pool (yield_to others s)) = pool_running (svc_pool s)"
  "pool_config (svc_pool (yield_to others s)) = pool_config (svc_pool s)"
  "length (tasks (svc_pool (yield_to others s))) \<le> length (tasks (svc_pool s))"
  "mqd (svc_queue (yield_to others s)) = mqd (svc_queue s)"
  "queue_name (svc_queue (yield_to others s)) = queue_name (svc_queue s)"
  by (simp_all add: yield_to_def keep_running keep_config keep_tasks keep_queue)

end

text \<open>What is fixed between the creation of the queue and the end.\<close>

definition frozen :: "'k service \<Rightarrow> bool \<times> ThreadConfig \<times> int \<times> string" where
  "frozen s = (pool_running (svc_pool s), pool_config (svc_pool s), mqd (svc_queue s), queue_name (svc_queue s))"

lemma frozen_log [simp]: "frozen (log_line t s) = frozen s"
  by (simp add: frozen_def log_line_def)

lemma retry_keeps:
  assumes "\<And>s. f (snd (operation s)) = f s"
  shows "f (snd (snd (RetryOnWouldBlock (Some operation) options s))) = f s"
proof -
  have "f (snd (snd (retry_loop operation options attempt backoff sleeps s))) = f s" for attempt backoff sleeps
    using assms
  proof (induction operation options attempt backoff sleeps s rule: retry_loop.induct)
    case (1 operation options attempt backoff sleeps s)
    obtain ec s1 where o: "operation s = (ec, s1)" by fastforce
    then have "f s1 = f s" using 1(2) [of s] by simp
    then show ?case using 1 o by (subst retry_loop.simps) (simp add: Let_def)
  qed
  then show ?thesis by (simp add: RetryOnWouldBlock_def)
qed

lemma nonblocking_keeps:
  "mqd (snd (mq_SendNonBlocking api m p q)) = mqd q" "queue_name (snd (mq_SendNonBlocking api m p q)) = queue_name q"
  "mqd (snd (mq_ReceiveNonBlocking api mo po q)) = mqd q" "queue_name (snd (mq_ReceiveNonBlocking api mo po q)) = queue_name q"
  by (auto simp: mq_SendNonBlocking_def mq_ReceiveNonBlocking_def Let_def split: prod.splits option.splits)

context service_threads
begin

lemma yield_frozen: "frozen (yield_to others s) = frozen s"
  by (simp add: frozen_def yield_keeps)

lemma run_task_frozen: "frozen (run_task api others t s) = frozen s"
proof (cases t)
  case SenderTask
  have "frozen (snd (try_send api others s)) = frozen s" for s
    using nonblocking_keeps(1,2) [of api "''hello_from_sender''" 1 "svc_queue (yield_to others s)"] yield_frozen [of s]
    by (auto simp: try_send_def frozen_def Let_def split: prod.splits)
  from retry_keeps [of frozen, OF this] SenderTask show ?thesis
    by (auto simp: run_sender_def split: prod.splits) (metis snd_conv)+
next
  case ReceiverTask
  have "frozen (snd (snd (snd (try_receive api others x)))) = frozen (snd (snd x))" for x
    using nonblocking_keeps(3,4) [of api "Some (fst x)" "Some (fst (snd x))" "svc_queue (yield_to others (snd (snd x)))"]
      yield_frozen [of "snd (snd x)"]
    by (auto simp: try_receive_def frozen_def Let_def split: prod.splits)
  from retry_keeps [of "\<lambda>x. frozen (snd (snd x))", OF this] ReceiverTask show ?thesis
    by (auto simp: run_receiver_def split: prod.splits) (metis snd_conv)+
qed

lemma Enqueue_running:
  assumes "pool_running (svc_pool s)" "rejection_policy (pool_config (svc_pool s)) = kCallerRuns" "svc_Enqueue api others t s = (ec, s')"
  shows "(ec = kOk \<or> ec = kThreadTaskRejected) \<and> frozen s' = frozen s \<and>
    (tasks (svc_pool s) = [] \<and> queue_capacity (pool_config (svc_pool s)) > 0 \<longrightarrow> ec = kOk)"
proof -
  define s1 where "s1 = yield_to others s"
  have f: "frozen s1 = frozen s" unfolding s1_def by (rule yield_frozen)
  then have r: "pool_running (svc_pool s1)" "rejection_policy (pool_config (svc_pool s1)) = kCallerRuns"
    using assms(1,2) by (auto simp: frozen_def)
  have e: "tasks (svc_pool s) = [] \<Longrightarrow> tasks (svc_pool s1) = []" using yield_keeps(3) [of s] by (simp add: s1_def)
  have x: "frozen (s1\<lparr>svc_pool := ExecuteTask Returned p\<rparr>) = frozen (s1\<lparr>svc_pool := p\<rparr>)" for s1 :: "'k service" and p
    by (simp add: frozen_def ExecuteTask_def Let_def)
  show ?thesis
  proof (cases "length (tasks (svc_pool s1)) \<ge> queue_capacity (pool_config (svc_pool s1))")
    case True
    then obtain p where p: "EnqueueLocked (Some t) (svc_pool s1) = (RunInCaller, p)" "pool_running p" "pool_config p = pool_config (svc_pool s1)"
      using r by (simp add: EnqueueLocked_def Let_def)
    define s2 where "s2 = run_task api others t (s1\<lparr>svc_pool := CallerSubmit p\<rparr>)"
    have "frozen s2 = frozen s1" unfolding s2_def run_task_frozen using p r by (simp add: frozen_def CallerSubmit_def)
    moreover have "ec = kThreadTaskRejected" "s' = s2\<lparr>svc_pool := ExecuteTask Returned (svc_pool s2)\<rparr>"
      using assms(3) by (simp_all add: svc_Enqueue_def s1_def [symmetric] p Let_def s2_def)
    moreover have "queue_capacity (pool_config (svc_pool s)) = 0" if "tasks (svc_pool s) = []"
      using True e [OF that] f by (auto simp: frozen_def)
    ultimately show ?thesis using f x by auto
  next
    case False
    then have "ec = kOk" "frozen s' = frozen s1"
      using assms(3) r by (auto simp: svc_Enqueue_def s1_def [symmetric] EnqueueLocked_def Let_def frozen_def)
    then show ?thesis using f by simp
  qed
qed

lemma Stop_stops:
  assumes "svc_Stop others s = s'"
  shows "\<not> pool_running (svc_pool s') \<and> mqd (svc_queue s') = mqd (svc_queue s) \<and> queue_name (svc_queue s') = queue_name (svc_queue s) \<and>
    (pool_running (svc_pool s) \<longrightarrow> workers (svc_pool s') = [] \<and> tasks (svc_pool s') = [])"
  using assms by (auto simp: svc_Stop_def StopBegin_def StopEnd_def yield_keeps Let_def split: if_splits)

end

lemma service_pool_starts:
  assumes "pool_Start sched service_thread_config new_pool = (ec, p)"
  shows "ec = kOk \<and> pool_running p \<and> tasks p = [] \<and> rejection_policy (pool_config p) = kCallerRuns \<and> queue_capacity (pool_config p) = 1"
  using assms by (auto simp: pool_Start_def service_thread_config_def default_ThreadConfig_def new_pool_def StartBegin_def
      ResetCounters_def SpawnWorker_def numeral_2_eq_2 Let_def)

section \<open>The outcome of the service\<close>

text \<open>
  Whatever the workers do and in which order, the service returns one exactly when its queue could not be
  created and zero otherwise: none of its other error paths can be taken. On return from a created queue the
  pool is stopped and empty, the descriptor is closed and the queue has been unlinked by name.
\<close>

theorem service_cleans_up:
  assumes "service_threads others" "ServiceEntry api others sched k = (code, s')"
  shows "if fst (mq_Create api service_queue_config (new_queue k)) \<noteq> kOk then code = 1
    else code = 0 \<and> mqd (svc_queue s') = - 1 \<and> \<not> pool_running (svc_pool s') \<and> workers (svc_pool s') = [] \<and>
      tasks (svc_pool s') = [] \<and> (\<exists>k'. kernel (svc_queue s') = mq_unlink api ''/vr_framework_demo_queue'' k')"
proof (cases "fst (mq_Create api service_queue_config (new_queue k)) = kOk")
  case False
  then show ?thesis using assms(2) by (auto simp: ServiceEntry_def Let_def split: prod.splits if_splits)
next
  case True
  obtain q where q: "mq_Create api service_queue_config (new_queue k) = (kOk, q)" using True by (metis prod.collapse)
  then have "queue_name q = ''/vr_framework_demo_queue''" "mqd q \<ge> 0"
    by (auto simp: mq_Create_def service_queue_config_def Let_def split: prod.splits if_splits)
  note name = this
  obtain ec p where p: "pool_Start sched service_thread_config (new_pool :: service_task ThreadPool) = (ec, p)" by fastforce
  note start = service_pool_starts [OF p]
  define s1 :: "'a service" where "s1 = \<lparr>svc_queue = q, svc_pool = p, svc_log = [''Service starting...''], svc_step = 0\<rparr>"
  obtain e2 s2 where e2: "svc_Enqueue api others SenderTask s1 = (e2, s2)" by fastforce
  have r2: "e2 = kOk" "frozen s2 = frozen s1"
    using service_threads.Enqueue_running [OF assms(1) _ _ e2] start by (simp_all add: s1_def)
  obtain e3 s3 where e3: "svc_Enqueue api others ReceiverTask s2 = (e3, s3)" by fastforce
  have run2: "pool_running (svc_pool s2)" "rejection_policy (pool_config (svc_pool s2)) = kCallerRuns"
    using r2(2) start by (auto simp: frozen_def s1_def)
  have r3: "e3 = kOk \<or> e3 = kThreadTaskRejected" "frozen s3 = frozen s1"
    using service_threads.Enqueue_running [OF assms(1) run2 e3] r2 by simp_all
  define s4 where "s4 = (if e3 = kThreadTaskRejected then log_line ''Queue full triggered rejection policy: caller runs'' s3 else s3)"
  define s6 where "s6 = log_line (metrics_line (GetMetrics (svc_pool (yield_to others s4)))) (yield_to others s4)"
  have f6: "frozen s6 = frozen s1"
    by (simp add: s6_def s4_def service_threads.yield_frozen [OF assms(1)] r3)
  define s7 where "s7 = svc_Stop others s6"
  have s7: "\<not> pool_running (svc_pool s7)" "mqd (svc_queue s7) \<ge> 0" "queue_name (svc_queue s7) = ''/vr_framework_demo_queue''"
      "workers (svc_pool s7) = []" "tasks (svc_pool s7) = []"
    using service_threads.Stop_stops [OF assms(1) s7_def [symmetric]] f6 name start by (auto simp: frozen_def s1_def)
  have "(code, s') = (0, log_line ''Service exit normally'' (remove_queue api s7))"
    using assms(2) r2(1) r3(1) start
    by (auto simp: ServiceEntry_def Let_def q p e2 e3 s1_def [symmetric]) (simp_all add: s7_def s6_def s4_def)
  then show ?thesis using True s7 by (auto simp: remove_queue_def log_line_def mq_Close_def mq_Unlink_def)
qed

section \<open>The workers\<close>

text \<open>In one turn a worker takes the front task and runs it to its end; \<open>who\<close> tells which worker is next.\<close>

definition worker_turn :: "'k mq_api \<Rightarrow> (nat \<Rightarrow> nat) \<Rightarrow> 'k threads" where
  "worker_turn api who n s =
     (case tasks (svc_pool s) of
        [] \<Rightarrow> s
      | t # _ \<Rightarrow>
          (case WorkerTake (who n) (svc_pool s) of
             None \<Rightarrow> s
           | Some p \<Rightarrow>
               let s1 = run_task api (\<lambda>_ s. s) t (s\<lparr>svc_pool := p\<rparr>)
               in s1\<lparr>svc_pool := WorkerFinish (who n) Returned p\<rparr>))"

interpretation alone: service_threads "\<lambda>_ s. s"
  by unfold_locales simp_all

lemma worker_turn_keeps:
  "pool_running (svc_pool (worker_turn api who n s)) = pool_running (svc_pool s) \<and>
   pool_config (svc_pool (worker_turn api who n s)) = pool_config (svc_pool s) \<and>
   length (tasks (svc_pool (worker_turn api who n s))) \<le> length (tasks (svc_pool s)) \<and>
   mqd (svc_queue (worker_turn api who n s)) = mqd (svc_queue s) \<and>
   queue_name (svc_queue (worker_turn api who n s)) = queue_name (svc_queue s)"
proof (cases "tasks (svc_pool s)")
  case (Cons t ts)
  then obtain p where p: "WorkerTake (who n) (svc_pool s) = Some p" "pool_running p = pool_running (svc_pool s)"
      "pool_config p = pool_config (svc_pool s)" "tasks p = ts"
    by (auto simp: WorkerTake_def)
  from alone.run_task_frozen [of api t "s\<lparr>svc_pool := p\<rparr>"] Cons p show ?thesis
    by (simp add: worker_turn_def frozen_def WorkerFinish_def ExecuteTask_def Let_def)
qed (simp add: worker_turn_def)

interpretation pool_threads: service_threads "worker_turn api who" for api who
  by unfold_locales (simp_all add: worker_turn_keeps)

text \<open>The demonstration succeeds exactly when its child exits with status zero modulo 256.\<close>

lemma demo_main_exit: "demo_main launch = 0 \<longleftrightarrow> (\<exists>code. launch 0 = ChildExited code \<and> code mod 256 = 0)"
  by (cases "launch 0") (auto simp: demo_main_def RunWithRestart_def guardian_loop.simps [of launch 0 0]
      guardian_loop.simps [of launch 0 "Suc 0"] WEXITSTATUS_def)

lemma demo_succeeds:
  assumes "fst (mq_Create api service_queue_config (new_queue k)) = kOk"
  shows "demo_main (\<lambda>_. ChildExited (fst (ServiceEntry api (worker_turn api who) sched k))) = 0"
proof -
  obtain code s' where "ServiceEntry api (worker_turn api who) sched k = (code, s')" by fastforce
  with service_cleans_up [OF pool_threads.service_threads_axioms this] assms show ?thesis
    by (simp add: demo_main_exit)
qed

end
