(* ===== verification/Learning_Demo.thy ===== *)
theory Learning_Demo
  imports Bridge_Lifecycle
begin

text \<open>
  \<^verbatim>\<open>demo/interconnect_learning_demo.cpp\<close>: a bridge between two queues, five rounds of messages in both
  directions, and a report. The state of the application is the list of log texts, in which the handlers write
  too; during a sleep the threads of the bridge do some work, any function of the bridge.
\<close>

section \<open>Configuration\<close>

definition demo_control_rule :: PolicyRule where
  "demo_control_rule = default_PolicyRule\<lparr>priority := 10, match_any_channel := False, rule_channel := kControl,
     rule_topic := ''vehicle.command'',
     policy := default_SlaPolicy\<lparr>transport_send_timeout_ms := 30, backpressure_policy := bp_kDropOldest, drop_policy := kDropOldest,
       retry_budget := \<lparr>budget_max_retries = 1, budget_initial_backoff_ms = 5, budget_max_backoff_ms = 10\<rparr>\<rparr>\<rparr>"

definition demo_conflict_rule :: PolicyRule where
  "demo_conflict_rule = demo_control_rule\<lparr>priority := priority demo_control_rule, rule_topic := ''vehicle.command'',
     policy := (policy demo_control_rule)\<lparr>transport_send_timeout_ms := 40\<rparr>\<rparr>"

definition learning_config :: BridgeConfig where
  "learning_config =
     (let c = default_BridgeConfig in
      c\<lparr>vehicle_to_robot_endpoint := (vehicle_to_robot_endpoint c)\<lparr>name := ''/vr_vehicle_to_robot_demo'', max_messages := 32, message_size := 1024\<rparr>,
        robot_to_vehicle_endpoint := (robot_to_vehicle_endpoint c)\<lparr>name := ''/vr_robot_to_vehicle_demo'', max_messages := 32, message_size := 1024\<rparr>,
        thread_pool := (thread_pool c)\<lparr>worker_count := 2, queue_capacity := 16, rejection_policy := kRejectNewTask\<rparr>,
        sla_policy := (sla_policy c)\<lparr>max_end_to_end_latency_ms := 300, transport_receive_timeout_ms := 50,
          transport_send_timeout_ms := 50, backpressure_policy := bp_kDropOldest, drop_policy := kDropOldest,
          retry_budget := \<lparr>budget_max_retries = 2, budget_initial_backoff_ms = 5, budget_max_backoff_ms = 20\<rparr>\<rparr>,
        policy_table := (policy_table c)\<lparr>rules := rules (policy_table c) @ [demo_control_rule, demo_conflict_rule]\<rparr>\<rparr>)"

section \<open>Messages\<close>

definition MakeTraceId :: "u64 \<Rightarrow> string" where
  "MakeTraceId seq = ''trace_'' @ show_nat (unat seq)"

definition vehicle_msg :: "u64 \<Rightarrow> u64 \<Rightarrow> MessageEnvelope" where
  "vehicle_msg seq now = default_envelope\<lparr>channel := kControl, qos := kAtLeastOnce, sequence := seq, timestamp_ms := now,
     ttl_ms := 200, source := ''vehicle.domain'', target := ''robot.domain'', topic := ''vehicle.command'',
     trace_id := MakeTraceId seq, payload := ''move_forward_step_'' @ show_nat (unat seq)\<rparr>"

definition robot_msg :: "u64 \<Rightarrow> u64 \<Rightarrow> MessageEnvelope" where
  "robot_msg seq now = default_envelope\<lparr>channel := kTelemetry, qos := kBestEffort, sequence := seq, timestamp_ms := now,
     ttl_ms := 200, source := ''robot.domain'', target := ''vehicle.domain'', topic := ''robot.status'',
     trace_id := MakeTraceId (1000 + seq), payload := ''battery='' @ show_int (90 - sint (ucast seq :: u32))\<rparr>"

type_synonym 't demo_bridge = "('t, string list) bridge"

definition say :: "string \<Rightarrow> 't demo_bridge \<Rightarrow> 't demo_bridge" where
  "say text b = b\<lparr>app := app b @ [text]\<rparr>"

definition log_handler :: "string \<Rightarrow> string list MessageHandler" where
  "log_handler label = (\<lambda>msg w. (Returned, w @ [label @ topic msg @ '', payload='' @ payload msg]))"

definition register_demo :: "'t demo_bridge \<Rightarrow> 't demo_bridge" where
  "register_demo b = b\<lparr>
     vehicle_router := snd (Register (vehicle_router b) ''robot.status'' (Some (log_handler ''[Vehicle Side] recv from robot topic=''))),
     robot_router := snd (Register (robot_router b) ''vehicle.command'' (Some (log_handler ''[Robot Side] recv from vehicle topic='')))\<rparr>"

section \<open>The program\<close>

text \<open>The clock of the program is read with \<open>now\<close>, a function of how often it was read.\<close>

fun demo_rounds ::
  "'t bridge_env \<Rightarrow> ('t demo_bridge \<Rightarrow> 't demo_bridge) \<Rightarrow> (nat \<Rightarrow> u64) \<Rightarrow> nat \<Rightarrow> u64 \<Rightarrow> 't demo_bridge \<Rightarrow> 't demo_bridge" where
  "demo_rounds env threads now 0 seq b = b"
| "demo_rounds env threads now (Suc k) seq b =
     (let b1 = snd (PublishFromVehicle env (vehicle_msg seq (now (2 * unat seq))) b);
          b2 = snd (PublishFromRobot env (robot_msg seq (now (2 * unat seq + 1))) b1)
      in demo_rounds env threads now k (seq + 1) (threads b2))"

definition snapshot_line :: "BridgeMetrics \<Rightarrow> string" where
  "snapshot_line m = ''Bridge snapshot => tx='' @ show_nat (unat (tx_count m)) @ '', rx='' @ show_nat (unat (rx_count m)) @
     '', decode_fail='' @ show_nat (unat (decode_fail_count m)) @ '', expired='' @ show_nat (unat (expired_drop_count m)) @
     '', route_miss='' @ show_nat (unat (route_miss_count m)) @
     '', backpressure_drop='' @ show_nat (unat (backpressure_drop_count m))"

definition delta_line :: "BridgeMetrics \<Rightarrow> string" where
  "delta_line m = ''Bridge delta => tx_delta='' @ show_nat (unat (tx_count m)) @ '', rx_delta='' @ show_nat (unat (rx_count m))"

definition conflict_lines :: "string list \<Rightarrow> string list" where
  "conflict_lines cs = (if cs = [] then [''Policy conflict check: clean''] else map (\<lambda>c. ''Policy conflict => '' @ c) cs)"

text \<open>\<open>None\<close>: the start of the bridge does not return.\<close>

definition learning_main ::
  "'t bridge_env \<Rightarrow> start_schedule \<Rightarrow> ('t demo_bridge \<Rightarrow> 't demo_bridge) \<Rightarrow> (nat \<Rightarrow> u64) \<Rightarrow> 't option \<Rightarrow> 't option \<Rightarrow> (int \<times> 't demo_bridge) option" where
  "learning_main env sch threads now tx rx =
     (case Start_config env sch learning_config (register_demo (new_bridge tx rx [])) of
        (LoopInCaller _, _) \<Rightarrow> None
      | (StartReturns ec, b) \<Rightarrow>
          if ec \<noteq> kOk then Some (1, say ''Bridge start failed'' b)
          else
            let b1 = threads (demo_rounds env threads now 5 1 b) in
            case CaptureMetricsSnapshot env b1 of (snapshot, b2) \<Rightarrow>
            case ExportMetricsDelta env b2 of (delta, b3) \<Rightarrow>
              let b4 = say (delta_line (bridge_metrics_delta delta)) (say (snapshot_line (snap_bridge_metrics snapshot)) b3) in
              case GetPolicyLintReport b4 of (report, b5) \<Rightarrow>
                let b6 = say (''Policy lint report:'' @ [CHR 0x0A] @ report) b5;
                    b7 = fold say (conflict_lines (CollectPolicyConflicts (table_of b6))) b6
                in Some (0, say ''interconnect learning demo finished'' (bridge_Stop env b7)))"

section \<open>The policies of the demonstration\<close>

text \<open>
  The two rules tie, which the demonstration is meant to show: its table has exactly one conflict, and a
  command gets the policy of the first of them, flagged as a conflict.
\<close>

lemma demo_rules_tie: "rules_tie demo_control_rule demo_conflict_rule"
  by (simp add: rules_tie_def RulesOverlap_def demo_conflict_rule_def demo_control_rule_def default_PolicyRule_def)

lemma learning_conflict:
  "CollectPolicyConflicts (policy_table learning_config) =
     [''rules conflict: '' @ FormatRuleSummary demo_control_rule @ '' vs '' @ FormatRuleSummary demo_conflict_rule]"
  using demo_rules_tie
  by (simp add: CollectPolicyConflicts_def learning_config_def default_BridgeConfig_def default_PolicyTable_def)

lemma learning_policy:
  "ResolvePolicyInternal (rebuild_index (policy_table learning_config)) (vehicle_msg seq now) = (policy demo_control_rule, False, True)"
  by (simp add: ResolvePolicyInternal_def FindBestPolicyMatch_def candidate_indices_def rebuild_index_def index_rules_def
      RuleMatches_def learning_config_def default_BridgeConfig_def default_PolicyTable_def demo_conflict_rule_def
      demo_control_rule_def default_PolicyRule_def vehicle_msg_def default_envelope_def Let_def)

lemma demo_messages_valid:
  "IsEnvelopeValidForPublish (vehicle_msg seq now) \<and> IsEnvelopeValidForPublish (robot_msg seq now)"
  by (simp add: IsEnvelopeValidForPublish_def vehicle_msg_def robot_msg_def default_envelope_def)

end
