(* ===== verification/Cache_References.thy ===== *)
theory Cache_References
  imports Bridge_Invariants
begin

text \<open>
  The references that \<^verbatim>\<open>InterconnectBridge::ResolvePolicy\<close> hands out. \<^verbatim>\<open>LookupPolicyCache\<close> and
  \<^verbatim>\<open>StorePolicyCache\<close> hold \<^verbatim>\<open>policy_cache_mutex_\<close> only while they run, but return a pointer into the front
  node of the list; the publisher and the two inbound loops read the policy through it later, while other
  threads use the cache. A thread is a program counter, every critical section is one step, and the steps of
  any number of threads interleave in every order. The first part says how long one reference stays alive;
  the second what holds, and what does not, of all of them together. Node addresses are never used twice in
  the model, so a reference to a freed node is recognised as dead instead of reading another entry.
\<close>

section \<open>One reference\<close>

text \<open>Both functions return the address of the node that is now at the front.\<close>

definition front_ref :: "policy_cache \<Rightarrow> iterator" where
  "front_ref c = fst (hd (cache_items c))"

definition read_ref :: "policy_cache \<Rightarrow> iterator \<Rightarrow> PolicyCacheEntry option" where
  "read_ref c r = map_option item_entry (map_of (cache_items c) r)"

definition resolve_ref :: "BridgePolicyTable \<Rightarrow> MessageEnvelope \<Rightarrow> policy_cache \<Rightarrow> iterator \<times> policy_cache" where
  "resolve_ref t e c =
     (case LookupPolicyCache c (cache_key e) of
        (Some cached_entry, c1) \<Rightarrow> (front_ref c1, c1)
      | (None, c1) \<Rightarrow>
          (case StorePolicyCache c1 (cache_key e) (entry_of t e) of
             (stored_entry, c2) \<Rightarrow> (front_ref c2, c2)))"

definition resolve_all :: "BridgePolicyTable \<Rightarrow> MessageEnvelope list \<Rightarrow> policy_cache \<Rightarrow> policy_cache" where
  "resolve_all t es c = fold (\<lambda>e c. snd (resolve_ref t e c)) es c"

lemma resolve_all_simps [simp]:
  "resolve_all t [] c = c" "resolve_all t (es @ [e]) c = snd (resolve_ref t e (resolve_all t es c))"
  by (simp_all add: resolve_all_def)

lemma front_moved [simp]: "front_ref (moved c n x v) = n"
  by (simp add: front_ref_def moved_def)

lemma front_pushed [simp]: "front_ref (pushed c k v) = next_node c"
  by (simp add: front_ref_def pushed_def)

lemma front_evicted: "length (cache_items c) = kPolicyCacheMaxEntries \<Longrightarrow> front_ref (evicted (pushed c k v)) = next_node c"
  by (cases "cache_items c") (simp_all add: front_ref_def evicted_def pushed_def kPolicyCacheMaxEntries_def)

text \<open>What the two kinds of change do to the index.\<close>

lemma index_moved [simp]: "cache_index (moved c n x v) = cache_index c" "next_node (moved c n x v) = next_node c"
  by (simp_all add: moved_def)

lemma index_pushed [simp]:
  "cache_index (pushed c k v) = (cache_index c)(k \<mapsto> next_node c)" "next_node (pushed c k v) = Suc (next_node c)"
  by (simp_all add: pushed_def)

lemma index_evicted [simp]:
  "cache_index (evicted c) = (cache_index c)(item_key (snd (last (cache_items c))) := None)"
  "next_node (evicted c) = next_node c"
  by (simp_all add: evicted_def)

text \<open>The node evicted does not carry the key just stored.\<close>

lemma evicted_other_key:
  assumes "cache_wf c" "cache_index c k = None" "length (cache_items c) = kPolicyCacheMaxEntries"
  shows "item_key (snd (last (cache_items (pushed c k v)))) \<noteq> k"
proof -
  have ne: "cache_items c \<noteq> []" using assms(3) by (auto simp: kPolicyCacheMaxEntries_def)
  then have "last (cache_items c) \<in> set (cache_items c)" by simp
  then have "cache_index c (item_key (snd (last (cache_items c)))) = Some (fst (last (cache_items c)))"
    using cache_wfD(3) [OF assms(1)] by (metis prod.collapse)
  with assms(2) ne show ?thesis by (auto simp: pushed_def)
qed

lemma resolve_ref_cases [consumes 1, case_names hit room full]:
  assumes "cache_wf c"
  obtains (hit) n x where "cache_index c (cache_key e) = Some n" "(n, x) \<in> set (cache_items c)"
      "resolve_ref t e c = (n, moved c n x (item_entry x))"
  | (room) "cache_index c (cache_key e) = None" "length (cache_items c) < kPolicyCacheMaxEntries"
      "resolve_ref t e c = (next_node c, pushed c (cache_key e) (entry_of t e))"
  | (full) "cache_index c (cache_key e) = None" "length (cache_items c) = kPolicyCacheMaxEntries"
      "resolve_ref t e c = (next_node c, evicted (pushed c (cache_key e) (entry_of t e)))"
  using assms
proof (cases rule: Lookup_cases [of c "cache_key e"])
  case (hit n x)
  then show ?thesis by (intro that(1)) (simp_all add: resolve_ref_def)
next
  case miss
  from assms show ?thesis
  proof (cases rule: Store_cases [of c "cache_key e" "entry_of t e"])
    case (present n x)
    with miss show ?thesis by simp
  next
    case room
    with miss show ?thesis by (intro that(2)) (simp_all add: resolve_ref_def)
  next
    case full
    with miss show ?thesis by (intro that(3)) (simp_all add: resolve_ref_def front_evicted)
  qed
qed

lemma resolve_ref_wf [wf_intros]: "cache_wf c \<Longrightarrow> cache_wf (snd (resolve_ref t e c))"
  using Lookup_wf [of c "cache_key e"] Store_wf [of "snd (LookupPolicyCache c (cache_key e))" "cache_key e" "entry_of t e"]
  by (auto simp: resolve_ref_def split: prod.split option.split)

lemma resolve_all_wf [wf_intros]: "cache_wf c \<Longrightarrow> cache_wf (resolve_all t es c)"
  by (induction es rule: rev_induct) (auto intro: wf_intros)

lemma resolve_ref_index:
  assumes "cache_wf c"
  shows "cache_index (snd (resolve_ref t e c)) (cache_key e) = Some (fst (resolve_ref t e c))"
  using assms
proof (cases rule: resolve_ref_cases [of c e t])
  case full
  then show ?thesis using evicted_other_key [OF assms full(1,2), of "entry_of t e"] by simp
qed simp_all

lemma read_ref_live:
  assumes "cache_wf c"
  shows "read_ref c r \<noteq> None \<longleftrightarrow> (\<exists>k. cache_index c k = Some r)"
proof -
  have "read_ref c r \<noteq> None \<longleftrightarrow> (\<exists>x. (r, x) \<in> set (cache_items c))"
    using cache_wfD(1) [OF assms] by (force simp: read_ref_def dest: map_of_SomeD weak_map_of_SomeI)
  then show ?thesis using cache_wfD(3) [OF assms] by auto
qed

text \<open>Read at once, the reference gives the policy that the operation on the whole bridge returns.\<close>

lemma read_ref_indexed: "cache_wf c \<Longrightarrow> cache_index c k = Some r \<Longrightarrow> read_ref c r = map_of (cache_view c) k"
  by (simp add: read_ref_def cache_view_lookup)

lemma resolve_ref_refines:
  assumes "cache_wf (policy_cache_state b)"
  shows "policy_cache_state (snd (ResolvePolicy env e b)) = snd (resolve_ref (table_of b) e (policy_cache_state b))"
    and "map_option entry_policy (read_ref (snd (resolve_ref (table_of b) e (policy_cache_state b)))
           (fst (resolve_ref (table_of b) e (policy_cache_state b)))) = Some (fst (ResolvePolicy env e b))"
proof -
  let ?c = "policy_cache_state b"
  let ?rc = "resolve_ref (table_of b) e ?c"
  show "policy_cache_state (snd (ResolvePolicy env e b)) = snd ?rc"
    by (simp add: ResolvePolicy_cache(3) [OF assms] resolve_ref_def Let_def split: prod.split option.split)
  have "read_ref (snd ?rc) (fst ?rc) = map_of (cache_view (snd ?rc)) (cache_key e)"
    by (rule read_ref_indexed [OF resolve_ref_wf [OF assms] resolve_ref_index [OF assms]])
  also have "\<dots> = (case fst (LookupPolicyCache ?c (cache_key e)) of Some x \<Rightarrow> Some x | None \<Rightarrow> Some (entry_of (table_of b) e))"
  proof (cases "map_of (cache_view ?c) (cache_key e)")
    case None
    then show ?thesis using assms Lookup_wf [OF assms, of "cache_key e"]
      by (simp add: resolve_ref_def Lookup_value [OF assms] case_prod_beta Store_view kPolicyCacheMaxEntries_def)
  next
    case (Some v)
    then show ?thesis using assms by (simp add: resolve_ref_def Lookup_value Lookup_view case_prod_beta)
  qed
  finally show "map_option entry_policy (read_ref (snd ?rc) (fst ?rc)) = Some (fst (ResolvePolicy env e b))"
    by (simp add: ResolvePolicy_cache(2) [OF assms] entry_of_def split: option.split prod.split)
qed


section \<open>How long a reference lives\<close>

text \<open>The keys of the cache in order of use: a resolution moves its key to the front and drops the 257th.\<close>

definition cached_keys :: "policy_cache \<Rightarrow> PolicyCacheKey list" where
  "cached_keys c = map fst (cache_view c)"

definition touch :: "nat \<Rightarrow> 'k \<Rightarrow> 'k list \<Rightarrow> 'k list" where
  "touch n j ks = take n (j # removeAll j ks)"

lemma map_filter_keys: "map fst (filter (\<lambda>p. fst p \<noteq> k) xs) = removeAll k (map fst xs)"
  by (induction xs) auto

lemma cached_keys_wf:
  assumes "cache_wf c"
  shows "distinct (cached_keys c)" "length (cached_keys c) \<le> kPolicyCacheMaxEntries"
    "k \<in> set (cached_keys c) \<longleftrightarrow> (\<exists>n. cache_index c k = Some n)"
proof -
  show "distinct (cached_keys c)" "length (cached_keys c) \<le> kPolicyCacheMaxEntries"
    using cache_keys_distinct [OF assms] cache_wfD(4) [OF assms] by (simp_all add: cached_keys_def)
  have "k \<in> set (cached_keys c) \<longleftrightarrow> (\<exists>n x. (n, x) \<in> set (cache_items c) \<and> item_key x = k)"
    by (force simp: cached_keys_def cache_view_def)
  then show "k \<in> set (cached_keys c) \<longleftrightarrow> (\<exists>n. cache_index c k = Some n)"
    using cache_wfD(3) [OF assms] by simp
qed

lemma resolve_ref_keys:
  assumes "cache_wf c"
  shows "cached_keys (snd (resolve_ref t e c)) = touch kPolicyCacheMaxEntries (cache_key e) (cached_keys c)"
proof (cases "map_of (cache_view c) (cache_key e)")
  case None
  have "snd (resolve_ref t e c) = snd (StorePolicyCache c (cache_key e) (entry_of t e))"
    using assms None by (cases rule: Lookup_cases [of c "cache_key e"]) (simp_all add: resolve_ref_def split: prod.split)
  then show ?thesis by (simp add: cached_keys_def Store_view [OF assms] take_map [symmetric] touch_def map_filter_keys)
next
  case (Some v)
  then have "cached_keys (snd (resolve_ref t e c)) = cache_key e # removeAll (cache_key e) (cached_keys c)"
    using assms by (simp add: resolve_ref_def Lookup_value case_prod_beta cached_keys_def Lookup_view map_filter_keys)
  then show ?thesis using cached_keys_wf(2) [OF resolve_ref_wf [OF assms], of t e] by (simp add: touch_def)
qed

text \<open>A key that is not touched again stays exactly while fewer than the capacity others are touched.\<close>

lemma distinct_touch: "distinct ks \<Longrightarrow> distinct (touch n j ks)"
  by (simp add: touch_def distinct_removeAll)

lemma touch_lifetime:
  assumes "distinct (k # ks)" "k \<notin> set js" "0 < n"
  defines "l \<equiv> fold (touch n) js (k # ks)"
  shows "(card (set js) < n \<longrightarrow> (\<exists>xs ys. l = xs @ k # ys \<and> set xs = set js)) \<and>
         (n \<le> card (set js) \<longrightarrow> k \<notin> set l) \<and> distinct l"
  using assms(2) unfolding l_def
proof (induction js rule: rev_induct)
  case Nil
  then show ?case using assms(1,3) by simp
next
  case (snoc j js)
  let ?l = "fold (touch n) js (k # ks)"
  have IH: "card (set js) < n \<Longrightarrow> \<exists>xs ys. ?l = xs @ k # ys \<and> set xs = set js"
    "n \<le> card (set js) \<Longrightarrow> k \<notin> set ?l" "distinct ?l" and "j \<noteq> k"
    using snoc by auto
  have le: "card (set js) \<le> card (insert j (set js))" by (simp add: card_mono subset_insertI)
  show ?case
  proof (cases "card (set js) < n")
    case False
    then have "k \<notin> set (touch n j ?l)" using IH(2) \<open>j \<noteq> k\<close> by (auto simp: touch_def dest: in_set_takeD)
    then show ?thesis using False le IH(3) by (simp add: distinct_touch)
  next
    case True
    then obtain xs ys where l: "?l = xs @ k # ys" "set xs = set js" using IH(1) by blast
    let ?xs = "j # removeAll j xs"
    have "distinct ?xs" using IH(3) l(1) by (simp add: distinct_removeAll)
    from distinct_card [OF this] have len: "length ?xs = card (insert j (set js))" using l(2) by simp
    have t: "touch n j ?l = take n (?xs @ k # removeAll j ys)" using l(1) \<open>j \<noteq> k\<close> by (simp add: touch_def)
    have "card (insert j (set js)) \<le> n" using True by (simp add: card_insert_if)
    then consider "length ?xs = n" | d where "n = length ?xs + Suc d"
      using len less_iff_Suc_add [of "length ?xs" n] by fastforce
    then show ?thesis
    proof cases
      case 1
      then have "k \<notin> set (touch n j ?l)" using t l IH(3) \<open>j \<noteq> k\<close> by auto
      then show ?thesis using 1 len IH(3) by (simp add: distinct_touch)
    next
      case 2
      then have "touch n j ?l = ?xs @ k # take d (removeAll j ys)" using t by simp
      then have "\<exists>xs ys. touch n j ?l = xs @ k # ys \<and> set xs = set (js @ [j])"
        using l(2) by (intro exI [of _ ?xs] exI [of _ "take d (removeAll j ys)"]) auto
      moreover have "card (set (js @ [j])) < n" using 2 len by simp
      ultimately show ?thesis using IH(3) by (simp add: distinct_touch)
    qed
  qed
qed

lemma resolve_all_keys:
  "cache_wf c \<Longrightarrow> cached_keys (resolve_all t es c) = fold (touch kPolicyCacheMaxEntries) (map cache_key es) (cached_keys c)"
  by (induction es rule: rev_induct) (simp_all add: resolve_ref_keys resolve_all_wf)

text \<open>The node of a reference is the node of its key or of no key.\<close>

definition tied :: "policy_cache \<Rightarrow> iterator \<Rightarrow> PolicyCacheKey \<Rightarrow> bool" where
  "tied c r k \<longleftrightarrow> r < next_node c \<and> (\<forall>j. cache_index c j = Some r \<longrightarrow> j = k) \<and> cache_index c k \<in> {None, Some r}"

lemma tied_start: "cache_wf c \<Longrightarrow> cache_index c k = Some r \<Longrightarrow> tied c r k"
  using cache_wfD(2,3) [of c] unfolding tied_def
  by (metis eq_key_imp_eq_value cache_wfD(1) fst_conv insertCI)

lemma tied_resolve:
  assumes "cache_wf c" "tied c r k" "cache_key e \<noteq> k"
  shows "tied (snd (resolve_ref t e c)) r k"
  using assms(1)
proof (cases rule: resolve_ref_cases [of c e t])
  case (hit n x)
  then show ?thesis using assms(2) by (simp add: tied_def)
qed (use assms in \<open>auto simp: tied_def\<close>)

lemma tied_resolve_all:
  "cache_wf c \<Longrightarrow> tied c r k \<Longrightarrow> k \<notin> set (map cache_key es) \<Longrightarrow> tied (resolve_all t es c) r k"
  by (induction es rule: rev_induct) (auto intro: tied_resolve wf_intros)

text \<open>
  C11: a reference returned by the resolution of one message lives exactly as long as fewer than 256
  different other keys are resolved: whatever other messages follow, however many there are, the node it
  points into is still in the list if and only if their keys are fewer than 256.
\<close>

theorem reference_lifetime:
  assumes "cache_wf c" and "resolve_ref t e c = (r, c1)" and "cache_key e \<notin> cache_key ` set es"
  shows "read_ref (resolve_all t es c1) r \<noteq> None \<longleftrightarrow> card (cache_key ` set es) < kPolicyCacheMaxEntries"
proof -
  let ?k = "cache_key e" and ?c = "resolve_all t es c1"
  have c1: "cache_wf c1" "cache_index c1 ?k = Some r"
    using resolve_ref_wf [OF assms(1), of t e] resolve_ref_index [OF assms(1), of t e] assms(2) by simp_all
  then have wf: "cache_wf ?c" and tied: "tied ?c r ?k"
    using assms(3) by (auto intro: resolve_all_wf tied_resolve_all tied_start)
  have "read_ref ?c r \<noteq> None \<longleftrightarrow> ?k \<in> set (cached_keys ?c)"
    using tied unfolding read_ref_live [OF wf] cached_keys_wf(3) [OF wf] tied_def by auto
  moreover obtain ks where ks: "cached_keys c1 = ?k # ks"
    using resolve_ref_keys [OF assms(1), of t e] assms(2) by (auto simp: touch_def kPolicyCacheMaxEntries_def)
  moreover have "?k \<in> set (fold (touch kPolicyCacheMaxEntries) (map cache_key es) (?k # ks)) \<longleftrightarrow>
      card (set (map cache_key es)) < kPolicyCacheMaxEntries"
    using touch_lifetime [of ?k ks "map cache_key es" kPolicyCacheMaxEntries] cached_keys_wf(1) [OF c1(1)] ks assms(3)
    by (auto simp: kPolicyCacheMaxEntries_def not_less)
  ultimately show ?thesis by (simp add: resolve_all_keys [OF c1(1)])
qed

text \<open>256 messages with topics of different lengths.\<close>

definition other_topics :: "nat \<Rightarrow> MessageEnvelope list" where
  "other_topics n = map (\<lambda>i. sample_envelope\<lparr>topic := replicate i (CHR ''a'')\<rparr>) [0..<n]"

lemma other_topics_keys:
  "card (cache_key ` set (other_topics n)) = n" "cache_key sample_envelope \<notin> cache_key ` set (other_topics n)"
proof -
  have "inj_on (\<lambda>i. cache_key (sample_envelope\<lparr>topic := replicate i (CHR ''a'')\<rparr>)) {0..<n}"
    by (rule inj_onI) (auto simp: cache_key_def dest: arg_cong [where f = length])
  then show "card (cache_key ` set (other_topics n)) = n"
    by (simp add: other_topics_def image_image card_image)
  have "replicate i (CHR ''a'') \<noteq> ''brake''" for i by (cases i) auto
  then show "cache_key sample_envelope \<notin> cache_key ` set (other_topics n)"
    by (auto simp: other_topics_def cache_key_def sample_envelope_def) metis+
qed

theorem reference_lifetime_witness:
  "let t = default_PolicyTable; rc = resolve_ref t sample_envelope empty_cache in
     read_ref (resolve_all t (other_topics 255) (snd rc)) (fst rc) \<noteq> None \<and>
     read_ref (resolve_all t (other_topics 256) (snd rc)) (fst rc) = None"
  using reference_lifetime [OF cache_wf_empty prod.collapse [symmetric] other_topics_keys(2), of default_PolicyTable 255]
    reference_lifetime [OF cache_wf_empty prod.collapse [symmetric] other_topics_keys(2), of default_PolicyTable 256]
  by (simp add: Let_def other_topics_keys(1) kPolicyCacheMaxEntries_def)

section \<open>Many threads\<close>

text \<open>
  Where a thread of \<^verbatim>\<open>ResolvePolicy\<close> is: outside; after a miss, with what the table resolved; or using the
  reference it was given. \<^verbatim>\<open>ResolvePolicyInternal\<close> itself returns a reference into the table; the model lets
  it keep a copy, so the table being replaced under it is harmless here.
\<close>

datatype resolve_pc =
    Apart
  | Missed MessageEnvelope PolicyCacheEntry
  | Using MessageEnvelope iterator

text \<open>
  A reload replaces the configuration, clears the cache, and then accepts the new configuration or puts the
  previous one back; \<open>previous\<close> is the table to go back to between the two.
\<close>

record cache_world =
  world_table :: BridgePolicyTable
  shared_cache :: policy_cache
  previous :: "BridgePolicyTable option"
  resolvers :: "resolve_pc list"

definition clear_policy_cache :: "policy_cache \<Rightarrow> policy_cache" where
  "clear_policy_cache c = c\<lparr>cache_items := [], cache_index := Map.empty\<rparr>"

inductive resolve_step :: "MessageEnvelope set \<Rightarrow> cache_world \<Rightarrow> cache_world \<Rightarrow> bool" for E where
  lookup_hit: "i < length (resolvers w) \<Longrightarrow> resolvers w ! i = Apart \<Longrightarrow> e \<in> E \<Longrightarrow>
     LookupPolicyCache (shared_cache w) (cache_key e) = (Some entry, c) \<Longrightarrow>
     resolve_step E w (w\<lparr>shared_cache := c, resolvers := (resolvers w)[i := Using e (front_ref c)]\<rparr>)"
| lookup_miss: "i < length (resolvers w) \<Longrightarrow> resolvers w ! i = Apart \<Longrightarrow> e \<in> E \<Longrightarrow>
     LookupPolicyCache (shared_cache w) (cache_key e) = (None, c) \<Longrightarrow>
     resolve_step E w (w\<lparr>shared_cache := c, resolvers := (resolvers w)[i := Missed e (entry_of (world_table w) e)]\<rparr>)"
| store: "i < length (resolvers w) \<Longrightarrow> resolvers w ! i = Missed e entry \<Longrightarrow>
     StorePolicyCache (shared_cache w) (cache_key e) entry = (stored, c) \<Longrightarrow>
     resolve_step E w (w\<lparr>shared_cache := c, resolvers := (resolvers w)[i := Using e (front_ref c)]\<rparr>)"
| done_using: "i < length (resolvers w) \<Longrightarrow> resolvers w ! i = Using e r \<Longrightarrow>
     resolve_step E w (w\<lparr>resolvers := (resolvers w)[i := Apart]\<rparr>)"

inductive reload_step :: "cache_world \<Rightarrow> cache_world \<Rightarrow> bool" where
  install: "previous w = None \<Longrightarrow>
     reload_step w (w\<lparr>world_table := t, shared_cache := clear_policy_cache (shared_cache w), previous := Some (world_table w)\<rparr>)"
| commit: "previous w = Some t \<Longrightarrow> reload_step w (w\<lparr>previous := None\<rparr>)"
| roll_back: "previous w = Some t \<Longrightarrow> reload_step w (w\<lparr>world_table := t, previous := None\<rparr>)"

definition resolve_init :: "BridgePolicyTable \<Rightarrow> nat \<Rightarrow> cache_world" where
  "resolve_init t n = \<lparr>world_table = t, shared_cache = empty_cache, previous = None, resolvers = replicate n Apart\<rparr>"

text \<open>The states reached without a reload, and with any number of them.\<close>

inductive resolve_reachable :: "MessageEnvelope set \<Rightarrow> cache_world \<Rightarrow> cache_world \<Rightarrow> bool" for E w0 where
  here: "resolve_reachable E w0 w0"
| next_step: "resolve_reachable E w0 w \<Longrightarrow> resolve_step E w w' \<Longrightarrow> resolve_reachable E w0 w'"

inductive reload_reachable :: "MessageEnvelope set \<Rightarrow> cache_world \<Rightarrow> cache_world \<Rightarrow> bool" for E w0 where
  start: "reload_reachable E w0 w0"
| by_resolver: "reload_reachable E w0 w \<Longrightarrow> resolve_step E w w' \<Longrightarrow> reload_reachable E w0 w'"
| by_reload: "reload_reachable E w0 w \<Longrightarrow> reload_step w w' \<Longrightarrow> reload_reachable E w0 w'"

text \<open>
  The invariant without reloads: every entry is what the table says of some message with its key, and the
  index still maps the key of every reference to the node of the reference.
\<close>

definition entries_from :: "BridgePolicyTable \<Rightarrow> MessageEnvelope set \<Rightarrow> policy_cache \<Rightarrow> bool" where
  "entries_from t E c \<longleftrightarrow> (\<forall>(k, v) \<in> set (cache_view c). \<exists>e \<in> E. k = cache_key e \<and> v = entry_of t e)"

fun pc_ok :: "BridgePolicyTable \<Rightarrow> MessageEnvelope set \<Rightarrow> policy_cache \<Rightarrow> resolve_pc \<Rightarrow> bool" where
  "pc_ok t E c Apart \<longleftrightarrow> True"
| "pc_ok t E c (Missed e v) \<longleftrightarrow> e \<in> E \<and> v = entry_of t e"
| "pc_ok t E c (Using e r) \<longleftrightarrow> e \<in> E \<and> cache_index c (cache_key e) = Some r"

definition resolve_inv :: "BridgePolicyTable \<Rightarrow> MessageEnvelope set \<Rightarrow> cache_world \<Rightarrow> bool" where
  "resolve_inv t E w \<longleftrightarrow> world_table w = t \<and> cache_wf (shared_cache w) \<and> entries_from t E (shared_cache w) \<and>
     (\<forall>pc \<in> set (resolvers w). pc_ok t E (shared_cache w) pc)"

lemma entries_from_lookup:
  "cache_wf c \<Longrightarrow> entries_from t E c \<Longrightarrow> entries_from t E (snd (LookupPolicyCache c k))"
  by (auto simp: entries_from_def Lookup_view split: option.split dest!: map_of_SomeD)

lemma entries_from_store:
  "cache_wf c \<Longrightarrow> entries_from t E c \<Longrightarrow> e \<in> E \<Longrightarrow> entries_from t E (snd (StorePolicyCache c (cache_key e) (entry_of t e)))"
  by (fastforce simp: entries_from_def Store_view dest!: in_set_takeD)

text \<open>With no more than 256 keys about, a store never evicts.\<close>

lemma entries_from_room:
  assumes "cache_wf c" "entries_from t E c" "finite (cache_key ` E)" "card (cache_key ` E) \<le> kPolicyCacheMaxEntries"
    and "e \<in> E" "cache_index c (cache_key e) = None"
  shows "length (cache_items c) < kPolicyCacheMaxEntries"
proof -
  have "set (cached_keys c) \<subseteq> cache_key ` E" using assms(2) by (force simp: entries_from_def cached_keys_def)
  moreover have "cache_key e \<notin> set (cached_keys c)" using assms(6) cached_keys_wf(3) [OF assms(1)] by simp
  ultimately have "set (cached_keys c) \<subset> cache_key ` E" using assms(5) by auto
  from psubset_card_mono [OF assms(3) this] show ?thesis
    using assms(4) distinct_card [OF cached_keys_wf(1) [OF assms(1)]] by (simp add: cached_keys_def)
qed

lemma pc_ok_same_index: "cache_index c' = cache_index c \<Longrightarrow> pc_ok t E c' pc = pc_ok t E c pc"
  by (cases pc) simp_all

lemma pc_ok_pushed:
  assumes "pc_ok t E c pc" "cache_index c k = None"
  shows "pc_ok t E (pushed c k v) pc"
  using assms by (cases pc) auto

text \<open>A step of one thread replaces its program counter and leaves the others sound.\<close>

lemma others_ok:
  assumes "\<forall>pc \<in> set pcs. pc_ok t E c pc" "\<And>pc. pc_ok t E c pc \<Longrightarrow> pc_ok t E c' pc" "pc_ok t E c' pc'"
  shows "\<forall>pc \<in> set (pcs[i := pc']). pc_ok t E c' pc"
  using assms set_update_subset_insert [of pcs i pc'] by blast

lemma resolve_inv_step:
  assumes step: "resolve_step E w w'" and inv: "resolve_inv t E w"
    and room: "finite (cache_key ` E)" "card (cache_key ` E) \<le> kPolicyCacheMaxEntries"
  shows "resolve_inv t E w'"
proof -
  let ?c = "shared_cache w"
  have wf: "cache_wf ?c" and ent: "entries_from t E ?c" and pcs: "\<forall>pc \<in> set (resolvers w). pc_ok t E ?c pc"
    and t: "world_table w = t"
    using inv by (simp_all add: resolve_inv_def)
  from step show ?thesis
  proof cases
    case (lookup_hit i e entry c)
    from wf have "cache_index c = cache_index ?c \<and> cache_index ?c (cache_key e) = Some (front_ref c)"
      using lookup_hit(5) by (cases rule: Lookup_cases [of ?c "cache_key e"]) auto
    then have "\<forall>pc \<in> set ((resolvers w)[i := Using e (front_ref c)]). pc_ok t E c pc"
      by (intro others_ok [OF pcs]) (simp_all add: lookup_hit(4) pc_ok_same_index [of c ?c])
    then show ?thesis
      using lookup_hit t Lookup_wf [OF wf, of "cache_key e"] entries_from_lookup [OF wf ent, of "cache_key e"]
      by (simp add: resolve_inv_def)
  next
    case (lookup_miss i e c)
    from wf have "c = ?c" using lookup_miss(5) by (cases rule: Lookup_cases [of ?c "cache_key e"]) auto
    moreover have "\<forall>pc \<in> set ((resolvers w)[i := Missed e (entry_of t e)]). pc_ok t E ?c pc"
      by (rule others_ok [OF pcs]) (simp_all add: lookup_miss(4))
    ultimately show ?thesis using lookup_miss(1) wf ent t by (simp add: resolve_inv_def)
  next
    case (store i e entry stored c)
    have e: "e \<in> E" "entry = entry_of t e" using pcs store(2,3) nth_mem by fastforce+
    from wf have ok: "(\<forall>pc. pc_ok t E ?c pc \<longrightarrow> pc_ok t E c pc) \<and> cache_index c (cache_key e) = Some (front_ref c)"
    proof (cases rule: Store_cases [of ?c "cache_key e" entry])
      case (present n x)
      then show ?thesis using store(4) pc_ok_same_index [of "moved ?c n x entry" ?c] by simp
    next
      case room
      then show ?thesis using store(4) pc_ok_pushed by simp
    next
      case full
      then show ?thesis using entries_from_room [OF wf ent room e(1)] by simp
    qed
    then have "\<forall>pc \<in> set ((resolvers w)[i := Using e (front_ref c)]). pc_ok t E c pc"
      by (intro others_ok [OF pcs]) (simp_all add: e)
    then show ?thesis
      using store(1,4) t Store_wf [OF wf, of "cache_key e" entry] entries_from_store [OF wf ent e(1)] e(2)
      by (simp add: resolve_inv_def)
  next
    case (done_using i e r)
    have "\<forall>pc \<in> set ((resolvers w)[i := Apart]). pc_ok t E ?c pc" by (rule others_ok [OF pcs]) simp_all
    then show ?thesis using done_using(1) wf ent t by (simp add: resolve_inv_def)
  qed
qed

lemma resolve_inv_reachable:
  assumes "resolve_reachable E (resolve_init t n) w" "finite (cache_key ` E)" "card (cache_key ` E) \<le> kPolicyCacheMaxEntries"
  shows "resolve_inv t E w"
  using assms(1)
proof induction
  case here
  show ?case
    by (auto simp: resolve_inv_def resolve_init_def entries_from_def cache_view_def intro: wf_intros)
      (simp_all add: empty_cache_def)
next
  case (next_step w w')
  show ?case by (rule resolve_inv_step [OF next_step(2,3) assms(2,3)])
qed


text \<open>One thread and one message: a miss and a store.\<close>

lemma empty_lookup: "LookupPolicyCache empty_cache k = (None, empty_cache)"
  by (simp add: Lookup_miss empty_cache_def)

lemma empty_store: "StorePolicyCache empty_cache k v = (Some v, pushed empty_cache k v)"
  by (subst Store_absent) (simp_all add: empty_cache_def kPolicyCacheMaxEntries_def)

lemma one_miss:
  assumes "shared_cache w = empty_cache" "resolvers w = [Apart]"
  shows "resolve_step {e} w (w\<lparr>resolvers := [Missed e (entry_of (world_table w) e)]\<rparr>)"
  using lookup_miss [of 0 w e "{e}" empty_cache] assms by (cases w) (simp add: empty_lookup)

lemma one_store:
  assumes "shared_cache w = empty_cache" "resolvers w = [Missed e v]"
  shows "resolve_step {e} w (w\<lparr>shared_cache := pushed empty_cache (cache_key e) v, resolvers := [Using e 0]\<rparr>)"
  using store [of 0 w e v "Some v" "pushed empty_cache (cache_key e) v" "{e}"] assms
  by (simp add: empty_store) (simp add: empty_cache_def)

definition one_reader :: "BridgePolicyTable \<Rightarrow> MessageEnvelope \<Rightarrow> cache_world" where
  "one_reader t e = \<lparr>world_table = t, shared_cache = pushed empty_cache (cache_key e) (entry_of t e), previous = None,
     resolvers = [Using e 0]\<rparr>"

lemma one_reader_reachable: "resolve_reachable {e} (resolve_init t 1) (one_reader t e)"
proof -
  let ?w = "(resolve_init t 1)\<lparr>resolvers := [Missed e (entry_of t e)]\<rparr>"
  have "resolve_reachable {e} (resolve_init t 1) ?w"
    using next_step [OF here one_miss [of "resolve_init t 1" e]] by (simp add: resolve_init_def)
  from next_step [OF this one_store [of ?w e "entry_of t e"]] show ?thesis
    by (simp add: resolve_init_def one_reader_def)
qed


section \<open>Reloading while messages are resolved\<close>

lemma reload_reachable_resolve: "resolve_reachable E w0 w \<Longrightarrow> reload_reachable E w0 w"
  by (induction rule: resolve_reachable.induct) (auto intro: reload_reachable.intros)

text \<open>
  a reload frees the references in use. With one thread and one message, and whatever the old and the new
  table say, a state is reachable in which the reload is over and the thread still uses a reference whose node
  is no longer in the list: clearing the cache does not wait for the readers.
\<close>

theorem reload_frees_references:
  "\<exists>w r. reload_reachable {e} (resolve_init t 1) w \<and> world_table w = t' \<and> previous w = None \<and>
     Using e r \<in> set (resolvers w) \<and> read_ref (shared_cache w) r = None"
proof -
  let ?w = "(one_reader t e)\<lparr>world_table := t', shared_cache := clear_policy_cache (shared_cache (one_reader t e)), previous := Some t\<rparr>"
  have "reload_reachable {e} (resolve_init t 1) ?w"
    using by_reload [OF reload_reachable_resolve [OF one_reader_reachable] install [where t = t'], of t e]
    by (simp add: one_reader_def)
  from by_reload [OF this commit [of ?w t]] show ?thesis
    by (intro exI [of _ "?w\<lparr>previous := None\<rparr>"] exI [of _ 0])
      (simp add: one_reader_def clear_policy_cache_def read_ref_def)
qed


end
