(* ===== verification/Snapshot_Race.thy ===== *)
theory Snapshot_Race
  imports Bridge_Windows
begin

text \<open>
  \<^verbatim>\<open>DiagnosticsManager::RecordSnapshotWithFields\<close> step by step: it reads the file, truncates it, and writes the
  kept lines through a buffered stream, with no lock, from every thread that publishes. A call alone does what
  the atomic definition says; two calls can destroy the log.
\<close>

section \<open>The steps of a call\<close>

text \<open>
  Where a call is: before it opened the file, with the entry it will add; with the lines it keeps; writing, at a
  position of the file and with the text its stream still buffers; done.
\<close>

datatype snap_pc =
    Entering string
  | Loaded "string list"
  | Flushing nat string
  | Returned

record snap_world =
  snap_file :: "string option"
  snap_pcs :: "snap_pc list"

definition lines_of :: "string option \<Rightarrow> string list" where
  "lines_of content = filter (\<lambda>l. l \<noteq> []) (case content of None \<Rightarrow> [] | Some text \<Rightarrow> getlines [] text)"

text \<open>Writing at a position: what lies before and behind stays, a gap is filled with zeros.\<close>

definition write_at :: "nat \<Rightarrow> string \<Rightarrow> string \<Rightarrow> string" where
  "write_at pos bytes old =
     take pos old @ replicate (pos - length old) (CHR 0x00) @ bytes @ drop (pos + length bytes) old"

definition log_text_of :: "string list \<Rightarrow> string" where
  "log_text_of ls = concat (map (\<lambda>l. l @ [newline]) ls)"

inductive snap_step :: "u32 \<Rightarrow> snap_world \<Rightarrow> snap_world \<Rightarrow> bool" for limit where
  load: "i < length (snap_pcs w) \<Longrightarrow> snap_pcs w ! i = Entering entry \<Longrightarrow>
     snap_step limit w (w\<lparr>snap_pcs := (snap_pcs w)[i := Loaded (pop_over (max 1 (unat limit)) (lines_of (snap_file w) @ [entry]))]\<rparr>)"
| truncate: "i < length (snap_pcs w) \<Longrightarrow> snap_pcs w ! i = Loaded kept \<Longrightarrow>
     snap_step limit w (w\<lparr>snap_file := Some [], snap_pcs := (snap_pcs w)[i := Flushing 0 (log_text_of kept)]\<rparr>)"
| flush: "i < length (snap_pcs w) \<Longrightarrow> snap_pcs w ! i = Flushing pos buffered \<Longrightarrow> snap_file w = Some old \<Longrightarrow>
     0 < n \<Longrightarrow> n \<le> length buffered \<Longrightarrow>
     snap_step limit w (w\<lparr>snap_file := Some (write_at pos (take n buffered) old),
       snap_pcs := (snap_pcs w)[i := Flushing (pos + n) (drop n buffered)]\<rparr>)"
| close: "i < length (snap_pcs w) \<Longrightarrow> snap_pcs w ! i = Flushing pos [] \<Longrightarrow>
     snap_step limit w (w\<lparr>snap_pcs := (snap_pcs w)[i := Returned]\<rparr>)"

inductive snap_reachable :: "u32 \<Rightarrow> string option \<Rightarrow> string list \<Rightarrow> snap_world \<Rightarrow> bool" for limit content entries where
  snap_start: "snap_reachable limit content entries \<lparr>snap_file = content, snap_pcs = map Entering entries\<rparr>"
| snap_next: "snap_reachable limit content entries w \<Longrightarrow> snap_step limit w w' \<Longrightarrow> snap_reachable limit content entries w'"

section \<open>A call alone\<close>

lemma write_at_end [simp]: "write_at (length old) bytes old = old @ bytes"
  by (simp add: write_at_def)

text \<open>What the file and the buffer of a lone call hold together.\<close>

fun alone_ok :: "u32 \<Rightarrow> string option \<Rightarrow> string \<Rightarrow> string option \<Rightarrow> snap_pc list \<Rightarrow> bool" where
  "alone_ok limit content entry f [Entering e] \<longleftrightarrow> e = entry \<and> f = content"
| "alone_ok limit content entry f [Loaded ls] \<longleftrightarrow>
     ls = pop_over (max 1 (unat limit)) (lines_of content @ [entry]) \<and> f = content"
| "alone_ok limit content entry f [Flushing pos rest] \<longleftrightarrow>
     (\<exists>done. f = Some done \<and> pos = length done \<and>
        done @ rest = log_text_of (pop_over (max 1 (unat limit)) (lines_of content @ [entry])))"
| "alone_ok limit content entry f [Returned] \<longleftrightarrow>
     f = Some (log_text_of (pop_over (max 1 (unat limit)) (lines_of content @ [entry])))"
| "alone_ok limit content entry f _ \<longleftrightarrow> False"

lemma alone_inv:
  assumes "snap_reachable limit content [entry] w"
  shows "alone_ok limit content entry (snap_file w) (snap_pcs w)"
  using assms
proof induction
  case snap_start
  then show ?case by simp
next
  case (snap_next w w')
  obtain pc where pcs: "snap_pcs w = [pc]" using snap_next.IH by (cases "(limit, content, entry, snap_file w, snap_pcs w)" rule: alone_ok.cases) auto
  from snap_next.hyps(2) show ?case
  proof cases
    case (flush i pos buffered old n)
    then have "pc = Flushing pos buffered" using pcs by simp
    then have "pos = length old" "old @ buffered = log_text_of (pop_over (max 1 (unat limit)) (lines_of content @ [entry]))"
      using snap_next.IH pcs flush by auto
    moreover have "(old @ take n buffered) @ drop n buffered = old @ buffered" by simp
    ultimately show ?thesis using flush pcs by (simp only: alone_ok.simps) auto
  qed (use snap_next.IH pcs in auto)
qed

text \<open>
  alone, the steps of a call write what the atomic operation writes. Whatever pieces the stream is flushed
  in, when the only call on a file has returned, the file holds what \<^verbatim>\<open>RecordSnapshotWithFields\<close> leaves there.
\<close>

theorem snapshot_steps_refine:
  assumes "snap_reachable limit (fs path) [snapshot_entry now event parts] w" and "snap_pcs w = [Returned]"
    and "path \<noteq> []" and "can_write path"
  shows "RecordSnapshotWithFields can_write now path limit event parts fs = fs(path := snap_file w)"
  using alone_inv [OF assms(1)] assms(2-4)
  by (simp add: RecordSnapshotWithFields_def Let_def log_text_of_def lines_of_def fun_upd_def)

section \<open>Two calls\<close>

lemma flush_all:
  "i < length (snap_pcs w) \<Longrightarrow> snap_pcs w ! i = Flushing 0 text0 \<Longrightarrow> text0 \<noteq> [] \<Longrightarrow> snap_file w = Some [] \<Longrightarrow>
     snap_step limit w (w\<lparr>snap_file := Some text0, snap_pcs := (snap_pcs w)[i := Flushing (length text0) []]\<rparr>)"
  using flush [of i w 0 text0 "[]" "length text0" limit] by (simp add: write_at_def)

lemma snap_load:
  "snap_reachable limit c es \<lparr>snap_file = f, snap_pcs = pcs\<rparr> \<Longrightarrow> i < length pcs \<Longrightarrow> pcs ! i = Entering e \<Longrightarrow>
     snap_reachable limit c es \<lparr>snap_file = f, snap_pcs = pcs[i := Loaded (pop_over (max 1 (unat limit)) (lines_of f @ [e]))]\<rparr>"
  using snap_next [OF _ load [of i "\<lparr>snap_file = f, snap_pcs = pcs\<rparr>" e]] by simp

lemma snap_truncate:
  "snap_reachable limit c es \<lparr>snap_file = f, snap_pcs = pcs\<rparr> \<Longrightarrow> i < length pcs \<Longrightarrow> pcs ! i = Loaded ls \<Longrightarrow>
     snap_reachable limit c es \<lparr>snap_file = Some [], snap_pcs = pcs[i := Flushing 0 (log_text_of ls)]\<rparr>"
  using snap_next [OF _ truncate [of i "\<lparr>snap_file = f, snap_pcs = pcs\<rparr>" ls]] by simp

lemma snap_finish:
  assumes "snap_reachable limit c es \<lparr>snap_file = Some [], snap_pcs = pcs\<rparr>" "i < length pcs"
    "pcs ! i = Flushing 0 text0" "text0 \<noteq> []"
  shows "snap_reachable limit c es \<lparr>snap_file = Some text0, snap_pcs = pcs[i := Returned]\<rparr>"
proof -
  have "snap_reachable limit c es \<lparr>snap_file = Some text0, snap_pcs = pcs[i := Flushing (length text0) []]\<rparr>"
    using snap_next [OF assms(1) flush_all [of i _ text0]] assms(2-4) by simp
  from snap_next [OF this close [of i _ "length text0"]] show ?thesis using assms(2) by simp
qed

lemma log_text_ne: "ls \<noteq> [] \<Longrightarrow> log_text_of ls \<noteq> []"
  by (cases ls) (simp_all add: log_text_of_def)

lemma pop_over_last: "pop_over (max 1 n) (ls @ [e]) \<noteq> []"
  by (simp add: pop_over_drop)

lemma one_call_returns:
  "snap_reachable limit c [e] \<lparr>snap_file = Some (log_text_of (pop_over (max 1 (unat limit)) (lines_of c @ [e]))), snap_pcs = [Returned]\<rparr>"
proof -
  have "snap_reachable limit c [e] \<lparr>snap_file = c, snap_pcs = [Entering e]\<rparr>"
    using snap_start [of limit c "[e]"] by simp
  from snap_truncate [OF snap_load [OF this, of 0 e], of 0]
  have "snap_reachable limit c [e]
      \<lparr>snap_file = Some [], snap_pcs = [Flushing 0 (log_text_of (pop_over (max 1 (unat limit)) (lines_of c @ [e])))]\<rparr>" by simp
  from snap_finish [OF this, of 0, OF _ _ log_text_ne [OF pop_over_last]] show ?thesis by simp
qed

theorem snapshot_steps_refine_witness:
  "let e = snapshot_entry 7 ''canary_skip'' [] in
   RecordSnapshotWithFields (\<lambda>_. True) 7 ''log'' 64 ''canary_skip'' [] Map.empty =
     Map.empty(''log'' := Some (log_text_of (pop_over (max 1 (unat (64 :: u32))) (lines_of None @ [e]))))"
  using snapshot_steps_refine [where fs = Map.empty and path = "''log''" and limit = 64 and now = 7
      and event = "''canary_skip''" and parts = "[]" and can_write = "\<lambda>_. True", OF one_call_returns]
  by (simp add: Let_def)

text \<open>Both calls load the file, then write one after the other.\<close>

lemma first_record_lost:
  "snap_reachable limit c [e1, e2]
     \<lparr>snap_file = Some (log_text_of (pop_over (max 1 (unat limit)) (lines_of c @ [e2]))), snap_pcs = [Returned, Returned]\<rparr>"
proof -
  let ?k = "\<lambda>e. pop_over (max 1 (unat limit)) (lines_of c @ [e])"
  have ne: "log_text_of (?k e) \<noteq> []" for e by (rule log_text_ne [OF pop_over_last])
  have "snap_reachable limit c [e1, e2] \<lparr>snap_file = c, snap_pcs = [Entering e1, Entering e2]\<rparr>"
    using snap_start [of limit c "[e1, e2]"] by simp
  from snap_load [OF this, of 0 e1]
  have "snap_reachable limit c [e1, e2] \<lparr>snap_file = c, snap_pcs = [Loaded (?k e1), Entering e2]\<rparr>" by simp
  from snap_load [OF this, of 1 e2]
  have "snap_reachable limit c [e1, e2] \<lparr>snap_file = c, snap_pcs = [Loaded (?k e1), Loaded (?k e2)]\<rparr>" by simp
  from snap_truncate [OF this, of 0 "?k e1"]
  have "snap_reachable limit c [e1, e2] \<lparr>snap_file = Some [], snap_pcs = [Flushing 0 (log_text_of (?k e1)), Loaded (?k e2)]\<rparr>" by simp
  from snap_finish [OF this, of 0, OF _ _ ne]
  have "snap_reachable limit c [e1, e2] \<lparr>snap_file = Some (log_text_of (?k e1)), snap_pcs = [Returned, Loaded (?k e2)]\<rparr>" by simp
  from snap_truncate [OF this, of 1 "?k e2"]
  have "snap_reachable limit c [e1, e2] \<lparr>snap_file = Some [], snap_pcs = [Returned, Flushing 0 (log_text_of (?k e2))]\<rparr>" by simp
  from snap_finish [OF this, of 1, OF _ _ ne] show ?thesis by simp
qed

text \<open>The second call loads the file while the first has truncated it and not yet written.\<close>

lemma whole_log_lost:
  "snap_reachable limit c [e1, e2] \<lparr>snap_file = Some (log_text_of [e2]), snap_pcs = [Returned, Returned]\<rparr>"
proof -
  let ?k = "pop_over (max 1 (unat limit)) (lines_of c @ [e1])"
  have ne: "log_text_of ?k \<noteq> []" by (rule log_text_ne [OF pop_over_last])
  have "snap_reachable limit c [e1, e2] \<lparr>snap_file = c, snap_pcs = [Entering e1, Entering e2]\<rparr>"
    using snap_start [of limit c "[e1, e2]"] by simp
  from snap_load [OF this, of 0 e1]
  have "snap_reachable limit c [e1, e2] \<lparr>snap_file = c, snap_pcs = [Loaded ?k, Entering e2]\<rparr>" by simp
  from snap_truncate [OF this, of 0 ?k]
  have "snap_reachable limit c [e1, e2] \<lparr>snap_file = Some [], snap_pcs = [Flushing 0 (log_text_of ?k), Entering e2]\<rparr>" by simp
  from snap_load [OF this, of 1 e2]
  have "snap_reachable limit c [e1, e2] \<lparr>snap_file = Some [], snap_pcs = [Flushing 0 (log_text_of ?k), Loaded [e2]]\<rparr>"
    by (simp add: lines_of_def)
  from snap_finish [OF this, of 0, OF _ _ ne]
  have "snap_reachable limit c [e1, e2] \<lparr>snap_file = Some (log_text_of ?k), snap_pcs = [Returned, Loaded [e2]]\<rparr>" by simp
  from snap_truncate [OF this, of 1 "[e2]"]
  have "snap_reachable limit c [e1, e2] \<lparr>snap_file = Some [], snap_pcs = [Returned, Flushing 0 (log_text_of [e2])]\<rparr>" by simp
  from snap_finish [OF this, of 1, OF _ _ log_text_ne] show ?thesis by simp
qed

text \<open>
  two calls at the same time lose records. For every file, limit and pair of entries there is an
  interleaving after which both calls have returned and the first entry is nowhere in the file, and one after
  which the file holds the second entry alone, the whole log that was there before being lost.
\<close>

theorem snapshot_calls_collide:
  "(\<exists>w. snap_reachable limit c [e1, e2] w \<and> snap_pcs w = [Returned, Returned] \<and>
      snap_file w = Some (log_text_of (pop_over (max 1 (unat limit)) (lines_of c @ [e2])))) \<and>
   (\<exists>w. snap_reachable limit c [e1, e2] w \<and> snap_pcs w = [Returned, Returned] \<and>
      snap_file w = Some (log_text_of [e2]))"
  by (metis first_record_lost whole_log_lost snap_world.select_convs(1,2))

text \<open>
  Entries are not escaped: a line break in a topic (or any field) splits the record, and the next call counts
  and keeps its halves as two lines.
\<close>

theorem snapshot_entry_splits:
  "file_lines (RecordSnapshotWithFields (\<lambda>_. True) 7 ''log'' 8 ''e'' [(''topic'', ''a'' @ newline # ''b'')] Map.empty) ''log'' =
     [takeWhile (\<lambda>ch. ch \<noteq> newline) (snapshot_entry 7 ''e'' [(''topic'', ''a'' @ newline # ''b'')]), [CHR ''b'', CHR 0x22, CHR ''}'']]"
  by (simp add: RecordSnapshotWithFields_def Let_def file_lines_def snapshot_entry_def newline_def show_nat.simps digit_char_def)

end
