(* ===== verification/Queue_Flags.thy ===== *)
theory Queue_Flags
  imports Posix_Message_Queue
begin

text \<open>
  \<^verbatim>\<open>SetQueueNonBlocking\<close> and \<^verbatim>\<open>RestoreQueueFlags\<close> of \<^verbatim>\<open>ipc/posix_message_queue.cpp\<close> with many threads. The
  non-blocking bit belongs to the open queue, not to the call: two publishers that discard the oldest message
  at the same time save and restore the same bit. Each system call is a step, and the steps of any number of
  threads interleave in every order.
\<close>

section \<open>The steps\<close>

text \<open>
  Where a thread is: outside the two non-blocking operations; after \<^verbatim>\<open>mq_getattr\<close>, with the flags it read;
  after \<^verbatim>\<open>mq_setattr\<close>, around the send or receive, with the flags it will restore.
\<close>

datatype flags_pc = Clear | Saved bool | Changed bool

record flags_world =
  nonblocking :: bool
  callers :: "flags_pc list"

inductive flags_step :: "nat \<Rightarrow> flags_world \<Rightarrow> flags_world \<Rightarrow> bool" for i where
  get_attr: "i < length (callers w) \<Longrightarrow> callers w ! i = Clear \<Longrightarrow>
     flags_step i w (w\<lparr>callers := (callers w)[i := Saved (nonblocking w)]\<rparr>)"
| set_attr: "i < length (callers w) \<Longrightarrow> callers w ! i = Saved original_flags \<Longrightarrow>
     flags_step i w (w\<lparr>nonblocking := True, callers := (callers w)[i := Changed original_flags]\<rparr>)"
| set_attr_fails: "i < length (callers w) \<Longrightarrow> callers w ! i = Saved original_flags \<Longrightarrow>
     flags_step i w (w\<lparr>callers := (callers w)[i := Clear]\<rparr>)"
| restore_flags: "i < length (callers w) \<Longrightarrow> callers w ! i = Changed original_flags \<Longrightarrow>
     flags_step i w (w\<lparr>nonblocking := original_flags, callers := (callers w)[i := Clear]\<rparr>)"

text \<open>Any interleaving; and the ones in which a thread moves only while the others are outside.\<close>

inductive flags_reach :: "flags_world \<Rightarrow> flags_world \<Rightarrow> bool" for w0 where
  flags_here: "flags_reach w0 w0"
| flags_next: "flags_reach w0 w \<Longrightarrow> flags_step i w w' \<Longrightarrow> flags_reach w0 w'"

inductive flags_reach_exclusive :: "flags_world \<Rightarrow> flags_world \<Rightarrow> bool" for w0 where
  exclusive_here: "flags_reach_exclusive w0 w0"
| exclusive_next: "flags_reach_exclusive w0 w \<Longrightarrow> flags_step i w w' \<Longrightarrow>
     \<forall>j < length (callers w). j \<noteq> i \<longrightarrow> callers w ! j = Clear \<Longrightarrow> flags_reach_exclusive w0 w'"

definition idle_flags :: "bool \<Rightarrow> nat \<Rightarrow> flags_world" where
  "idle_flags b n = \<lparr>nonblocking = b, callers = replicate n Clear\<rparr>"

section \<open>One call at a time\<close>

text \<open>At most one thread is inside, and it will put back the flags the queue had.\<close>

definition exclusive_inv :: "bool \<Rightarrow> flags_world \<Rightarrow> bool" where
  "exclusive_inv b w \<longleftrightarrow>
     (nonblocking w = b \<and> (\<forall>pc \<in> set (callers w). pc = Clear)) \<or>
     (\<exists>i < length (callers w). (\<forall>j < length (callers w). j \<noteq> i \<longrightarrow> callers w ! j = Clear) \<and>
        ((callers w ! i = Saved b \<and> nonblocking w = b) \<or> callers w ! i = Changed b))"

lemma all_clear:
  assumes "\<forall>j < length pcs. j \<noteq> i \<longrightarrow> pcs ! j = Clear"
  shows "\<forall>pc \<in> set (pcs[i := Clear]). pc = Clear"
proof
  fix pc assume "pc \<in> set (pcs[i := Clear])"
  then obtain j where "j < length pcs" "pc = pcs[i := Clear] ! j" by (auto simp: in_set_conv_nth)
  then show "pc = Clear" using assms by (cases "j = i") simp_all
qed

lemma exclusive_inv_step:
  assumes "exclusive_inv b w" "flags_step i w w'" "\<forall>j < length (callers w). j \<noteq> i \<longrightarrow> callers w ! j = Clear"
  shows "exclusive_inv b w'"
  using assms(2)
proof cases
  case get_attr
  then have "\<forall>pc \<in> set (callers w). pc = Clear" using assms(3) by (metis in_set_conv_nth)
  then have "nonblocking w = b" using assms(1) unfolding exclusive_inv_def by (metis flags_pc.distinct(1,3) nth_mem)
  then show ?thesis using get_attr assms(3) by (auto simp: exclusive_inv_def intro!: exI [of _ i])
next
  case (set_attr f)
  have "f = b" using assms(1) set_attr(2,3) unfolding exclusive_inv_def
    by (metis flags_pc.distinct(1,5) flags_pc.inject(1) nth_mem)
  then show ?thesis using set_attr assms(3) by (auto simp: exclusive_inv_def intro!: exI [of _ i])
next
  case (set_attr_fails f)
  have "nonblocking w = b" using assms(1) set_attr_fails(2,3) unfolding exclusive_inv_def
    by (metis flags_pc.distinct(1,5) nth_mem)
  moreover have "\<forall>pc \<in> set ((callers w)[i := Clear]). pc = Clear"
    using all_clear [OF assms(3)] .
  ultimately show ?thesis using set_attr_fails by (simp add: exclusive_inv_def)
next
  case (restore_flags f)
  have "f = b" using assms(1) restore_flags(2,3) unfolding exclusive_inv_def
    by (metis flags_pc.distinct(3,5) flags_pc.inject(2) nth_mem)
  moreover have "\<forall>pc \<in> set ((callers w)[i := Clear]). pc = Clear"
    using all_clear [OF assms(3)] .
  ultimately show ?thesis using restore_flags by (simp add: exclusive_inv_def)
qed

text \<open>
  As long as the non-blocking operations on a queue do not overlap, the queue is in its original mode whenever
  no thread is inside one, also after calls whose \<^verbatim>\<open>mq_setattr\<close> failed.
\<close>

theorem flags_restored:
  assumes "flags_reach_exclusive (idle_flags b n) w" and "\<forall>pc \<in> set (callers w). pc = Clear"
  shows "nonblocking w = b"
proof -
  have "exclusive_inv b w" using assms(1)
  proof induction
    case exclusive_here
    then show ?case by (simp add: exclusive_inv_def idle_flags_def)
  next
    case (exclusive_next w i w')
    then show ?case using exclusive_inv_step by blast
  qed
  then show ?thesis using assms(2) by (auto simp: exclusive_inv_def) (metis flags_pc.distinct(1,3) nth_mem)+
qed

section \<open>Two calls at a time\<close>

text \<open>Once the bit is set while nobody is inside, every call reads it, and puts it back.\<close>

definition stuck :: "flags_world \<Rightarrow> bool" where
  "stuck w \<longleftrightarrow> nonblocking w \<and> set (callers w) \<subseteq> {Clear, Saved True, Changed True}"

lemma stuck_step:
  assumes "stuck w" "flags_step i w w'"
  shows "stuck w'"
  using assms(2)
proof cases
  case get_attr
  then show ?thesis using assms(1) set_update_subset_insert [of "callers w" i "Saved True"] by (auto simp: stuck_def)
next
  case (set_attr f)
  then have "f = True" using assms(1) by (fastforce simp: stuck_def dest: nth_mem)
  then show ?thesis using set_attr assms(1) set_update_subset_insert [of "callers w" i "Changed True"] by (auto simp: stuck_def)
next
  case (set_attr_fails f)
  then show ?thesis using assms(1) set_update_subset_insert [of "callers w" i Clear] by (auto simp: stuck_def)
next
  case (restore_flags f)
  then have "f = True" using assms(1) by (fastforce simp: stuck_def dest: nth_mem)
  then show ?thesis using restore_flags assms(1) set_update_subset_insert [of "callers w" i Clear] by (auto simp: stuck_def)
qed

lemma stuck_forever: "flags_reach w w' \<Longrightarrow> stuck w \<Longrightarrow> stuck w'"
  by (induction rule: flags_reach.induct) (auto intro: stuck_step)

lemma overlapping_calls: "flags_reach (idle_flags False 2) (idle_flags True 2)"
proof -
  let ?w = "\<lambda>b pcs. \<lparr>nonblocking = b, callers = pcs\<rparr>"
  have "flags_reach (?w False [Clear, Clear]) (?w False [Saved False, Clear])"
    using flags_next [OF flags_here get_attr [of 0 "?w False [Clear, Clear]"]] by simp
  from flags_next [OF this set_attr [of 0 _ False]]
  have "flags_reach (?w False [Clear, Clear]) (?w True [Changed False, Clear])" by simp
  from flags_next [OF this get_attr [of 1]]
  have "flags_reach (?w False [Clear, Clear]) (?w True [Changed False, Saved True])" by simp
  from flags_next [OF this restore_flags [of 0 _ False]]
  have "flags_reach (?w False [Clear, Clear]) (?w False [Clear, Saved True])" by simp
  from flags_next [OF this set_attr [of 1 _ True]]
  have "flags_reach (?w False [Clear, Clear]) (?w True [Clear, Changed True])" by simp
  from flags_next [OF this restore_flags [of 1 _ True]]
  have "flags_reach (?w False [Clear, Clear]) (?w True [Clear, Clear])" by simp
  then show ?thesis by (simp add: idle_flags_def numeral_2_eq_2)
qed

text \<open>
  C27: two overlapping calls can leave a queue non-blocking for good. From a queue in blocking mode with two
  threads outside, a state is reachable in which both threads have finished their non-blocking operations and
  the queue is non-blocking, and from there every state that any further calls can reach has a non-blocking
  queue: each call finds the bit set and restores it. From then on a receive with a timeout does not wait.
\<close>

theorem overlapping_calls_unblock_for_good:
  "\<exists>w. flags_reach (idle_flags False 2) w \<and> set (callers w) = {Clear} \<and> nonblocking w \<and>
     {w'. flags_reach w w'} \<subseteq> {w'. nonblocking w'}"
proof -
  have "stuck (idle_flags True 2)" by (simp add: stuck_def idle_flags_def numeral_2_eq_2)
  then have "{w'. flags_reach (idle_flags True 2) w'} \<subseteq> {w'. nonblocking w'}"
    using stuck_forever by (auto simp: stuck_def)
  then show ?thesis using overlapping_calls
    by (intro exI [of _ "idle_flags True 2"]) (simp add: idle_flags_def numeral_2_eq_2)
qed

end
