(* ===== verification/Tcp_Concurrency.thy ===== *)
theory Tcp_Concurrency
  imports Tcp_Transport
begin

text \<open>
  Publishers that send on the same TCP connection at the same time. \<^verbatim>\<open>TcpTransport::SendWithTimeout\<close> sends the
  length and then the body, each with a loop of \<^verbatim>\<open>send\<close> calls that take as many bytes as the socket accepts, and
  no lock is held around them; a bridge lets as many publishers in as its flow limit allows. What reaches the
  stream is exactly every shuffle of the frames.
\<close>

section \<open>The steps\<close>

text \<open>The buffers one call hands to \<^verbatim>\<open>SendAll\<close>: the length, and the body when there is one.\<close>

definition send_buffers :: "string \<Rightarrow> string list" where
  "send_buffers m = be32 (of_nat (length m)) # (if (of_nat (length m) :: u32) = 0 then [] else [m])"

text \<open>A thread is what it has yet to send of its buffers; a step is one successful call of \<^verbatim>\<open>send\<close>.\<close>

record senders_world =
  stream :: string
  pending :: "string list list"

inductive sender_step :: "senders_world \<Rightarrow> senders_world \<Rightarrow> bool" where
  send_some: "i < length (pending w) \<Longrightarrow> pending w ! i = buf # bufs \<Longrightarrow> 0 < n \<Longrightarrow> n \<le> length buf \<Longrightarrow>
     sender_step w (w\<lparr>stream := stream w @ take n buf,
       pending := (pending w)[i := (if n = length buf then bufs else drop n buf # bufs)]\<rparr>)"

inductive senders_reach :: "senders_world \<Rightarrow> senders_world \<Rightarrow> bool" for w0 where
  senders_here: "senders_reach w0 w0"
| senders_next: "senders_reach w0 w \<Longrightarrow> sender_step w w' \<Longrightarrow> senders_reach w0 w'"

lemma senders_reach_trans: "senders_reach v w \<Longrightarrow> senders_reach u v \<Longrightarrow> senders_reach u w"
  by (induction rule: senders_reach.induct) (auto intro: senders_next)

definition two_senders :: "string \<Rightarrow> string \<Rightarrow> senders_world" where
  "two_senders m1 m2 = \<lparr>stream = [], pending = [send_buffers m1, send_buffers m2]\<rparr>"

lemma concat_buffers: "concat (send_buffers m) = wire m"
  by (simp add: send_buffers_def wire_def)

lemma buffers_nonempty: "[] \<notin> set (send_buffers m)"
proof -
  have "be32 (of_nat (length m)) \<noteq> []" by (metis length_be32 list.size(3) zero_neq_numeral)
  then show ?thesis by (auto simp: send_buffers_def)
qed

section \<open>Shuffles\<close>

lemma shuffles_append_left: "zs \<in> shuffles xs ys \<Longrightarrow> zs @ c \<in> shuffles (xs @ c) ys"
proof (induction xs ys arbitrary: zs rule: shuffles.induct)
  case (1 ys)
  then show ?case by (induction ys arbitrary: zs) (auto simp: Cons_in_shuffles_iff)
qed (auto simp: Cons_in_shuffles_iff)

lemma shuffles_append_right: "zs \<in> shuffles xs ys \<Longrightarrow> zs @ c \<in> shuffles xs (ys @ c)"
  using shuffles_append_left [of zs ys xs c] by (simp add: shuffles_commutes)

lemma shuffles_prefix_left: "zs \<in> shuffles xs ys \<Longrightarrow> c @ zs \<in> shuffles (c @ xs) ys"
  by (induction c) (simp_all add: Cons_in_shuffles_iff)

lemma shuffles_prefix_right: "zs \<in> shuffles xs ys \<Longrightarrow> c @ zs \<in> shuffles xs (c @ ys)"
  by (induction c) (simp_all add: Cons_in_shuffles_iff)

lemma shuffles_ConsE [case_names left right]:
  assumes "ch # zs \<in> shuffles xs ys"
  obtains r where "xs = ch # r" "zs \<in> shuffles r ys" | r where "ys = ch # r" "zs \<in> shuffles xs r"
  using assms that by (cases xs; cases ys) (auto simp: Cons_in_shuffles_iff)

text \<open>What two threads have sent so far is a shuffle of the parts they have sent.\<close>

definition sent_parts :: "string \<Rightarrow> string \<Rightarrow> senders_world \<Rightarrow> bool" where
  "sent_parts f1 f2 w \<longleftrightarrow> (\<exists>s1 s2 b1 b2. pending w = [b1, b2] \<and> stream w \<in> shuffles s1 s2 \<and>
     s1 @ concat b1 = f1 \<and> s2 @ concat b2 = f2)"

lemma sent_parts_step:
  assumes "sent_parts f1 f2 w" "sender_step w w'"
  shows "sent_parts f1 f2 w'"
proof -
  from assms(1) obtain s1 s2 b1 b2 where w: "pending w = [b1, b2]" "stream w \<in> shuffles s1 s2"
    "s1 @ concat b1 = f1" "s2 @ concat b2 = f2"
    unfolding sent_parts_def by blast
  from assms(2) show ?thesis
  proof cases
    case (send_some i buf bufs n)
    let ?rest = "if n = length buf then bufs else drop n buf # bufs" and ?c = "take n buf"
    have c: "?c @ concat ?rest = concat (buf # bufs)" using send_some(5) by simp
    from send_some(2) w(1) consider "i = 0" | "i = 1" by fastforce
    then show ?thesis
    proof cases
      case 1
      then have "b1 = buf # bufs" using send_some(3) w(1) by simp
      with c w(3) have "(s1 @ ?c) @ concat ?rest = f1" by simp
      then show ?thesis using send_some(1) 1 w shuffles_append_left [OF w(2), of ?c]
        by (auto simp: sent_parts_def simp del: concat.simps)
    next
      case 2
      then have "b2 = buf # bufs" using send_some(3) w(1) by simp
      with c w(4) have "(s2 @ ?c) @ concat ?rest = f2" by simp
      then show ?thesis using send_some(1) 2 w shuffles_append_right [OF w(2), of ?c]
        by (auto simp: sent_parts_def simp del: concat.simps)
    qed
  qed
qed

text \<open>Every shuffle of what is pending can be sent, a byte at a time.\<close>

lemma send_byte:
  assumes "[] \<notin> set b" "concat b = ch # rest"
  obtains buf bufs where "b = (ch # buf) # bufs" "[] \<notin> set (if buf = [] then bufs else buf # bufs)"
    "concat (if buf = [] then bufs else buf # bufs) = rest"
  using assms by (cases b; cases "hd b") auto

lemma nothing_pending: "[] \<notin> set b \<Longrightarrow> concat b = [] \<Longrightarrow> b = []"
  by (cases b) auto

lemma shuffle_sent:
  assumes "zs \<in> shuffles (concat b1) (concat b2)" "[] \<notin> set b1" "[] \<notin> set b2"
  shows "senders_reach \<lparr>stream = s, pending = [b1, b2]\<rparr> \<lparr>stream = s @ zs, pending = [[], []]\<rparr>"
  using assms
proof (induction zs arbitrary: s b1 b2)
  case Nil
  then have "concat b1 = []" "concat b2 = []" by (simp_all add: Nil_in_shuffles)
  with Nil.prems(2,3) have "b1 = []" "b2 = []" using nothing_pending by blast+
  then show ?case using senders_here by simp
next
  case (Cons ch zs)
  from Cons.prems(1) show ?case
  proof (cases rule: shuffles_ConsE)
    case (left r)
    obtain buf bufs where b: "b1 = (ch # buf) # bufs" "[] \<notin> set (if buf = [] then bufs else buf # bufs)"
      "concat (if buf = [] then bufs else buf # bufs) = r"
      by (rule send_byte [OF Cons.prems(2) left(1)])
    let ?b = "if buf = [] then bufs else buf # bufs"
    have "senders_reach \<lparr>stream = s, pending = [b1, b2]\<rparr> \<lparr>stream = s @ [ch], pending = [?b, b2]\<rparr>"
      using senders_next [OF senders_here send_some [of 0 "\<lparr>stream = s, pending = [b1, b2]\<rparr>" "ch # buf" bufs 1]] b(1)
      by (auto split: if_splits)
    with Cons.IH [of ?b b2 "s @ [ch]"] b left(2) Cons.prems(3) senders_reach_trans show ?thesis by simp
  next
    case (right r)
    obtain buf bufs where b: "b2 = (ch # buf) # bufs" "[] \<notin> set (if buf = [] then bufs else buf # bufs)"
      "concat (if buf = [] then bufs else buf # bufs) = r"
      by (rule send_byte [OF Cons.prems(3) right(1)])
    let ?b = "if buf = [] then bufs else buf # bufs"
    have "senders_reach \<lparr>stream = s, pending = [b1, b2]\<rparr> \<lparr>stream = s @ [ch], pending = [b1, ?b]\<rparr>"
      using senders_next [OF senders_here send_some [of 1 "\<lparr>stream = s, pending = [b1, b2]\<rparr>" "ch # buf" bufs 1]] b(1)
      by (auto split: if_splits)
    with Cons.IH [of b1 ?b "s @ [ch]"] b right(2) Cons.prems(2) senders_reach_trans show ?thesis by simp
  qed
qed

text \<open>
  C29: the stream that two concurrent sends leave. When both calls have sent everything, the bytes on the stream
  are a shuffle of the two frames, and every shuffle can come out: nothing is lost, doubled or reordered within
  a message, but nothing keeps the frames apart either.
\<close>

theorem concurrent_sends_shuffle:
  "{stream w | w. senders_reach (two_senders m1 m2) w \<and> pending w = [[], []]} = shuffles (wire m1) (wire m2)"
proof (intro equalityI subsetI)
  fix zs
  assume "zs \<in> {stream w | w. senders_reach (two_senders m1 m2) w \<and> pending w = [[], []]}"
  then obtain w where w: "zs = stream w" "senders_reach (two_senders m1 m2) w" "pending w = [[], []]" by blast
  from w(2) have "sent_parts (wire m1) (wire m2) w"
  proof induction
    case senders_here
    then show ?case by (auto simp: sent_parts_def two_senders_def concat_buffers intro!: exI [of _ "[]"])
  next
    case (senders_next w w')
    then show ?case using sent_parts_step by blast
  qed
  with w show "zs \<in> shuffles (wire m1) (wire m2)" by (auto simp: sent_parts_def)
next
  fix zs
  assume "zs \<in> shuffles (wire m1) (wire m2)"
  then have "senders_reach (two_senders m1 m2) \<lparr>stream = zs, pending = [[], []]\<rparr>"
    using shuffle_sent [of zs "send_buffers m1" "send_buffers m2" "[]"]
    by (simp add: concat_buffers buffers_nonempty two_senders_def)
  then show "zs \<in> {stream w | w. senders_reach (two_senders m1 m2) w \<and> pending w = [[], []]}" by force
qed

text \<open>
  One of the shuffles: both lengths before both bodies. Both senders have succeeded, and the receiver gets the
  four bytes of the second length as the first message, with success.
\<close>

theorem concurrent_sends_garble:
  "\<exists>w b'. senders_reach (two_senders ''stop'' ''go'') w \<and> pending w = [[], []] \<and>
     tcp_ReceiveWithTimeout net_api (Some []) (Some 0) 100 \<lparr>socket_fd = 4, net = quiet_net\<lparr>incoming := stream w\<rparr>\<rparr>
       = Some ((kOk, Some (be32 2), Some 0), b')"
proof -
  let ?zs = "be32 4 @ be32 2 @ ''stop'' @ ''go''"
  have "''stop'' @ ''go'' \<in> shuffles ''stop'' ''go''"
    using shuffles_prefix_left [of "''go''" "[]" "''go''" "''stop''"] by simp
  then have "?zs \<in> shuffles (be32 4 @ ''stop'') (be32 2 @ ''go'')"
    by (intro shuffles_prefix_left shuffles_prefix_right)
  then have "?zs \<in> shuffles (wire ''stop'') (wire ''go'')" by (simp add: wire_def)
  then have "senders_reach (two_senders ''stop'' ''go'') \<lparr>stream = ?zs, pending = [[], []]\<rparr>"
    using shuffle_sent [of ?zs "send_buffers ''stop''" "send_buffers ''go''" "[]"]
    by (simp add: concat_buffers buffers_nonempty two_senders_def)
  moreover have "\<exists>b'. tcp_ReceiveWithTimeout net_api (Some []) (Some 0) 100 \<lparr>socket_fd = 4, net = quiet_net\<lparr>incoming := ?zs\<rparr>\<rparr>
      = Some ((kOk, Some (be32 2), Some 0), b')"
    by (simp add: net_run_defs)
  ultimately show ?thesis by force
qed

end
