(* ===== verification/Result_Codes.thy ===== *)
theory Result_Codes
  imports Bridge_Delivery Tcp_Transport
begin

text \<open>
  The error codes of the operations as a type: which codes a transport can return, which ones a publication
  built on it can return, and which of them say that nothing was tried.
\<close>

section \<open>A publication over transports with known codes\<close>

locale coded_transports =
  fixes env :: "'t bridge_env"
    and codes :: "ErrorCode set"
  assumes send_code: "fst (SendWithTimeout (transport_ops env r) m p t s) \<in> codes"
    and timeout_code: "kTimeout \<in> codes"
begin

lemma send_once_code: "fst (send_once env r m p pol b) \<in> codes"
  by (simp add: send_once_def on_transport_def case_prod_beta send_code)

lemma resend_code: "ec \<in> codes \<Longrightarrow> fst (drop_oldest_and_resend env r m p pol ec b) \<in> codes"
  by (auto simp: drop_oldest_and_resend_def send_once_code split: prod.split)

lemma retry_code:
  assumes "\<And>s. fst (f s) \<in> codes"
  shows "fst (retry_loop f opts i n sl s) \<in> codes"
  using assms
proof (induction f opts i n sl s rule: retry_loop.induct)
  case (1 f opts i n sl s)
  have "fst (f s) \<in> codes" by (rule 1)
  then show ?case
    by (subst retry_loop.simps, cases "f s") (use 1 in \<open>auto simp: Let_def timeout_code\<close>)
qed

lemma PublishWithBackpressure_code: "fst (PublishWithBackpressure env r m p pol b) \<in> codes"
proof -
  obtain ec1 b1 where s: "send_once env r m p pol b = (ec1, b1)" by fastforce
  obtain ec2 b2 where d: "drop_oldest_and_resend env r m p pol ec1 b1 = (ec2, b2)" by fastforce
  have "ec1 \<in> codes" using send_once_code [of r m p pol b] s by simp
  moreover have "ec2 \<in> codes" using resend_code [OF calculation, of r m p pol b1] d by simp
  moreover have "fst (retry_loop (send_once env r m p pol) opts i n [] b2) \<in> codes" for opts i n
    by (rule retry_code [OF send_once_code])
  ultimately show ?thesis
    by (auto simp: PublishWithBackpressure_def s d Let_def RetryOnWouldBlock_def case_prod_beta)
qed

lemma publish_failover_code: "ec \<in> codes \<Longrightarrow> fst (publish_failover env r m p pol ec b) \<in> insert kOk codes"
  by (auto simp: publish_failover_def publish_fail_def Let_def split: option.split prod.split)

lemma publish_encoded_code: "fst (publish_encoded env r e m b) \<in> {kOk, kWouldBlock} \<union> codes"
proof -
  obtain pol b1 where P: "ResolvePolicy env e b = (pol, b1)" by fastforce
  obtain ok b2 where A: "AcquireFlowSlot (Some r) b1 = (ok, b2)" by fastforce
  obtain ec b3 where S: "PublishWithBackpressure env r m (ResolvePriorityForPublish e (Some r) b1) pol b2 = (ec, b3)" by fastforce
  have "ec \<in> codes" using PublishWithBackpressure_code S by (metis fst_conv)
  from publish_failover_code [OF this, of r m "ResolvePriorityForPublish e (Some r) b1" pol "ReleaseFlowSlot (Some r) b3"]
  show ?thesis
    by (auto simp: publish_encoded_def publish_fail_def Let_def P A S split: bool.split)
qed

lemma Publish_code:
  assumes "bridge_running b" "transport \<noteq> None" "IsEnvelopeValidForPublish e"
    and "\<forall>validate. authenticator b = Some validate \<longrightarrow> validate e"
  shows "fst (Publish env transport e b) \<in> {kOk, kWouldBlock} \<union> codes"
proof (cases rule: Publish_cases [of b transport env e])
  case (sending r b1 keys)
  show ?thesis unfolding sending(7) by (rule publish_encoded_code)
qed (use assms in \<open>auto simp: publish_fail_def\<close>)

end

text \<open>What is decided before anything is sent, for every transport.\<close>

lemma Publish_refused_codes:
  "\<not> bridge_running b \<or> transport = None \<Longrightarrow> fst (Publish env transport e b) = kThreadStartFailed"
  "bridge_running b \<Longrightarrow> transport \<noteq> None \<Longrightarrow>
     \<not> IsEnvelopeValidForPublish e \<or> (\<exists>validate. authenticator b = Some validate \<and> \<not> validate e) \<Longrightarrow>
     fst (Publish env transport e b) = kInterconnectInvalidEnvelope"
  by (auto simp: Publish_def publish_fail_def)

section \<open>The codes of the two transports\<close>

definition mq_send_codes :: "ErrorCode set" where
  "mq_send_codes = {kOk, kInvalidParam, kTimeout, kWouldBlock, kQueueSendFailed}"

lemma mq_send_code: "fst (mq_SendWithTimeout api m p t q) \<in> mq_send_codes"
  by (simp add: mq_SendWithTimeout_def mq_send_codes_def split: prod.split option.split)

interpretation mqc: coded_transports "mq_bridge_env api clk hash body cw order" mq_send_codes
  for api clk hash body cw order
proof
  show "fst (SendWithTimeout (transport_ops (mq_bridge_env api clk hash body cw order) r) m p t s) \<in> mq_send_codes" for r m p t s
    by (cases r) (simp_all add: mq_bridge_env_def PosixMqTransport_def mq_send_code)
qed (simp add: mq_send_codes_def)

text \<open>The loops of the TCP transport, when they return.\<close>

lemma WaitForSocket_code: "fst (WaitForSocket api fd w t k) \<in> {kOk, kTimeout, kQueueSendFailed}"
  by (simp add: WaitForSocket_def MapSocketError_def split: prod.split)

lemma send_pass_code: "send_pass api fd d t tot k = Inl r \<Longrightarrow> fst r \<in> {kTimeout, kQueueSendFailed}"
proof -
  assume h: "send_pass api fd d t tot k = Inl r"
  obtain ec k1 where W: "WaitForSocket api fd True t k = (ec, k1)" by fastforce
  then have "ec \<in> {kOk, kTimeout, kQueueSendFailed}" using WaitForSocket_code [of api fd True t k] by simp
  with h show ?thesis by (auto simp: send_pass_def W MapSocketError_def split: prod.splits if_splits sum.splits)
qed

lemma recv_pass_code: "recv_pass api fd d t tot k = Inl r \<Longrightarrow> fst r \<in> {kTimeout, kQueueSendFailed, kQueueReceiveFailed}"
proof -
  assume h: "recv_pass api fd d t tot k = Inl r"
  obtain ec k1 where W: "WaitForSocket api fd False t k = (ec, k1)" by fastforce
  then have "ec \<in> {kOk, kTimeout, kQueueSendFailed}" using WaitForSocket_code [of api fd False t k] by simp
  with h show ?thesis by (auto simp: recv_pass_def W MapSocketError_def split: prod.splits if_splits sum.splits)
qed

lemma send_loop_code: "send_loop api fd d t tot k = Some r \<Longrightarrow> fst r \<in> {kOk, kTimeout, kQueueSendFailed}"
proof (induction rule: send_loop.raw_induct [rotated 1, consumes 1, case_names step])
  case (step f api fd d t tot k r)
  then show ?case using send_pass_code [of api fd d t tot k] by (auto split: if_splits sum.splits prod.splits)
qed

lemma recv_loop_code: "recv_loop api fd d t tot k = Some r \<Longrightarrow> fst r \<in> {kOk, kTimeout, kQueueSendFailed, kQueueReceiveFailed}"
proof (induction rule: recv_loop.raw_induct [rotated 1, consumes 1, case_names step])
  case (step f api fd d t tot k r)
  then show ?case using recv_pass_code [of api fd d t tot k] by (auto split: if_splits sum.splits prod.splits)
qed

section \<open>Properties\<close>

text \<open>
  C5: the codes of a publication over message queues, on any kernel. A publication returns one of seven codes;
  \<^verbatim>\<open>kThreadStartFailed\<close> says exactly that the bridge is not running or has no transport, and
  \<^verbatim>\<open>kInterconnectInvalidEnvelope\<close> exactly that a running bridge refused the envelope itself, so with these two
  codes, and only with them, the caller knows that the message is at fault or the bridge is down.
\<close>

theorem Publish_result_type:
  "let env = mq_bridge_env api clk hash body cw order;
       up = (bridge_running b \<and> transport_ptr b r \<noteq> None);
       refused = (\<not> IsEnvelopeValidForPublish e \<or> (\<exists>validate. authenticator b = Some validate \<and> \<not> validate e));
       ec = fst (Publish env (transport_ptr b r) e b)
   in ec \<in> {kOk, kInvalidParam, kTimeout, kWouldBlock, kQueueSendFailed, kThreadStartFailed, kInterconnectInvalidEnvelope} \<and>
      (ec = kThreadStartFailed) = (\<not> up) \<and>
      (ec = kInterconnectInvalidEnvelope) = (up \<and> refused)"
proof -
  let ?env = "mq_bridge_env api clk hash body cw order"
  let ?up = "bridge_running b \<and> transport_ptr b r \<noteq> None"
  let ?refused = "\<not> IsEnvelopeValidForPublish e \<or> (\<exists>validate. authenticator b = Some validate \<and> \<not> validate e)"
  consider "\<not> ?up" | "?up" "?refused" | "?up" "\<not> ?refused" by blast
  then show ?thesis
  proof cases
    case 1
    then show ?thesis using Publish_refused_codes(1) [of b "transport_ptr b r" ?env e] by (auto simp: Let_def)
  next
    case 2
    then show ?thesis using Publish_refused_codes(2) [of b "transport_ptr b r" e ?env] by (simp add: Let_def)
  next
    case 3
    then have "fst (Publish ?env (transport_ptr b r) e b) \<in> {kOk, kWouldBlock} \<union> mq_send_codes"
      by (intro mqc.Publish_code) auto
    with 3 show ?thesis by (auto simp: Let_def mq_send_codes_def)
  qed
qed

theorem Publish_result_type_witness:
  "let env = mq_bridge_env ref_api (\<lambda>_. 0) (\<lambda>_. 0) FirstBody (\<lambda>_. False) id;
       b = sample_bridge (ref_transport_queue []) (ref_transport_queue []) ();
       down = b\<lparr>bridge_running := False\<rparr>
   in fst (Publish env (transport_ptr down V2R) sample_envelope down) = kThreadStartFailed \<and>
      fst (Publish env (transport_ptr b V2R) default_envelope b) = kInterconnectInvalidEnvelope"
proof -
  let ?b = "sample_bridge (ref_transport_queue []) (ref_transport_queue []) ()"
  have "\<not> IsEnvelopeValidForPublish default_envelope" by (simp add: IsEnvelopeValidForPublish_def default_envelope_def)
  moreover have "bridge_running ?b \<and> transport_ptr ?b V2R \<noteq> None" by (simp add: sample_bridge_def transport_ptr_def)
  ultimately show ?thesis
    using Publish_result_type [where api = ref_api and clk = "\<lambda>_. 0" and hash = "\<lambda>_. 0" and body = FirstBody
        and cw = "\<lambda>_. False" and order = id and b = ?b and r = V2R and e = default_envelope]
      Publish_result_type [where api = ref_api and clk = "\<lambda>_. 0" and hash = "\<lambda>_. 0" and body = FirstBody
        and cw = "\<lambda>_. False" and order = id and b = "?b\<lparr>bridge_running := False\<rparr>" and r = V2R and e = sample_envelope]
    by (simp add: Let_def)
qed

text \<open>
  The codes of the TCP transport, on any socket. Receiving can report a failed send, because every socket error
  is mapped to that code, and neither operation ever reports \<^verbatim>\<open>kWouldBlock\<close>, the only code a publication retries.
\<close>

theorem tcp_send_codes:
  "tcp_SendWithTimeout api m p t s = Some (ec, s') \<Longrightarrow> ec \<in> {kOk, kTimeout, kQueueSendFailed}"
  by (auto simp: tcp_SendWithTimeout_def SendAll_def Let_def split: if_splits option.splits dest!: send_loop_code)

theorem tcp_receive_codes:
  "tcp_ReceiveWithTimeout api m p t s = Some ((ec, m', p'), s') \<Longrightarrow>
     ec \<in> {kOk, kInvalidParam, kTimeout, kQueueSendFailed, kQueueReceiveFailed}"
  by (auto simp: tcp_ReceiveWithTimeout_def RecvAll_def Let_def split: if_splits option.splits dest!: recv_loop_code)

end
