(* ===== verification/Plug_Ins.thy ===== *)
theory Plug_Ins
  imports Bridge_Inbound Bridge_Delivery
begin

text \<open>
  The two plug-in interfaces of the bridge, \<^verbatim>\<open>interconnect/message_authenticator.hpp\<close> and
  \<^verbatim>\<open>interconnect/diagnostics_reporter.hpp\<close>, and the clock of \<^verbatim>\<open>osal/osal_time.hpp\<close>. A plug-in is a function: the
  authenticator decides on a message without effect (it is \<^verbatim>\<open>const noexcept\<close>), the reporter acts on the state
  of the application.
\<close>

section \<open>The interfaces\<close>

type_synonym IMessageAuthenticator = "MessageEnvelope \<Rightarrow> bool"

type_synonym 'w IDiagnosticsReporter = "string \<Rightarrow> 'w \<Rightarrow> 'w"

definition NullDiagnosticsReporter :: "'w IDiagnosticsReporter" where
  "NullDiagnosticsReporter text0 w = w"

text \<open>\<^verbatim>\<open>vr::osal::NowMs\<close>: the nanoseconds of the system clock cut to milliseconds (towards zero), as 64 bits.\<close>

definition osal_NowMs :: "int \<Rightarrow> u64" where
  "osal_NowMs now_ns = of_int (if now_ns \<ge> 0 then now_ns div 1000000 else - (- now_ns div 1000000))"

text \<open>Within the range of the clock after 1970 the time never runs backwards and loses less than a millisecond.\<close>

theorem osal_NowMs_floor:
  assumes "0 \<le> ns" "ns < 2 ^ 63"
  shows "uint (osal_NowMs ns) * 1000000 \<le> ns \<and> ns < (uint (osal_NowMs ns) + 1) * 1000000"
proof -
  have "uint (osal_NowMs ns) = ns div 1000000"
    using assms by (simp add: osal_NowMs_def uint_word_of_int take_bit_int_eq_self)
  then show ?thesis by simp linarith
qed

section \<open>The reporter\<close>

text \<open>With the null reporter the application sees nothing, whatever is reported.\<close>

theorem null_reporter_silent:
  "app (report_diagnostics env (SetDiagnosticsReporter (Some NullDiagnosticsReporter) b)) = app b"
  by (simp add: report_diagnostics_def SetDiagnosticsReporter_def NullDiagnosticsReporter_def NowUnixMs_def split: bool.split)

section \<open>The authenticator\<close>

lemma transport_at_quiet: "quiet b b' \<Longrightarrow> transport_at b' r = transport_at b r"
  using quiet_fields(2,3) [of b b'] by (cases r) simp_all

text \<open>
  C6: a message the authenticator refuses, sent from either side in any state of the bridge, reaches no
  transport: the publication returns an error, both transports are as they were, and so are the keys
  remembered for duplicates, so the same message can be published later with another verdict.
\<close>

theorem refused_message_untouched:
  assumes "authenticator b = Some validate" and "\<not> validate e"
  shows "case Publish env t e b of (ec, b') \<Rightarrow>
     ec \<in> {kThreadStartFailed, kInterconnectInvalidEnvelope} \<and> transport_at b' r = transport_at b r \<and>
     idempotency_recent_keys b' = idempotency_recent_keys b"
proof -
  define fail where "fail f ec = publish_fail env f ec b" for f ec
  have fields: "transport_at (snd (fail f ec)) r = transport_at b r \<and>
      idempotency_recent_keys (snd (fail f ec)) = idempotency_recent_keys b" if "f \<in> {id, count_invalid}" for f ec
  proof -
    have "quiet (f (count_up (\<lambda>c. c\<lparr>tx_fail_count := tx_fail_count c + 1\<rparr>) b)) (snd (fail f ec))"
      unfolding fail_def publish_fail_def by (simp add: quiet_refresh)
    from transport_at_quiet [OF this, of r] quiet_fields(10) [OF this] that show ?thesis
      by (cases r) (auto simp: count_invalid_def)
  qed
  have "Publish env t e b = fail id kThreadStartFailed \<or> Publish env t e b = fail count_invalid kInterconnectInvalidEnvelope"
    using assms by (simp add: Publish_def fail_def)
  then show ?thesis
    using fields [of id kThreadStartFailed] fields [of count_invalid kInterconnectInvalidEnvelope]
    by (auto simp: case_prod_beta) (simp_all add: fail_def publish_fail_def)
qed


definition other_vehicles_only :: IMessageAuthenticator where
  "other_vehicles_only e \<longleftrightarrow> source e \<noteq> ''vehicle''"

theorem refused_message_untouched_witness:
  "case Publish (mq_bridge_env ref_api (\<lambda>_. 0) (\<lambda>_. 0) FirstBody (\<lambda>_. False) id) (Some V2R) sample_envelope
          ((sample_bridge (ref_transport_queue []) (ref_transport_queue []) ())\<lparr>authenticator := Some other_vehicles_only\<rparr>) of
     (ec, b') \<Rightarrow> ec \<in> {kThreadStartFailed, kInterconnectInvalidEnvelope} \<and>
       transport_at b' V2R = Some (ref_transport_queue []) \<and> idempotency_recent_keys b' = Map.empty"
proof -
  let ?b = "(sample_bridge (ref_transport_queue []) (ref_transport_queue []) ())\<lparr>authenticator := Some other_vehicles_only\<rparr>"
  let ?env = "mq_bridge_env ref_api (\<lambda>_. 0) (\<lambda>_. 0) FirstBody (\<lambda>_. False) id"
  have "authenticator ?b = Some other_vehicles_only" "\<not> other_vehicles_only sample_envelope"
    by (simp_all add: other_vehicles_only_def sample_envelope_def)
  from refused_message_untouched [OF this, where env = ?env and t = "Some V2R" and r = V2R] show ?thesis
    by (simp add: case_prod_beta sample_bridge_def)
qed

end
