(* ===== verification/Test_Expectations.thy ===== *)
theory Test_Expectations
  imports Bridge_Startup Transport_Orchestrator Retry_Policy
begin

text \<open>
  What the program's own tests (\<^verbatim>\<open>src/tests\<close>) expect, on the model. A test on one component is a boolean
  function here, evaluated; two tests on a whole bridge expect what the bridge cannot do, which is shown for
  every transport, clock and schedule.
\<close>

section \<open>Components\<close>

text \<open>\<^verbatim>\<open>transport_orchestrator_test.cpp\<close>\<close>

definition TestCircuitOpenAndRecover :: bool where
  "TestCircuitOpenAndRecover =
     (let o0 = SetPolicy new_orchestrator (default_OrchestratorPolicy\<lparr>circuit_break_threshold := 2, circuit_recover_threshold := 2\<rparr>);
          o1 = OnPrimarySendFailure o0; o2 = OnPrimarySendFailure o1;
          o3 = OnPrimarySendSuccess o2; o4 = OnPrimarySendSuccess o3
      in \<not> IsCircuitOpen o1 \<and> IsCircuitOpen o2 \<and> IsCircuitOpen o3 \<and> \<not> IsCircuitOpen o4)"

lemma circuit_test_passes: "TestCircuitOpenAndRecover"
  by (simp add: TestCircuitOpenAndRecover_def SetPolicy_def new_orchestrator_def default_OrchestratorPolicy_def
      OnPrimarySendFailure_def OnPrimarySendSuccess_def IsCircuitOpen_def Let_def word_le_nat_alt)

text \<open>\<^verbatim>\<open>retry_policy_test.cpp\<close>: the operation counts its calls.\<close>

definition blocks_until :: "nat \<Rightarrow> ErrorCode \<Rightarrow> nat operation" where
  "blocks_until n ec calls = (if Suc calls < n then kWouldBlock else ec, Suc calls)"

definition TestRetrySucceedsAfterWouldBlock :: bool where
  "TestRetrySucceedsAfterWouldBlock =
     (case RetryOnWouldBlock (Some (blocks_until 3 kOk)) \<lparr>max_retries = 5, initial_backoff_ms = 1, max_backoff_ms = 8\<rparr> 0 of
        (ec, sleeps, calls) \<Rightarrow> ec = kOk \<and> calls = 3)"

definition TestRetryTimeoutAfterMaxRetries :: bool where
  "TestRetryTimeoutAfterMaxRetries =
     (case RetryOnWouldBlock (Some (blocks_until 9 kOk)) \<lparr>max_retries = 2, initial_backoff_ms = 1, max_backoff_ms = 8\<rparr> 0 of
        (ec, sleeps, calls) \<Rightarrow> ec = kTimeout \<and> calls = 3)"

definition TestRetryStopsOnNonRetryableError :: bool where
  "TestRetryStopsOnNonRetryableError =
     (case RetryOnWouldBlock (Some (blocks_until 0 kQueueSendFailed)) \<lparr>max_retries = 5, initial_backoff_ms = 1, max_backoff_ms = 8\<rparr> 0 of
        (ec, sleeps, calls) \<Rightarrow> ec = kQueueSendFailed \<and> calls = 1)"

definition TestInvalidOptions :: bool where
  "TestInvalidOptions =
     (\<forall>o' \<in> set [\<lparr>max_retries = -1, initial_backoff_ms = 1, max_backoff_ms = 8\<rparr>,
                \<lparr>max_retries = 1, initial_backoff_ms = 0, max_backoff_ms = 8\<rparr>,
                \<lparr>max_retries = 1, initial_backoff_ms = 10, max_backoff_ms = 1\<rparr>].
        fst (RetryOnWouldBlock (Some (blocks_until 0 kOk)) o' 0) = kInvalidParam)"

text \<open>The time slept stands for the time elapsed.\<close>

definition TestBackoffUpperBoundEffect :: bool where
  "TestBackoffUpperBoundEffect =
     (case RetryOnWouldBlock (Some (blocks_until 9 kOk)) \<lparr>max_retries = 4, initial_backoff_ms = 5, max_backoff_ms = 10\<rparr> 0 of
        (ec, sleeps, calls) \<Rightarrow> ec = kTimeout \<and> calls = 5 \<and> 35 \<le> sum_list sleeps \<and> sum_list sleeps < 120)"

lemma retry_tests_pass:
  "TestRetrySucceedsAfterWouldBlock" "TestRetryTimeoutAfterMaxRetries" "TestRetryStopsOnNonRetryableError"
  "TestInvalidOptions" "TestBackoffUpperBoundEffect"
  by (simp_all add: TestRetrySucceedsAfterWouldBlock_def TestRetryTimeoutAfterMaxRetries_def TestRetryStopsOnNonRetryableError_def
      TestInvalidOptions_def TestBackoffUpperBoundEffect_def RetryOnWouldBlock_def retry_loop.simps blocks_until_def)

text \<open>
  \<^verbatim>\<open>posix_message_queue_test.cpp\<close>, on the reference kernel. Each test removes a queue of the same name, creates
  one, uses it, closes and removes it; \<open>with_queue\<close> does that around its body.
\<close>

definition no_queue :: "ref_state PosixMessageQueue" where
  "no_queue = new_queue \<lparr>ref_msgs = [], ref_max = 0, ref_nonblock = False\<rparr>"

definition with_queue :: "QueueConfig \<Rightarrow> (ref_state PosixMessageQueue \<Rightarrow> bool \<times> ref_state PosixMessageQueue) \<Rightarrow> bool" where
  "with_queue cfg test =
     (case mq_Create ref_api cfg (mq_Unlink ref_api no_queue) of
        (ec, q) \<Rightarrow> ec = kOk \<and> (case test q of (ok, q') \<Rightarrow> ok \<and> mqd (mq_Unlink ref_api (mq_Close ref_api q')) = -1))"

definition TestCreateWithInvalidQueueName :: bool where
  "TestCreateWithInvalidQueueName =
     (fst (mq_Create ref_api \<lparr>q_name = ''invalid_name'', q_max_messages = 10, q_message_size = 256\<rparr> no_queue) = kInvalidParam)"

definition TestCreateSendReceiveAndCleanup :: bool where
  "TestCreateSendReceiveAndCleanup =
     with_queue \<lparr>q_name = ''/vr_ipc_test_queue_a'', q_max_messages = 8, q_message_size = 128\<rparr>
       (\<lambda>q. case mq_Send ref_api ''ipc_test_payload'' 3 q of (send_ec, q1) \<Rightarrow>
          (case mq_Receive ref_api (Some []) (Some 0) q1 of (r, q2) \<Rightarrow>
             (send_ec = kOk \<and> r = (kOk, Some ''ipc_test_payload'', Some 3), q2)))"

definition TestSendOversizedMessage :: bool where
  "TestSendOversizedMessage =
     with_queue \<lparr>q_name = ''/vr_ipc_test_queue_b'', q_max_messages = 8, q_message_size = 16\<rparr>
       (\<lambda>q. case mq_Send ref_api (replicate 32 (CHR ''X'')) 1 q of (ec, q1) \<Rightarrow> (ec = kInvalidParam, q1))"

definition TestReceiveWithNullOutput :: bool where
  "TestReceiveWithNullOutput =
     with_queue \<lparr>q_name = ''/vr_ipc_test_queue_c'', q_max_messages = 10, q_message_size = 256\<rparr>
       (\<lambda>q. case mq_Receive ref_api None (Some 0) q of ((ec, _, _), q1) \<Rightarrow> (ec = kInvalidParam, q1))"

definition TestReceiveTimeout :: bool where
  "TestReceiveTimeout =
     with_queue \<lparr>q_name = ''/vr_ipc_test_queue_timeout_recv'', q_max_messages = 8, q_message_size = 64\<rparr>
       (\<lambda>q. case mq_ReceiveWithTimeout ref_api (Some []) (Some 0) 20 q of ((ec, _, _), q1) \<Rightarrow> (ec = kTimeout, q1))"

definition TestSendTimeout :: bool where
  "TestSendTimeout =
     with_queue \<lparr>q_name = ''/vr_ipc_test_queue_timeout_send'', q_max_messages = 1, q_message_size = 64\<rparr>
       (\<lambda>q. case mq_Send ref_api ''first'' 1 q of (ec1, q1) \<Rightarrow>
          (case mq_SendWithTimeout ref_api ''second'' 1 20 q1 of (ec2, q2) \<Rightarrow> (ec1 = kOk \<and> ec2 = kTimeout, q2)))"

definition TestReceiveNonBlockingWouldBlock :: bool where
  "TestReceiveNonBlockingWouldBlock =
     with_queue \<lparr>q_name = ''/vr_ipc_test_queue_nb_recv'', q_max_messages = 4, q_message_size = 64\<rparr>
       (\<lambda>q. case mq_ReceiveNonBlocking ref_api (Some []) (Some 0) q of ((ec, _, _), q1) \<Rightarrow> (ec = kWouldBlock, q1))"

definition TestSendNonBlockingWouldBlock :: bool where
  "TestSendNonBlockingWouldBlock =
     with_queue \<lparr>q_name = ''/vr_ipc_test_queue_nb_send'', q_max_messages = 1, q_message_size = 64\<rparr>
       (\<lambda>q. case mq_Send ref_api ''first'' 1 q of (ec1, q1) \<Rightarrow>
          (case mq_SendNonBlocking ref_api ''second'' 1 q1 of (ec2, q2) \<Rightarrow> (ec1 = kOk \<and> ec2 = kWouldBlock, q2)))"

lemmas queue_test_defs = with_queue_def no_queue_def new_queue_def ref_api_def mq_Create_def mq_Unlink_def mq_Close_def
  mq_Send_def mq_SendWithTimeout_def mq_SendNonBlocking_def mq_Receive_def mq_ReceiveWithTimeout_def mq_ReceiveNonBlocking_def
  SetQueueNonBlocking_def RestoreQueueFlags_def too_long_def c_bytes_def c_string_def enqueue_prio_def

lemma queue_tests_pass:
  "TestCreateWithInvalidQueueName" "TestCreateSendReceiveAndCleanup" "TestSendOversizedMessage" "TestReceiveWithNullOutput"
  "TestReceiveTimeout" "TestSendTimeout" "TestReceiveNonBlockingWouldBlock" "TestSendNonBlockingWouldBlock"
  by (simp_all add: TestCreateWithInvalidQueueName_def TestCreateSendReceiveAndCleanup_def TestSendOversizedMessage_def
      TestReceiveWithNullOutput_def TestReceiveTimeout_def TestSendTimeout_def TestReceiveNonBlockingWouldBlock_def
      TestSendNonBlockingWouldBlock_def queue_test_defs Let_def)

text \<open>\<^verbatim>\<open>interconnect_codec_test.cpp\<close>: a payload with a separator and an escape character.\<close>

definition codec_test_msg :: MessageEnvelope where
  "codec_test_msg = default_envelope\<lparr>schema_version := 1, channel := kControl, qos := kAtLeastOnce, sequence := 42,
     timestamp_ms := 1000, ttl_ms := 100, source := ''vehicle'', target := ''robot'', topic := ''vehicle.command'',
     trace_id := ''trace_42'', payload := ''go|forward'' @ CHR 0x5C # ''step''\<rparr>"

definition TestCodecRoundTrip :: bool where
  "TestCodecRoundTrip =
     (case Message_Codec.Encode codec_test_msg (Some []) of (encode_ec, encoded) \<Rightarrow>
       (case Message_Codec.Decode (the encoded) (Some default_envelope) of (decode_ec, decoded) \<Rightarrow>
         encode_ec = kOk \<and> decode_ec = kOk \<and> decoded = Some codec_test_msg))"

lemma codec_test_passes: "TestCodecRoundTrip"
proof -
  have "schema_ok codec_test_msg" by (simp add: schema_ok_def kSchemaVersionCompatBaseline_def codec_test_msg_def)
  from legacy.dec_enc [OF this, of default_envelope] show ?thesis
    by (simp add: TestCodecRoundTrip_def Message_Codec.Encode_def) (simp add: legacy_view_def codec_test_msg_def default_envelope_def)
qed

text \<open>\<^verbatim>\<open>interconnect_protocol_adapter_test.cpp\<close>\<close>

definition TestProtocolSelfCheck :: bool where
  "TestProtocolSelfCheck = (\<forall>mode \<in> set [kLegacyPipe, kCompact, kProtobufReserved, kCborReserved].
     SelfCheckProtocolCapability mode = Completed True)"

definition downgrade_msg :: MessageEnvelope where
  "downgrade_msg = default_envelope\<lparr>source := ''vehicle'', target := ''robot'', topic := ''protocol.downgrade'', payload := ''payload''\<rparr>"

definition TestDecodeDowngradeCompatibility :: bool where
  "TestDecodeDowngradeCompatibility =
     (case EncodeByProtocol kProtobufReserved downgrade_msg (Some []) of (ec, encoded) \<Rightarrow>
        ec = kOk \<and>
        (case DecodeByProtocol kLegacyPipe (the encoded) (Some default_envelope) of
           Completed (dec, Some out) \<Rightarrow> dec = kOk \<and> topic out = topic downgrade_msg \<and> payload out = payload downgrade_msg
         | _ \<Rightarrow> False))"

lemma protocol_tests_pass: "TestProtocolSelfCheck" "TestDecodeDowngradeCompatibility"
proof -
  have "schema_ok downgrade_msg" "body_fits downgrade_msg"
    by (simp_all add: schema_ok_def kSchemaVersionCompatBaseline_def downgrade_msg_def default_envelope_def body_fits_def
        compact_fields_def show_nat.simps)
  from DecodeByProtocol_wire [OF this, of kLegacyPipe kProtobufReserved default_envelope]
  show "TestDecodeDowngradeCompatibility"
    by (simp add: TestDecodeDowngradeCompatibility_def EncodeByProtocol_ok compact_view_def)
qed (simp add: TestProtocolSelfCheck_def selfcheck_passes)

section \<open>Starting with a canary percentage of zero\<close>

lemma adopt_config_config:
  "config (adopt_config env cfg b) =
     (normalize cfg)\<lparr>policy_table := rebuild_index (PopulateDefaultTemplateRules (body_choice env) (policy_table (normalize cfg)))\<rparr>"
  by (simp add: adopt_config_def RebuildPolicyIndex_def PopulateTemplates_def Let_def)

lemma adopt_config_canary [simp]:
  "enable_config_canary (config (adopt_config env cfg b)) = enable_config_canary cfg"
  "config_canary_percent (config (adopt_config env cfg b)) = config_canary_percent cfg"
  by (simp_all add: adopt_config_config NormalizePolicyDefaults_def)

text \<open>
  a bridge cannot be started with a configuration canary of zero percent. Whatever the transports, the
  clock and the schedule are, \<^verbatim>\<open>Start\<close> of a stopped bridge returns \<^verbatim>\<open>kWouldBlock\<close> and the bridge stays stopped;
  the gate per topic and channel that the tests of the canary start such a bridge for is never reached.
\<close>

theorem canary_zero_never_starts:
  assumes "enable_config_canary cfg" and "config_canary_percent cfg = 0"
    and "\<not> bridge_running b"
    and "vehicle_to_robot_transport b \<noteq> None" and "robot_to_vehicle_transport b \<noteq> None"
  shows "\<exists>b'. Start_config env sch cfg b = (StartReturns kWouldBlock, b') \<and> \<not> bridge_running b'"
proof -
  let ?b = "if cfg_source (history b) = [] then b\<lparr>history := (history b)\<lparr>cfg_source := ''direct''\<rparr>\<rparr> else b"
  obtain no b1 where n: "canary_refuses env (adopt_config env cfg ?b) = (no, b1)" by fastforce
  have "no" using n assms(1,2) by (auto simp: canary_refuses_def NowUnixMs_def)
  moreover have "\<not> bridge_running b1"
    using canary_keeps [OF n] assms(3) by (simp add: bridge_keeps_adopt)
  moreover have "vehicle_to_robot_transport ?b \<noteq> None" "robot_to_vehicle_transport ?b \<noteq> None"
    using assms(4,5) by simp_all
  ultimately show ?thesis using assms(3) n by (simp add: Start_config_def Let_def canary_rollback_def)
qed

text \<open>The configuration of \<^verbatim>\<open>TestCanarySegmentGateByTopicChannel\<close>.\<close>

definition MakeValidConfig :: BridgeConfig where
  "MakeValidConfig = default_BridgeConfig\<lparr>
     vehicle_to_robot_endpoint := default_endpoint\<lparr>name := ''reload_v2r''\<rparr>,
     robot_to_vehicle_endpoint := default_endpoint\<lparr>name := ''reload_r2v''\<rparr>,
     thread_pool := (thread_pool default_BridgeConfig)\<lparr>worker_count := 1, queue_capacity := 4\<rparr>,
     sla_policy := (sla_policy default_BridgeConfig)\<lparr>retry_budget :=
       \<lparr>budget_max_retries = 1, budget_initial_backoff_ms = 5, budget_max_backoff_ms = 10\<rparr>\<rparr>\<rparr>"

definition canary_test_config :: BridgeConfig where
  "canary_test_config = MakeValidConfig\<lparr>enable_config_canary := True, config_canary_percent := 0,
     config_canary_topic_prefix := ''canary.'', config_canary_channel := uint (channel_value kTelemetry)\<rparr>"

theorem canary_zero_never_starts_witness:
  "\<exists>b'. Start_config (plain_env (PosixMqTransport ref_api)) \<lparr>priority_set = (\<lambda>_. True), first_loop_taken = True\<rparr>
       canary_test_config (new_bridge (Some (ref_transport_queue [])) (Some (ref_transport_queue [])) ()) =
     (StartReturns kWouldBlock, b') \<and> \<not> bridge_running b'"
  by (rule canary_zero_never_starts) (simp_all add: canary_test_config_def new_bridge_def)

section \<open>Reloading a configuration with the same policies\<close>

definition settings :: "('t, 'w) bridge \<Rightarrow> config_history \<times> BridgeConfig" where
  "settings b = (history b, config b)"

lemma settings_simps [simp]:
  "settings (set_transport r s b) = settings b" "settings (close_unlink env r b) = settings b"
  "settings (RefreshAggregatedMetrics env force b) = settings b" "settings (b\<lparr>worker_pool := p\<rparr>) = settings b"
  "settings (b\<lparr>bridge_running := u\<rparr>) = settings b" "settings (ApplyTransportTuning c b) = settings b"
  by (cases r; simp add: settings_def close_unlink_def ApplyTransportTuning_def split: option.split)+

lemma settings_Stop [simp]: "settings (bridge_Stop env b) = settings b"
  by (simp add: bridge_Stop_def Let_def)

lemma settings_start_loop: "settings (snd (start_loop env l b)) = settings b"
  by (simp add: start_loop_def split: prod.split enqueue_result.split)

lemma settings_first_worker: "settings (first_worker_takes sch b) = settings b"
  by (simp add: first_worker_takes_def split: option.split)

lemma settings_start_loops: "settings (snd (start_loops env sch b)) = settings b"
proof -
  obtain r1 b1 where 1: "start_loop env VehicleLoop (b\<lparr>bridge_running := True\<rparr>) = (r1, b1)" by fastforce
  obtain r2 b2 where 2: "start_loop env RobotLoop (first_worker_takes sch b1) = (r2, b2)" by fastforce
  have "settings b1 = settings b" using settings_start_loop [of env VehicleLoop "b\<lparr>bridge_running := True\<rparr>"] 1 by simp
  moreover have "settings b2 = settings b1"
    using settings_start_loop [of env RobotLoop "first_worker_takes sch b1"] 2 by (simp add: settings_first_worker)
  ultimately show ?thesis by (simp add: start_loops_def 1 2 split: option.split)
qed

lemma settings_create: "settings (snd (create_transport env r endpoint b)) = settings b"
  by (simp add: create_transport_def on_transport_def split: prod.split)

lemma settings_open: "settings (snd (open_bridge env sch b0)) = settings b0"
proof -
  let ?b = "ApplyTransportTuning (config b0) b0"
  obtain e1 b1 where 1: "create_transport env V2R (vehicle_to_robot_endpoint (config ?b)) ?b = (e1, b1)" by fastforce
  obtain e2 b2 where 2: "create_transport env R2V (robot_to_vehicle_endpoint (config ?b)) b1 = (e2, b2)" by fastforce
  obtain e3 p where 3: "pool_Start (priority_set sch) (thread_pool (config b2)) (worker_pool b2) = (e3, p)" by fastforce
  have "settings b1 = settings b0"
    using settings_create [of env V2R "vehicle_to_robot_endpoint (config ?b)" ?b] 1 by simp
  moreover have "settings b2 = settings b1"
    using settings_create [of env R2V "robot_to_vehicle_endpoint (config ?b)" b1] 2 by simp
  ultimately show ?thesis by (simp add: open_bridge_def Let_def 1 2 3 settings_start_loops)
qed

text \<open>What a bridge started from the provider of the tests has recorded, however the start ends.\<close>

definition started_from :: "'t bridge_env \<Rightarrow> start_schedule \<Rightarrow> BridgeConfig \<Rightarrow> 't \<Rightarrow> 't \<Rightarrow> 'w \<Rightarrow> ('t, 'w) bridge" where
  "started_from env sch cfg v r w =
     snd (fst (Start_provider env sch static_provider (Some (new_StaticConfigProvider cfg ''static://base''))
       (new_bridge (Some v) (Some r) w)))"

lemma started_settings:
  assumes "\<not> enable_config_canary cfg"
  shows "last_known_good_signature (history (started_from env sch cfg v r w)) = ComputePolicySignature (string_hash env) (policy_table cfg)"
    and "cfg_version (history (started_from env sch cfg v r w)) = 1"
    and "config (started_from env sch cfg v r w) =
       (normalize cfg)\<lparr>policy_table := rebuild_index (PopulateDefaultTemplateRules (body_choice env) (policy_table (normalize cfg)))\<rparr>"
proof -
  define sg where "sg = ComputePolicySignature (string_hash env) (policy_table cfg)"
  define b0 where "b0 = new_bridge (Some v) (Some r) w"
  define b1 where "b1 = b0\<lparr>history := (history b0)\<lparr>cfg_source := ''static://base'', cfg_version := 1,
     last_known_good_config := cfg, last_known_good_version := 1, last_known_good_source := ''static://base'',
     last_known_good_signature := sg, last_loaded_signature := sg\<rparr>\<rparr>"
  have "started_from env sch cfg v r w = snd (Start_config env sch cfg b1)"
    by (simp add: started_from_def Start_provider_def static_provider_def scp_LoadBridgeConfig_def new_StaticConfigProvider_def
        b1_def b0_def sg_def Let_def)
  also have "\<dots> = snd (open_bridge env sch (adopt_config env cfg b1))"
    using assms by (simp add: Start_config_def b1_def b0_def new_bridge_def canary_refuses_def)
  finally have "settings (started_from env sch cfg v r w) = settings (adopt_config env cfg b1)" by (simp add: settings_open)
  moreover have "history (adopt_config env cfg b1) = history b1"
    by (simp add: adopt_config_def RebuildPolicyIndex_def PopulateTemplates_def Let_def b1_def)
  ultimately show "last_known_good_signature (history (started_from env sch cfg v r w)) = ComputePolicySignature (string_hash env) (policy_table cfg)"
    "cfg_version (history (started_from env sch cfg v r w)) = 1"
    "config (started_from env sch cfg v r w) =
       (normalize cfg)\<lparr>policy_table := rebuild_index (PopulateDefaultTemplateRules (body_choice env) (policy_table (normalize cfg)))\<rparr>"
    by (simp_all add: settings_def b1_def sg_def adopt_config_config)
qed

text \<open>Without rules the signature does not depend on the hash of strings.\<close>

lemma signature_no_rules:
  "template_rules t = [] \<Longrightarrow> rules t = [] \<Longrightarrow> runtime_overrides t = [] \<Longrightarrow>
     ComputePolicySignature h t = ComputePolicySignature (\<lambda>_. 0) t"
  by (simp add: ComputePolicySignature_def)

lemma valid_config_tables:
  "template_rules (policy_table MakeValidConfig) = []" "rules (policy_table MakeValidConfig) = []"
  "runtime_overrides (policy_table MakeValidConfig) = []"
  by (simp_all add: MakeValidConfig_def default_BridgeConfig_def default_PolicyTable_def)

lemma valid_config_flags:
  "\<not> enable_config_risk_guard (normalize MakeValidConfig)"
  "\<not> lock_policy (default_policy (policy_table (normalize MakeValidConfig)))"
  by (simp_all add: NormalizePolicyDefaults_def MakeValidConfig_def default_BridgeConfig_def default_PolicyTable_def
      normalized_policy_def fill_policy_def default_SlaPolicy_def Let_def)

lemma default_policy_kept:
  "default_policy (rebuild_index (PopulateDefaultTemplateRules body t)) = default_policy t"
  by (simp add: rebuild_index_def PopulateDefaultTemplateRules_def Let_def split: template_body.split)

lemma valid_config_signatures:
  "ComputePolicySignature (\<lambda>_. 0) (policy_table MakeValidConfig) \<noteq> 0"
  "ComputePolicySignature (\<lambda>_. 0) (policy_table (normalize MakeValidConfig)) \<noteq>
     ComputePolicySignature (\<lambda>_. 0) (policy_table MakeValidConfig)"
  by code_simp+

text \<open>
  a bridge started from a provider refuses to reload a configuration with the policies it was started
  with. Both tests of a reload start from a configuration whose policies the start normalises; the signature
  recorded is the one before normalisation and the one compared is the one after. So changing the receive
  priority alone, which the test of the provider expects to succeed, fails with \<^verbatim>\<open>kQueueCreateFailed\<close>, and so
  does the invalid configuration of the other test, which expects \<^verbatim>\<open>kInvalidParam\<close>; for all transports, clocks,
  hash functions and schedules.
\<close>

theorem reload_tests_fail:
  "let b = started_from env sch MakeValidConfig v r w;
       reload = (\<lambda>cfg. fst (fst (ReloadConfigIfChanged env static_provider
          (Some (UpdateConfigForTest cfg src (new_StaticConfigProvider MakeValidConfig ''static://base''))) b)))
   in reload (MakeValidConfig\<lparr>receive_priority := 3\<rparr>) = kQueueCreateFailed \<and>
      reload (MakeValidConfig\<lparr>thread_pool := (thread_pool MakeValidConfig)\<lparr>worker_count := 0\<rparr>\<rparr>) = kQueueCreateFailed"
proof -
  let ?b = "started_from env sch MakeValidConfig v r w"
  have "\<not> enable_config_canary MakeValidConfig" by (simp add: MakeValidConfig_def default_BridgeConfig_def)
  note st = started_settings [OF this, of env sch v r w]
  have flags: "\<not> enable_config_risk_guard (config ?b)" "\<not> lock_policy (default_policy (policy_table (config ?b)))"
    using valid_config_flags by (simp_all add: st(3) default_policy_kept)
  have "ComputePolicySignature (string_hash env) (policy_table MakeValidConfig) = ComputePolicySignature (\<lambda>_. 0) (policy_table MakeValidConfig)"
    by (rule signature_no_rules) (simp_all add: valid_config_tables)
  moreover have "ComputePolicySignature (string_hash env) (policy_table (normalize MakeValidConfig)) =
      ComputePolicySignature (\<lambda>_. 0) (policy_table (normalize MakeValidConfig))"
    by (rule signature_no_rules) (simp_all add: valid_config_tables NormalizePolicyDefaults_def)
  ultimately have sig: "ComputePolicySignature (string_hash env) (policy_table (normalize MakeValidConfig)) \<noteq> last_known_good_signature (history ?b)"
    "last_known_good_signature (history ?b) \<noteq> 0"
    using valid_config_signatures unfolding st(1) by metis+
  have refused: "fst (fst (ReloadConfigIfChanged env static_provider
          (Some (UpdateConfigForTest cfg src (new_StaticConfigProvider MakeValidConfig ''static://base''))) ?b)) = kQueueCreateFailed"
    if "policy_table (normalize cfg) = policy_table (normalize MakeValidConfig)" for cfg
  proof -
    have "fst (install_config env (normalize cfg) src 2 ?b) = kQueueCreateFailed"
      using sig that by (simp add: install_config_def Let_def)
    then have "fst (guard_config env cfg src 2 ?b) = kQueueCreateFailed"
      using flags by (simp add: guard_config_def Let_def should_preserve_locked_policy_def)
    then show ?thesis
      by (simp add: ReloadConfigIfChanged_def static_provider_def UpdateConfigForTest_def new_StaticConfigProvider_def
          scp_LoadBridgeConfig_def st(2) Let_def)
  qed
  show ?thesis unfolding Let_def
    by (intro conjI refused) (simp_all add: NormalizePolicyDefaults_def)
qed

end
