(* ===== verification/Spec2Isabelle.thy ===== *)
theory Spec2Isabelle
  imports Error_Code Retry_Policy Process_Guardian Thread_Pool Logging Message_Envelope Message_Codec Protocol_Adapter
    Bridge_Policy Policy_Resolution Policy_Cache Policy_Lint Transport Transport_Orchestrator Posix_Message_Queue
    Tcp_Transport Message_Router Metrics_Aggregator Bridge_Config Bridge_Windows Bridge_State Bridge_Publish
    Bridge_Delivery Bridge_Inbound Bridge_Lifecycle Bridge_Startup Bridge_Invariants Bridge_Conservation
    Tcp_Windows Flow_Concurrency Osal_Event Board_Support Board_Correct Board_Boot Board_Reset Benchmark Adapter_Stubs
    Service_Demo Learning_Demo Cache_References Snapshot_Race Queue_Flags Tcp_Concurrency Result_Codes Plug_Ins
    Test_Expectations
begin

text \<open>
  \<^bold>\<open>A verification of the vehicle and robot message bridge.\<close>

  The program (C++, under \<^verbatim>\<open>src/src\<close>) connects a vehicle and a robot by two message transports, one per
  direction. A publication is validated, resolved to a service-level policy, checked for duplicates, given a
  flow slot, encoded in one of four wire protocols and sent with the back-pressure, retry and fail-over its
  policy asks for. Two loops, run by a thread pool, take texts from the transports, decode and check them and
  hand them to the handlers of their topics. The bridge keeps counters, a policy cache, a window of recent
  keys and an index of recent traces, and its configuration can be reloaded while it runs.

  \<^bold>\<open>Parts and theories.\<close>

  \<^item> \<open>Prelude\<close>: widths of integers, the string functions of the C++ library, counters in maps, shared lemmas.
  \<^item> \<open>Error_Code\<close> (\<^verbatim>\<open>core/error_code\<close>), \<open>Retry_Policy\<close> (\<^verbatim>\<open>core/retry_policy\<close>), \<open>Process_Guardian\<close>
    (\<^verbatim>\<open>core/process_guardian\<close>): error codes, the retry loop over an arbitrary operation, the restart loop.
  \<^item> \<open>Thread_Pool\<close> (\<^verbatim>\<open>core/thread_pool\<close>): each critical section is a function, and an inductive step relation
    interleaves the owner, the workers and the callers in every order.
  \<^item> \<open>Logging\<close> (\<^verbatim>\<open>log/logger\<close>): the logger and scoped contexts.
  \<^item> \<open>Message_Envelope\<close>, \<open>Message_Codec\<close>, \<open>Protocol_Adapter\<close> (\<^verbatim>\<open>interconnect/message_envelope.hpp\<close>,
    \<^verbatim>\<open>message_codec\<close>, \<^verbatim>\<open>message_protocol_adapter\<close>): envelopes, the two text formats, wire frames and headers.
  \<^item> \<open>Bridge_Policy\<close>, \<open>Policy_Resolution\<close>, \<open>Policy_Cache\<close>, \<open>Policy_Lint\<close> (\<^verbatim>\<open>bridge_policy.hpp\<close> and the policy
    functions of \<^verbatim>\<open>interconnect_bridge.cpp\<close>): rules, the topic index and best match, the cache as a list with
    an index of iterators, the lint report and counters.
  \<^item> \<open>Transport\<close> (\<^verbatim>\<open>transport.hpp\<close>): the interface as a record of operations, its contract as the locale
    \<open>message_transport\<close>. \<open>Posix_Message_Queue\<close> (\<^verbatim>\<open>ipc/posix_message_queue\<close>, \<^verbatim>\<open>posix_mq_transport\<close>) and
    \<open>Tcp_Transport\<close> (\<^verbatim>\<open>tcp_transport\<close>, POSIX branch) are written over records of system calls, \<open>Tcp_Windows\<close> (the
    Windows branch of the same file) over a record of WinSock calls; the locales \<open>mq_kernel\<close>, \<open>stream_socket\<close>, \<open>live_socket\<close> and \<open>descriptor_table\<close> say what the calls promise.
    \<open>Transport_Orchestrator\<close>: fail-over and the circuit breaker.
  \<^item> \<open>Message_Router\<close>, \<open>Metrics_Aggregator\<close>, \<open>Bridge_Config\<close>, \<open>Bridge_Windows\<close>: routing, counters and their
    exports, configuration and the managers of policies and protocols, log gates, the duplicate window, the
    trace index and the snapshot file.
  \<^item> \<open>Bridge_State\<close>: the bridge object (\<^verbatim>\<open>interconnect_bridge.hpp\<close>) as a record, and its reports and setters.
    \<open>Bridge_Publish\<close>: \<^verbatim>\<open>Publish\<close> and \<^verbatim>\<open>PublishWithBackpressure\<close>. \<open>Bridge_Inbound\<close>: \<^verbatim>\<open>ProcessInbound\<close>.
    \<open>Bridge_Lifecycle\<close>: the constructor, \<^verbatim>\<open>Start\<close>, \<^verbatim>\<open>Stop\<close>, \<^verbatim>\<open>ReloadConfigIfChanged\<close>.
  \<^item> \<open>Bridge_Delivery\<close>, \<open>Bridge_Startup\<close>, \<open>Bridge_Invariants\<close>, \<open>Bridge_Conservation\<close> hold no model: they prove what
    the operations above do together. \<open>Result_Codes\<close> says which error codes a publication and the transports can
    return, \<open>Plug_Ins\<close> models the authenticator, the reporter and the clock of \<^verbatim>\<open>osal/osal_time.hpp\<close>.
  \<^item> Interleavings, each with any number of threads and the atomic accesses or critical sections of the code as
    steps: \<open>Flow_Concurrency\<close> (flow slots, log gates), \<open>Cache_References\<close> (the references into the policy cache
    that \<^verbatim>\<open>ResolvePolicy\<close> hands out, and reloads), \<open>Queue_Flags\<close> (the non-blocking flag of a message queue),
    \<open>Tcp_Concurrency\<close> (senders on one connection), \<open>Snapshot_Race\<close> (writers of the snapshot file).
  \<^item> \<open>Osal_Event\<close> (\<^verbatim>\<open>osal/osal_event.hpp\<close>): the event over a condition variable, as a step relation.
  \<^item> \<open>Board_Support\<close> (\<^verbatim>\<open>platform/stm32f429\<close>): reset handler, clock and memory controller set-up, serial log,
    memory self-test, diagnostics adapter and main program, over a record of bus accesses. \<open>Board_Correct\<close>
    (clock, registers), \<open>Board_Reset\<close> (memory image) and \<open>Board_Boot\<close> (self-test, log, heartbeat) prove what they
    do on hardware that keeps the locales \<open>board_hardware\<close> and \<open>sram_chip\<close>; a simulated board does.
  \<^item> \<open>Benchmark\<close> (\<^verbatim>\<open>demo/interconnect_benchmark_driver.cpp\<close>): the benchmark over a record of what it asks of the
    world, which is instantiated with the model of the bridge. \<open>Service_Demo\<close> (\<^verbatim>\<open>demo/main.cpp\<close>),
    \<open>Learning_Demo\<close> (\<^verbatim>\<open>demo/interconnect_learning_demo.cpp\<close>) and \<open>Adapter_Stubs\<close> (the RTOS and ROS 2 stubs and
    samples): the other programs under \<^verbatim>\<open>demo\<close>.

  \<^bold>\<open>What is proved.\<close>

  \<^item> End to end: over any sequence of publications and inbound passes the texts on the transports are
    conserved; a publication puts its text on exactly one transport exactly when it returns ok; a published
    message reaches its handler once. These rest on the transport contract only, which the message queue
    transport is shown to keep on every kernel that behaves as documented.
  \<^item> Accounting: every publication and every text received is counted once, under one outcome, and flow
    slots are given back.
  \<^item> State: in every reachable state of the bridge (the step relation \<open>bridge_step\<close>, with the locale
    \<open>bridge_invariant\<close> interpreted once per invariant) transports, cache and trace index are well formed, and
    the policy cache changes no decision as long as no rule looks at source or target.
  \<^item> Life cycle: a start leaves both loops in the pool or nothing running; a reload commits or changes nothing.
  \<^item> Thread pool: in all interleavings the queue is bounded, the counters balance, and stopping ends with
    every accepted task run once.
  \<^item> Formats: codec, protocol, frame and queue round trips, and what is refused; exact bounds of the clock,
    back-off and port arithmetic.
  \<^item> Policies: the indexed search equals its specification, overlap is exact, a clean lint report excludes
    ties, the cache evicts least recently used entries only.
  \<^item> Concurrency: flow limits hold and successful gate callers are spaced in every interleaving; no wake-up of
    an event is lost when all waiters are notified. References into the policy cache are safe in every
    interleaving without reloads over at most 256 keys, and one reference lives exactly as long as fewer than 256
    other keys are resolved; the streams two senders can leave are exactly the shuffles of their frames; a lone
    writer of the snapshot file does what the atomic operation does, and queue flags are restored when calls do
    not overlap.
  \<^item> Codes: a publication over message queues returns one of seven codes, two of which say exactly that the bridge
    is down and that the message was refused; a message the authenticator refuses reaches no transport.
  \<^item> Platforms: the two branches of the TCP transport are the same transport; the board comes out of reset with
    its memory image and its clocks as configured, and its self-test is exact for faults of address and data
    lines.
  \<^item> The benchmark ends, and its percentiles are percentiles; the service demonstration removes its queue and
    stops its pool whatever its workers do.
  \<^item> Defects of the code that the model shows are stated as theorems as well: for instance only the legacy
    protocol gets through, policies cannot be changed by a reload, a timed out TCP send breaks the framing, the
    board waits for ever on a serial port whose clock is off, the fault assertion of the benchmark cannot fail;
    interleavings in which a reload frees references in use or leaves a refused policy in the cache, two callers
    leave a queue non-blocking for good, two senders mix their frames, two writers lose the snapshot file.
  \<^item> Tests: \<open>Test_Expectations\<close> evaluates the tests of the retry policy, the circuit breaker, the
    message queue (on the reference kernel), the codec and two of the protocol adapter on the model, and
    shows that what the tests of a reload and of the canary expect never happens.

  \<^bold>\<open>Conventions.\<close> Unsigned integers are words of their width and wrap around; signed ones are integers, and
  where the code may overflow them the theorems bound them. A pointer parameter is an option, \<open>None\<close> for null.
  Output parameters are returned. A \<^verbatim>\<open>noexcept\<close> function an exception would leave ends the process: the result
  \<open>Terminated\<close>. The clock is a function of the number of readings so far, so it may jump. Handlers, the
  reporter and the authenticator are functions on the state of the application. Hash values, the traversal
  order of hash maps, and which of two definitions of \<^verbatim>\<open>PopulateDefaultTemplateRules\<close> a build takes are
  parameters. Operations of the bridge are atomic in the step relation \<open>bridge_step\<close>; the interleaving inside the
  thread pool is modelled in full, and that of the parts of the bridge threads share in the theories named above.

  \<^bold>\<open>Loops.\<close> The inbound loop is run for a number of passes, which theorems quantify over: it ends only when
  the bridge is stopped. The loops of the TCP transport are partial functions; that they return is proved for
  sockets that are interrupted finitely often. The busy waits of the board and the wait of the benchmark are
  partial functions too; that they return is proved from the settling of the hardware and the progress of the
  clock. All other loops are total functions.

  \<^bold>\<open>Not modelled.\<close> How long a sleep lasts, apart from the benchmark; the mutex alias and the sleep function under
  \<^verbatim>\<open>osal\<close>, which only name the C++ library; \<^verbatim>\<open>ExportPolicyEffectiveView\<close>, which reads a member its policy type does not
  have; the fault handlers of the board, empty loops; the tests that
  run threads, sockets or files; the data races on the plain members a reload writes while other threads read
  them, which C++ gives no meaning to; and the files CMake generates.
\<close>

end
